(* ===== verification/Rust_Prelude.thy ===== *)
theory Rust_Prelude
  imports Main "HOL-Library.Word" "HOL-Library.AList" "HOL-Library.Multiset"
    "HOL-Library.Monad_Syntax"
begin

text \<open>
  What the components share: the machine types of the sources, the outcome of a call that
  may not return, slices and fixed-size arrays, big-endian integers, checked arithmetic
  under the two build profiles, and the \<open>HashMap\<close> of the standard library with the
  interface its clients use.
\<close>

unbundle bit_operations_syntax

section \<open>Machine types\<close>

type_synonym u8 = "8 word"
type_synonym u16 = "16 word"
type_synonym u32 = "32 word"
type_synonym u64 = "64 word"
type_synonym usize = "64 word"
type_synonym i64 = "64 word"
type_synonym bytes32 = "u8 list"

text \<open>
  A call that may panic or run forever has type \<open>'a exec\<close>: \<open>Some v\<close> is "returns
  \<open>v\<close>", \<open>None\<close> is "returns no value". A \<open>Result\<close> of the source is a sum
  inside it, its \<open>Err\<close> on the left.
\<close>

type_synonym 'a exec = "'a option"
type_synonym ('e, 'a) result = "'e + 'a"

abbreviation Err :: "'e \<Rightarrow> ('e, 'a) result" where "Err \<equiv> Inl"
abbreviation Ok :: "'a \<Rightarrow> ('e, 'a) result" where "Ok \<equiv> Inr"

named_theorems wf_intros \<open>every operation keeps the sizes of the arrays it builds\<close>
named_theorems bytes_simps \<open>lengths and contents of byte sequences\<close>

section \<open>Slices, vectors and arrays\<close>

text \<open>Indexing panics out of range.\<close>

definition vec_index :: "'a list \<Rightarrow> nat \<Rightarrow> 'a exec" where
  "vec_index xs i = (if i < length xs then Some (xs ! i) else None)"

lemma vec_index_in_range [simp]: "i < length xs \<Longrightarrow> vec_index xs i = Some (xs ! i)"
  by (simp add: vec_index_def)

text \<open>\<open>Vec::resize\<close>: extend with copies of a value, or cut.\<close>

definition vec_resize :: "nat \<Rightarrow> 'a \<Rightarrow> 'a list \<Rightarrow> 'a list" where
  "vec_resize n v xs = (if length xs \<le> n then xs @ replicate (n - length xs) v else take n xs)"

lemma length_vec_resize [simp]: "length (vec_resize n v xs) = n"
  by (simp add: vec_resize_def)

text \<open>\<open>dst.copy_from_slice(src)\<close> panics when the lengths differ.\<close>

definition copy_from_slice :: "'a list \<Rightarrow> 'a list \<Rightarrow> 'a list exec" where
  "copy_from_slice dst src = (if length src = length dst then Some src else None)"

text \<open>
  The idiom \<open>let len = bytes.len().min(N); arr[..len].copy_from_slice(&bytes[..len])\<close>:
  the front of the array is overwritten, the rest keeps its old contents.
\<close>

definition copy_prefix :: "'a list \<Rightarrow> 'a list \<Rightarrow> 'a list" where
  "copy_prefix arr bytes =
     (let len = min (length bytes) (length arr) in take len bytes @ drop len arr)"

lemma length_copy_prefix [simp, bytes_simps]: "length (copy_prefix arr bytes) = length arr"
  by (simp add: copy_prefix_def Let_def)

lemma copy_prefix_exact [simp]: "length bytes = length arr \<Longrightarrow> copy_prefix arr bytes = bytes"
  by (simp add: copy_prefix_def)

lemma copy_prefix_long: "length arr \<le> length bytes \<Longrightarrow> copy_prefix arr bytes = take (length arr) bytes"
  by (simp add: copy_prefix_def)

lemma copy_prefix_short:
  "length bytes \<le> length arr \<Longrightarrow> copy_prefix arr bytes = bytes @ drop (length bytes) arr"
  by (simp add: copy_prefix_def)


section \<open>Big-endian integers\<close>

text \<open>\<open>u32::to_be_bytes\<close> and \<open>u32::from_be_bytes\<close>.\<close>

definition to_be_bytes :: "u32 \<Rightarrow> u8 list" where
  "to_be_bytes w = [ucast (drop_bit 24 w), ucast (drop_bit 16 w), ucast (drop_bit 8 w), ucast w]"

definition from_be_bytes :: "u8 \<Rightarrow> u8 \<Rightarrow> u8 \<Rightarrow> u8 \<Rightarrow> u32" where
  "from_be_bytes a b c d =
     push_bit 24 (ucast a) OR push_bit 16 (ucast b) OR push_bit 8 (ucast c) OR ucast d"

lemma length_to_be_bytes [simp, bytes_simps]: "length (to_be_bytes w) = 4"
  by (simp add: to_be_bytes_def)

lemma bit_u8_high: "8 \<le> n \<Longrightarrow> \<not> bit (b :: u8) n"
  by (auto dest: bit_imp_le_length)

lemma from_to_be_bytes [simp]:
  "from_be_bytes (ucast (drop_bit 24 w)) (ucast (drop_bit 16 w)) (ucast (drop_bit 8 w)) (ucast w) = w"
proof (rule bit_word_eqI)
  fix n assume "n < LENGTH(32)"
  then consider "n < 8" | "8 \<le> n" "n - 8 < 8" "n < 16" | "16 \<le> n" "n - 16 < 8" "n < 24"
    | "24 \<le> n" "n - 24 < 8" "n < 32"
    by fastforce
  then show "bit (from_be_bytes (ucast (drop_bit 24 w)) (ucast (drop_bit 16 w))
      (ucast (drop_bit 8 w)) (ucast w)) n = bit w n"
    by cases (auto simp: from_be_bytes_def bit_simps)
qed

lemma to_from_be_bytes [simp]: "to_be_bytes (from_be_bytes a b c d) = [a, b, c, d]"
  unfolding from_be_bytes_def to_be_bytes_def
  by (auto intro!: bit_word_eqI simp: bit_simps bit_u8_high)

text \<open>\<open>len as u32\<close> keeps the low 32 bits.\<close>

definition len_as_u32 :: "'a list \<Rightarrow> u32" where
  "len_as_u32 xs = word_of_nat (length xs)"

lemma unat_len_as_u32: "unat (len_as_u32 xs) = length xs mod 2 ^ 32"
  by (simp add: len_as_u32_def unat_of_nat)

section \<open>Checked arithmetic\<close>

text \<open>
  \<open>+\<close> on an unsigned integer panics on overflow under the \<open>dev\<close> profile and wraps
  under the \<open>release\<close> profile; \<open>Cargo.toml\<close> overrides neither default.
\<close>

datatype profile = Dev | Release

definition add_overflows :: "'a::len word \<Rightarrow> 'a word \<Rightarrow> bool" where
  "add_overflows a b \<longleftrightarrow> 2 ^ LENGTH('a) \<le> unat a + unat b"

definition add_uint :: "profile \<Rightarrow> 'a::len word \<Rightarrow> 'a word \<Rightarrow> 'a word exec" where
  "add_uint pr a b = (if pr = Dev \<and> add_overflows a b then None else Some (a + b))"

lemma add_uint_exact:
  "\<not> add_overflows a b \<Longrightarrow> add_uint pr a b = Some (a + b) \<and> unat (a + b) = unat a + unat b"
  by (simp add: add_uint_def add_overflows_def unat_add_lem not_le)

definition mul_uint :: "profile \<Rightarrow> 'a::len word \<Rightarrow> 'a word \<Rightarrow> 'a word exec" where
  "mul_uint pr a b = (if pr = Dev \<and> 2 ^ LENGTH('a) \<le> unat a * unat b then None else Some (a * b))"

lemma mul_uint_exact:
  "unat a * unat b < 2 ^ LENGTH('a) \<Longrightarrow>
   mul_uint pr a (b :: 'a::len word) = Some (a * b) \<and> unat (a * b) = unat a * unat b"
  using unat_mult_lem [of a b] by (auto simp: mul_uint_def)

section \<open>HashMap\<close>

text \<open>
  \<open>std::collections::HashMap\<close> as an association list with distinct keys; the order of
  the list stands for the map's unspecified iteration order.
\<close>

type_synonym ('k, 'v) hashmap = "('k \<times> 'v) list"

definition hm_new :: "('k, 'v) hashmap" where
  "hm_new = []"

definition hm_get :: "('k, 'v) hashmap \<Rightarrow> 'k \<Rightarrow> 'v option" where
  "hm_get m k = map_of m k"

definition hm_insert :: "'k \<Rightarrow> 'v \<Rightarrow> ('k, 'v) hashmap \<Rightarrow> ('k, 'v) hashmap" where
  "hm_insert k v m = AList.update k v m"

definition hm_remove :: "'k \<Rightarrow> ('k, 'v) hashmap \<Rightarrow> ('k, 'v) hashmap" where
  "hm_remove k m = AList.delete k m"

definition hm_keys :: "('k, 'v) hashmap \<Rightarrow> 'k list" where
  "hm_keys m = map fst m"

definition hm_len :: "('k, 'v) hashmap \<Rightarrow> nat" where
  "hm_len m = length m"

definition hm_wf :: "('k, 'v) hashmap \<Rightarrow> bool" where
  "hm_wf m \<longleftrightarrow> distinct (map fst m)"

text \<open>What the clients of a map rely on.\<close>

locale hash_map =
  fixes new :: 'm
    and get :: "'m \<Rightarrow> 'k \<Rightarrow> 'v option"
    and ins :: "'k \<Rightarrow> 'v \<Rightarrow> 'm \<Rightarrow> 'm"
    and remove :: "'k \<Rightarrow> 'm \<Rightarrow> 'm"
    and keys :: "'m \<Rightarrow> 'k list"
    and len :: "'m \<Rightarrow> nat"
    and wf :: "'m \<Rightarrow> bool"
  assumes get_new: "get new k = None"
    and get_insert: "get (ins k v m) j = (if j = k then Some v else get m j)"
    and get_remove: "get (remove k m) j = (if j = k then None else get m j)"
    and set_keys: "k \<in> set (keys m) \<longleftrightarrow> get m k \<noteq> None"
    and len_keys: "len m = length (keys m)"
    and distinct_keys: "wf m \<Longrightarrow> distinct (keys m)"
    and wf_new: "wf new"
    and wf_insert: "wf m \<Longrightarrow> wf (ins k v m)"
    and wf_remove: "wf m \<Longrightarrow> wf (remove k m)"
begin

lemma get_insert_same: "get (ins k v m) k = Some v"
  by (simp add: get_insert)

lemma get_remove_same: "get (remove k m) k = None"
  by (simp add: get_remove)

lemma dom_insert: "dom (get (ins k v m)) = insert k (dom (get m))"
  by (auto simp: get_insert dom_def split: if_splits)

lemma dom_remove: "dom (get (remove k m)) = dom (get m) - {k}"
  by (auto simp: get_remove dom_def split: if_splits)

lemma set_keys_dom: "set (keys m) = dom (get m)"
  using set_keys by (auto simp: dom_def)

lemma len_card: "wf m \<Longrightarrow> len m = card (dom (get m))"
  using distinct_card [OF distinct_keys] by (simp add: len_keys set_keys_dom)

lemma finite_dom: "finite (dom (get m))"
  unfolding set_keys_dom [symmetric] by simp

lemma len_insert:
  "wf m \<Longrightarrow> len (ins k v m) = (if get m k = None then Suc (len m) else len m)"
  by (auto simp: len_card wf_insert dom_insert finite_dom card_insert_if domIff)

lemma len_remove:
  "wf m \<Longrightarrow> len (remove k m) = (if get m k = None then len m else len m - 1)"
  by (auto simp: len_card wf_remove dom_remove finite_dom card_Diff_singleton_if domIff)

end

lemmas hm_defs = hm_new_def hm_get_def hm_insert_def hm_remove_def hm_keys_def hm_len_def hm_wf_def

interpretation hm: hash_map hm_new hm_get hm_insert hm_remove hm_keys hm_len hm_wf
proof unfold_locales
  fix k j :: 'a and v :: 'b and m :: "('a, 'b) hashmap"
  show "hm_get hm_new k = (None :: 'b option)" by (simp add: hm_defs)
  show "hm_get (hm_insert k v m) j = (if j = k then Some v else hm_get m j)"
    by (simp add: hm_defs update_conv)
  show "hm_get (hm_remove k m) j = (if j = k then None else hm_get m j)"
    by (simp add: hm_defs delete_conv)
  show "k \<in> set (hm_keys m) \<longleftrightarrow> hm_get m k \<noteq> None"
    by (simp add: hm_defs map_of_eq_None_iff)
  show "hm_len m = length (hm_keys m)" by (simp add: hm_defs)
  show "hm_wf m \<Longrightarrow> distinct (hm_keys m)" by (simp add: hm_defs)
  show "hm_wf (hm_new :: ('a, 'b) hashmap)" by (simp add: hm_defs)
  show "hm_wf m \<Longrightarrow> hm_wf (hm_insert k v m)" by (simp add: hm_defs distinct_update)
  show "hm_wf m \<Longrightarrow> hm_wf (hm_remove k m)" by (simp add: hm_defs distinct_delete)
qed

lemmas hm_get_simps [simp] = hm.get_new hm.get_insert hm.get_remove
lemmas hm_wf_ops [simp, intro] = hm.wf_new hm.wf_insert hm.wf_remove


lemma hm_get_set: "hm_wf m \<Longrightarrow> hm_get m k = Some v \<longleftrightarrow> (k, v) \<in> set m"
  by (simp add: hm_defs)

lemma hm_count:
  assumes "hm_wf m"
  shows "length (filter (\<lambda>(_, v). Q v) m) = card {k. \<exists>v. hm_get m k = Some v \<and> Q v}"
proof -
  let ?f = "filter (\<lambda>(_, v). Q v) m"
  have "{k. \<exists>v. hm_get m k = Some v \<and> Q v} = set (map fst ?f)"
    using hm_get_set [OF assms] by force
  moreover have "distinct (map fst ?f)" using assms by (simp add: hm_defs distinct_map_filter)
  ultimately show ?thesis by (metis distinct_card length_map)
qed

lemma hm_singleton:
  assumes "hm_wf m" and "dom (hm_get m) \<subseteq> {k}" and "hm_get m k = Some v"
  shows "m = [(k, v)]"
proof -
  have "fst ` set m \<subseteq> {k}" and "distinct (map fst m)" and "(k, v) \<in> set m"
    using assms hm.set_keys_dom [of m] by (simp_all add: hm_get_set hm_keys_def hm_wf_def)
  then show ?thesis by (cases m rule: remdups_adj.cases) auto
qed

lemma hm_insert_fresh: "k \<notin> fst ` set m \<Longrightarrow> hm_insert k v m = m @ [(k, v)]"
  by (induction m) (auto simp: hm_insert_def)

lemma hm_get_fold_remove:
  "hm_get (fold hm_remove ks m) k = (if k \<in> set ks then None else hm_get m k)"
  by (induction ks arbitrary: m) auto

lemma hm_wf_fold_remove: "hm_wf m \<Longrightarrow> hm_wf (fold hm_remove ks m)"
  by (induction ks arbitrary: m) auto

section \<open>Stores in which the last write wins\<close>

text \<open>
  An operation \<open>put\<close> that writes the value of an entry under its key and a lookup that
  sees the newest write: what several maps of the node have in common.
\<close>

locale last_write_wins =
  fixes start :: 's
    and put :: "'e \<Rightarrow> 's \<Rightarrow> 's"
    and lookup :: "'s \<Rightarrow> 'k \<Rightarrow> 'v option"
    and key :: "'e \<Rightarrow> 'k"
    and content :: "'e \<Rightarrow> 'v"
  assumes lookup_start: "lookup start k = None"
    and lookup_put: "lookup (put e s) k = (if k = key e then Some (content e) else lookup s k)"
begin

lemma lookup_fold:
  "lookup (fold put es start) k = map_option content (List.find (\<lambda>e. key e = k) (rev es))"
proof (induction es rule: rev_induct)
  case Nil
  show ?case by (simp add: lookup_start)
next
  case (snoc e es)
  then show ?case by (auto simp: lookup_put)
qed

end

section \<open>Invariants of operations in sequence\<close>

text \<open>
  A component that is only changed by its own operations: \<open>step s t\<close> holds when one
  operation takes \<open>s\<close> to \<open>t\<close>. What every operation keeps, every sequence keeps.
\<close>

locale kept_invariant =
  fixes step :: "'s \<Rightarrow> 's \<Rightarrow> bool"
    and inv :: "'s \<Rightarrow> bool"
  assumes step_inv: "step s t \<Longrightarrow> inv s \<Longrightarrow> inv t"
begin

lemma steps_inv: "step\<^sup>*\<^sup>* s t \<Longrightarrow> inv s \<Longrightarrow> inv t"
  by (induction rule: rtranclp_induct) (auto intro: step_inv)

end

end
