(* ===== verification/Storage.thy ===== *)
theory Storage
  imports Rust_Prelude
begin

text \<open>
  \<open>node/storage/src/lib.rs\<close>: the in-memory indexes of the block store. Each
  \<open>RwLock\<close> is taken and released by one statement, so \<open>store_block\<close> is three atomic
  writes; the last section interleaves them. Directory creation is a parameter.
\<close>

section \<open>State\<close>

record StorageConfig =
  sc_data_dir :: string
  sc_db_path :: string
  sc_max_block_size :: u64
  sc_prune_threshold :: "u64 option"
  sc_cache_size_mb :: usize

definition StorageConfig_default :: StorageConfig where
  "StorageConfig_default =
     \<lparr>sc_data_dir = ''data'', sc_db_path = ''data/blockchain.db'',
      sc_max_block_size = 2 * 1024 * 1024, sc_prune_threshold = Some 100000,
      sc_cache_size_mb = 256\<rparr>"

record StoredBlock =
  sb_height :: u64
  sb_hash :: bytes32
  sb_data :: "u8 list"
  sb_timestamp :: i64

record StorageManager =
  sm_config :: StorageConfig
  sm_head :: "StoredBlock option"
  sm_height_index :: "(u64, bytes32) hashmap"
  sm_block_cache :: "(bytes32, StoredBlock) hashmap"

definition StorageManager_new :: "StorageConfig \<Rightarrow> StorageManager" where
  "StorageManager_new config =
     \<lparr>sm_config = config, sm_head = None, sm_height_index = hm_new, sm_block_cache = hm_new\<rparr>"

section \<open>Operations\<close>

definition storage_init :: "(string \<Rightarrow> ('e, unit) result) \<Rightarrow> StorageManager \<Rightarrow> ('e, unit) result" where
  "storage_init create_dir_all s = create_dir_all (sc_data_dir (sm_config s))"

text \<open>The three critical sections of \<open>store_block\<close>.\<close>

definition write_index :: "StoredBlock \<Rightarrow> StorageManager \<Rightarrow> StorageManager" where
  "write_index b s = s\<lparr>sm_height_index := hm_insert (sb_height b) (sb_hash b) (sm_height_index s)\<rparr>"

definition write_cache :: "StoredBlock \<Rightarrow> StorageManager \<Rightarrow> StorageManager" where
  "write_cache b s = s\<lparr>sm_block_cache := hm_insert (sb_hash b) b (sm_block_cache s)\<rparr>"

definition write_head :: "StoredBlock \<Rightarrow> StorageManager \<Rightarrow> StorageManager" where
  "write_head b s =
     (case sm_head s of
        Some current \<Rightarrow> if sb_height b > sb_height current then s\<lparr>sm_head := Some b\<rparr> else s
      | None \<Rightarrow> s\<lparr>sm_head := Some b\<rparr>)"

definition store_block :: "StoredBlock \<Rightarrow> StorageManager \<Rightarrow> StorageManager" where
  "store_block b s = write_head b (write_cache b (write_index b s))"

definition get_by_hash :: "StorageManager \<Rightarrow> bytes32 \<Rightarrow> StoredBlock option" where
  "get_by_hash s h = hm_get (sm_block_cache s) h"

definition get_by_height :: "StorageManager \<Rightarrow> u64 \<Rightarrow> StoredBlock option" where
  "get_by_height s n = do { h \<leftarrow> hm_get (sm_height_index s) n; get_by_hash s h }"

definition head :: "StorageManager \<Rightarrow> StoredBlock option" where
  "head s = sm_head s"

definition height :: "StorageManager \<Rightarrow> u64" where
  "height s = (case map_option sb_height (sm_head s) of Some n \<Rightarrow> n | None \<Rightarrow> 0)"

text \<open>\<open>prune\<close> only logs: it removes nothing and reports zero blocks.\<close>

definition prune :: "u64 \<Rightarrow> StorageManager \<Rightarrow> ('e, u64) result \<times> StorageManager" where
  "prune keep_height s = (let pruned = 0 in (Ok pruned, s))"

definition storage_shutdown :: "StorageManager \<Rightarrow> StorageManager" where
  "storage_shutdown s = s"

lemmas storage_defs = write_index_def write_cache_def write_head_def store_block_def
  get_by_hash_def get_by_height_def head_def height_def

section \<open>Both indexes keep the last write\<close>

definition stored :: "StorageConfig \<Rightarrow> StoredBlock list \<Rightarrow> StorageManager" where
  "stored config bs = fold store_block bs (StorageManager_new config)"

interpretation cache: last_write_wins "StorageManager_new config" store_block get_by_hash
  sb_hash "\<lambda>b. b" for config
  by unfold_locales (auto simp: storage_defs StorageManager_new_def split: option.splits)

interpretation index: last_write_wins "StorageManager_new config" store_block
  "\<lambda>s. hm_get (sm_height_index s)" sb_height sb_hash for config
  by unfold_locales (auto simp: storage_defs StorageManager_new_def split: option.splits)

lemma get_by_hash_stored:
  "get_by_hash (stored config bs) h = List.find (\<lambda>b. sb_hash b = h) (rev bs)"
  unfolding stored_def cache.lookup_fold by (simp add: option.map_ident)

lemma get_by_height_stored:
  "get_by_height (stored config bs) n =
     do { b \<leftarrow> List.find (\<lambda>b. sb_height b = n) (rev bs);
          List.find (\<lambda>c. sb_hash c = sb_hash b) (rev bs) }"
  unfolding get_by_height_def get_by_hash_stored unfolding stored_def index.lookup_fold
  by (cases "List.find (\<lambda>b. sb_height b = n) (rev bs)") simp_all

section \<open>The head is the first block of the greatest height\<close>

lemma sm_head_stored_snoc:
  "sm_head (stored config (bs @ [b])) =
     (case sm_head (stored config bs) of
        None \<Rightarrow> Some b
      | Some c \<Rightarrow> if sb_height c < sb_height b then Some b else Some c)"
  by (auto simp: stored_def storage_defs split: option.splits)

lemma sm_head_stored:
  "case sm_head (stored config bs) of
     None \<Rightarrow> bs = []
   | Some b \<Rightarrow> (\<exists>xs ys. bs = xs @ b # ys \<and> (\<forall>x\<in>set xs. sb_height x < sb_height b) \<and>
                (\<forall>y\<in>set ys. sb_height y \<le> sb_height b))"
proof (induction bs rule: rev_induct)
  case Nil
  show ?case by (simp add: stored_def StorageManager_new_def)
next
  case (snoc b bs)
  show ?case
  proof (cases "sm_head (stored config bs)")
    case None
    with snoc have "bs = []" by simp
    moreover have "sm_head (stored config (bs @ [b])) = Some b"
      by (simp only: sm_head_stored_snoc None option.case)
    ultimately show ?thesis by (auto intro!: exI [of _ "[]"])
  next
    case (Some c)
    with snoc obtain xs ys where split: "bs = xs @ c # ys"
      "\<forall>x\<in>set xs. sb_height x < sb_height c" "\<forall>y\<in>set ys. sb_height y \<le> sb_height c" by auto
    show ?thesis
    proof (cases "sb_height c < sb_height b")
      case True
      with split have "\<forall>x\<in>set bs. sb_height x < sb_height b" by auto
      with True Some show ?thesis 
        by (simp add: sm_head_stored_snoc) (intro exI [of _ bs] exI [of _ "[]"], simp)
    next
      case False
      then have head: "sm_head (stored config (bs @ [b])) = Some c"
        by (simp only: sm_head_stored_snoc Some option.case if_False)
      from False split have "bs @ [b] = xs @ c # (ys @ [b])"
        "\<forall>y\<in>set (ys @ [b]). sb_height y \<le> sb_height c" by auto
      with split(2) show ?thesis unfolding head option.case by blast
    qed
  qed
qed


section \<open>Concurrent calls\<close>

text \<open>
  Any number of tasks call \<open>store_block\<close>; each is at one of its three writes. The ghost
  field \<open>sy_done\<close> lists the blocks whose call has finished.
\<close>

datatype pc = Idle | AtIndex StoredBlock | AtCache StoredBlock | AtHead StoredBlock

record storage_sys =
  sy_store :: StorageManager
  sy_pc :: "nat \<Rightarrow> pc"
  sy_done :: "StoredBlock list"

inductive store_step :: "storage_sys \<Rightarrow> storage_sys \<Rightarrow> bool" where
  call: "sy_pc y t = Idle \<Longrightarrow> store_step y (y\<lparr>sy_pc := (sy_pc y)(t := AtIndex b)\<rparr>)"
| index: "sy_pc y t = AtIndex b \<Longrightarrow>
    store_step y (y\<lparr>sy_store := write_index b (sy_store y), sy_pc := (sy_pc y)(t := AtCache b)\<rparr>)"
| cache: "sy_pc y t = AtCache b \<Longrightarrow>
    store_step y (y\<lparr>sy_store := write_cache b (sy_store y), sy_pc := (sy_pc y)(t := AtHead b)\<rparr>)"
| head: "sy_pc y t = AtHead b \<Longrightarrow>
    store_step y (y\<lparr>sy_store := write_head b (sy_store y), sy_pc := (sy_pc y)(t := Idle),
                    sy_done := sy_done y @ [b]\<rparr>)"

definition storage_sys_init :: "StorageConfig \<Rightarrow> storage_sys" where
  "storage_sys_init config =
     \<lparr>sy_store = StorageManager_new config, sy_pc = (\<lambda>_. Idle), sy_done = []\<rparr>"

inductive storage_reach :: "StorageConfig \<Rightarrow> storage_sys \<Rightarrow> bool" for config where
  start: "storage_reach config (storage_sys_init config)"
| step: "storage_reach config y \<Longrightarrow> store_step y z \<Longrightarrow> storage_reach config z"

text \<open>
  What each write has established: the index entry, then the cache entry, then a head at
  least as high.
\<close>

definition indexed :: "StorageManager \<Rightarrow> StoredBlock \<Rightarrow> bool" where
  "indexed s b \<longleftrightarrow> hm_get (sm_height_index s) (sb_height b) \<noteq> None"

definition cached :: "StorageManager \<Rightarrow> bytes32 \<Rightarrow> bool" where
  "cached s h \<longleftrightarrow> hm_get (sm_block_cache s) h \<noteq> None"

definition awaited :: "(nat \<Rightarrow> pc) \<Rightarrow> bytes32 \<Rightarrow> bool" where
  "awaited pcs h \<longleftrightarrow> (\<exists>t b. pcs t = AtCache b \<and> sb_hash b = h)"

definition index_inv :: "storage_sys \<Rightarrow> bool" where
  "index_inv y \<longleftrightarrow> (\<forall>n h. hm_get (sm_height_index (sy_store y)) n = Some h \<longrightarrow>
     cached (sy_store y) h \<or> awaited (sy_pc y) h)"

definition progress_inv :: "storage_sys \<Rightarrow> bool" where
  "progress_inv y \<longleftrightarrow>
     (\<forall>t b. sy_pc y t = AtCache b \<longrightarrow> indexed (sy_store y) b) \<and>
     (\<forall>t b. sy_pc y t = AtHead b \<longrightarrow> indexed (sy_store y) b \<and> cached (sy_store y) (sb_hash b)) \<and>
     (\<forall>b\<in>set (sy_done y). indexed (sy_store y) b \<and> cached (sy_store y) (sb_hash b))"

definition head_inv :: "storage_sys \<Rightarrow> bool" where
  "head_inv y \<longleftrightarrow> (case sm_head (sy_store y) of
       None \<Rightarrow> sy_done y = []
     | Some b \<Rightarrow> b \<in> set (sy_done y) \<and> (\<forall>c\<in>set (sy_done y). sb_height c \<le> sb_height b))"

lemma indexed_write [simp]:
  "indexed (write_index b s) c \<longleftrightarrow> sb_height c = sb_height b \<or> indexed s c"
  "indexed (write_cache b s) c = indexed s c"
  "indexed (write_head b s) c = indexed s c"
  by (auto simp: indexed_def storage_defs split: option.splits)

lemma cached_write [simp]:
  "cached (write_index b s) h = cached s h"
  "cached (write_cache b s) h \<longleftrightarrow> h = sb_hash b \<or> cached s h"
  "cached (write_head b s) h = cached s h"
  by (auto simp: cached_def storage_defs split: option.splits)

lemma index_write [simp]:
  "hm_get (sm_height_index (write_index b s)) n =
     (if n = sb_height b then Some (sb_hash b) else hm_get (sm_height_index s) n)"
  "sm_height_index (write_cache b s) = sm_height_index s"
  "sm_height_index (write_head b s) = sm_height_index s"
  by (auto simp: storage_defs split: option.splits)

lemma head_write [simp]:
  "sm_head (write_index b s) = sm_head s"
  "sm_head (write_cache b s) = sm_head s"
  "sm_head (write_head b s) = (case sm_head s of
     None \<Rightarrow> Some b | Some c \<Rightarrow> if sb_height c < sb_height b then Some b else Some c)"
  by (auto simp: storage_defs split: option.splits)

lemma awaited_enter: "awaited (pcs(t := AtCache b)) (sb_hash b)"
  by (auto simp: awaited_def)

lemma awaited_other:
  assumes "awaited pcs h" and "\<forall>b. pcs t = AtCache b \<longrightarrow> sb_hash b \<noteq> h"
  shows "awaited (pcs(t := p)) h"
proof -
  from assms(1) obtain u c where u: "pcs u = AtCache c" "sb_hash c = h" by (auto simp: awaited_def)
  with assms(2) have "(pcs(t := p)) u = AtCache c" by auto
  with u(2) show ?thesis unfolding awaited_def by blast
qed

lemma awaited_stay:
  "awaited pcs h \<Longrightarrow> pcs t = Idle \<Longrightarrow> awaited (pcs(t := p)) h"
  "awaited pcs h \<Longrightarrow> pcs t = AtIndex b \<Longrightarrow> awaited (pcs(t := p)) h"
  "awaited pcs h \<Longrightarrow> pcs t = AtHead b \<Longrightarrow> awaited (pcs(t := p)) h"
  "awaited pcs h \<Longrightarrow> pcs t = AtCache b \<Longrightarrow> h \<noteq> sb_hash b \<Longrightarrow> awaited (pcs(t := p)) h"
  by (rule awaited_other; simp)+

lemma store_step_index_inv: "store_step y z \<Longrightarrow> index_inv y \<Longrightarrow> index_inv z"
  by (induction rule: store_step.induct)
    (fastforce simp: index_inv_def intro: awaited_enter awaited_stay split: if_splits)+

lemma store_step_progress_inv: "store_step y z \<Longrightarrow> progress_inv y \<Longrightarrow> progress_inv z"
  by (induction rule: store_step.induct) (auto simp: progress_inv_def)

lemma store_step_head_inv: "store_step y z \<Longrightarrow> head_inv y \<Longrightarrow> head_inv z"
  by (induction rule: store_step.induct) (auto simp: head_inv_def split: option.splits)

lemma storage_reach_inv:
  "storage_reach config y \<Longrightarrow> index_inv y \<and> progress_inv y \<and> head_inv y"
proof (induction rule: storage_reach.induct)
  case start
  show ?case
    by (simp add: storage_sys_init_def StorageManager_new_def index_inv_def progress_inv_def head_inv_def)
next
  case (step y z)
  then show ?case
    using store_step_index_inv store_step_progress_inv store_step_head_inv by blast
qed


text \<open>A task that runs alone from idle to idle performs one \<open>store_block\<close>.\<close>

lemma storage_reach_store:
  assumes "storage_reach config y" and "sy_pc y t = Idle"
  shows "storage_reach config
    (y\<lparr>sy_store := store_block b (sy_store y), sy_done := sy_done y @ [b]\<rparr>)"
proof -
  let ?y1 = "y\<lparr>sy_pc := (sy_pc y)(t := AtIndex b)\<rparr>"
  let ?y2 = "?y1\<lparr>sy_store := write_index b (sy_store ?y1), sy_pc := (sy_pc ?y1)(t := AtCache b)\<rparr>"
  let ?y3 = "?y2\<lparr>sy_store := write_cache b (sy_store ?y2), sy_pc := (sy_pc ?y2)(t := AtHead b)\<rparr>"
  let ?y4 = "?y3\<lparr>sy_store := write_head b (sy_store ?y3), sy_pc := (sy_pc ?y3)(t := Idle),
    sy_done := sy_done ?y3 @ [b]\<rparr>"
  have "store_step y ?y1" using assms(2) by (rule store_step.call)
  moreover have "store_step ?y1 ?y2" by (rule store_step.index) simp
  moreover have "store_step ?y2 ?y3" by (rule store_step.cache) simp
  moreover have "store_step ?y3 ?y4" by (rule store_step.head) simp
  ultimately have "storage_reach config ?y4" using assms(1) by (meson storage_reach.step)
  moreover have "(sy_pc y)(t := Idle) = sy_pc y" using assms(2) by auto
  then have "?y4 = y\<lparr>sy_store := store_block b (sy_store y), sy_done := sy_done y @ [b]\<rparr>"
    by (simp add: store_block_def)
  ultimately show ?thesis by simp
qed

lemma storage_reach_stored:
  "storage_reach config \<lparr>sy_store = stored config bs, sy_pc = (\<lambda>_. Idle), sy_done = bs\<rparr>"
proof (induction bs rule: rev_induct)
  case Nil
  show ?case using storage_reach.start [of config] by (simp add: stored_def storage_sys_init_def)
next
  case (snoc b bs)
  from storage_reach_store [OF snoc, of 0 b] show ?case by (simp add: stored_def)
qed

section \<open>Properties\<close>

definition block :: "u64 \<Rightarrow> u8 \<Rightarrow> StoredBlock" where
  "block n h = \<lparr>sb_height = n, sb_hash = replicate 32 h, sb_data = [h], sb_timestamp = 0\<rparr>"

text \<open>
  C36: The two indexes refine the history of stored blocks: a hash finds the last block
  stored under it, a height finds, through the hash it was last stored with, the last block
  stored under that hash.
\<close>

theorem storage_history:
  "get_by_hash (stored config bs) h = List.find (\<lambda>b. sb_hash b = h) (rev bs) \<and>
   get_by_height (stored config bs) n =
     do { b \<leftarrow> List.find (\<lambda>b. sb_height b = n) (rev bs);
          List.find (\<lambda>c. sb_hash c = sb_hash b) (rev bs) }"
  by (simp only: get_by_hash_stored get_by_height_stored)

text \<open>
  C34: The chain head is the first stored block of the greatest height, and
  \<open>height\<close> is its height, zero in an empty store.
\<close>

theorem storage_head_history:
  "case head (stored config bs) of
     None \<Rightarrow> bs = [] \<and> height (stored config bs) = 0
   | Some b \<Rightarrow> height (stored config bs) = sb_height b \<and>
       (\<exists>xs ys. bs = xs @ b # ys \<and> list_all (\<lambda>x. sb_height x < sb_height b) xs \<and>
                list_all (\<lambda>y. sb_height y \<le> sb_height b) ys)"
  using sm_head_stored [where config = config and bs = bs]
  by (auto simp: head_def height_def list_all_iff split: option.splits)

text \<open>
  A stored block is found under its height and under its hash in any store, and
  lookups of every other hash are unaffected.
\<close>

lemma store_then_get:
  "get_by_height (store_block b s) (sb_height b) = Some b \<and>
   get_by_hash (store_block b s) h = (if h = sb_hash b then Some b else get_by_hash s h)"
  by (simp add: get_by_height_def store_block_def) (simp add: storage_defs split: option.splits)

text \<open>
  C4: Concurrent calls of \<open>store_block\<close>, interleaved at their lock releases in any
  order: when no call is in flight, every finished block's height and hash resolve, and the
  head is a finished block of the greatest height.
\<close>

theorem storage_quiescent:
  assumes "storage_reach config y" and "\<forall>t. sy_pc y t = Idle" and "b \<in> set (sy_done y)"
  shows "get_by_height (sy_store y) (sb_height b) \<noteq> None \<and>
    get_by_hash (sy_store y) (sb_hash b) \<noteq> None \<and>
    (\<exists>c. head (sy_store y) = Some c \<and> c \<in> set (sy_done y) \<and> sb_height b \<le> sb_height c)"
proof -
  from storage_reach_inv [OF assms(1)] have inv: "index_inv y" "progress_inv y" "head_inv y" by auto
  from inv(2) assms(3) have b: "indexed (sy_store y) b" "cached (sy_store y) (sb_hash b)"
    by (auto simp: progress_inv_def)
  from b(1) obtain h where h: "hm_get (sm_height_index (sy_store y)) (sb_height b) = Some h"
    by (auto simp: indexed_def)
  have "\<not> awaited (sy_pc y) h" using assms(2) by (simp add: awaited_def)
  with inv(1) h have "cached (sy_store y) h" by (auto simp: index_inv_def)
  with h b(2) inv(3) assms(3) show ?thesis
    by (auto simp: get_by_height_def get_by_hash_def cached_def head_def head_inv_def
        split: option.splits)
qed

theorem storage_quiescent_witness:
  "let s = stored StorageConfig_default [block 1 10, block 2 20] in
   get_by_height s 1 \<noteq> None \<and> get_by_hash s (replicate 32 10) \<noteq> None \<and>
   (\<exists>c. head s = Some c \<and> c \<in> set [block 1 10, block 2 20] \<and> 1 \<le> sb_height c)"
proof -
  let ?bs = "[block 1 10, block 2 20]"
  let ?y = "\<lparr>sy_store = stored StorageConfig_default ?bs, sy_pc = (\<lambda>_. Idle), sy_done = ?bs\<rparr>"
  have "storage_reach StorageConfig_default ?y" by (rule storage_reach_stored)
  from storage_quiescent [OF this, of "block 1 10"]
  have "get_by_height (sy_store ?y) (sb_height (block 1 10)) \<noteq> None \<and>
    get_by_hash (sy_store ?y) (sb_hash (block 1 10)) \<noteq> None \<and>
    (\<exists>c. head (sy_store ?y) = Some c \<and> c \<in> set (sy_done ?y) \<and>
      sb_height (block 1 10) \<le> sb_height c)"
    by simp
  moreover have "sb_height (block 1 10) = 1" "sb_hash (block 1 10) = replicate 32 10"
    by (simp_all add: block_def)
  ultimately show ?thesis by (simp only: Let_def storage_sys.simps simp_thms)
qed

text \<open>
  While a call is between its first and its second write, a reader finds the new
  height in the index and no block behind it.
\<close>

lemma reader_may_miss_block:
  fixes b :: StoredBlock
  shows "\<exists>y. storage_reach config y \<and> hm_get (sm_height_index (sy_store y)) (sb_height b) = Some (sb_hash b) \<and>
     get_by_height (sy_store y) (sb_height b) = None"
proof -
  let ?y0 = "storage_sys_init config"
  let ?y1 = "?y0\<lparr>sy_pc := (sy_pc ?y0)(0 := AtIndex b)\<rparr>"
  let ?y2 = "?y1\<lparr>sy_store := write_index b (sy_store ?y1), sy_pc := (sy_pc ?y1)(0 := AtCache b)\<rparr>"
  have "store_step ?y0 ?y1" by (rule store_step.call) (simp add: storage_sys_init_def)
  moreover have "store_step ?y1 ?y2" by (rule store_step.index) simp
  ultimately have "storage_reach config ?y2" by (meson storage_reach.start storage_reach.step)
  then show ?thesis
    by (intro exI [of _ ?y2])
      (simp add: get_by_height_def get_by_hash_def storage_sys_init_def StorageManager_new_def
        write_index_def)
qed

text \<open>
  Storing a second block of the head's height moves the height index but not the head:
  afterwards the head and the block found at the head's height are different blocks.
\<close>

lemma head_and_index_disagree:
  assumes "head s = Some b" and "sb_height c = sb_height b" and "c \<noteq> b"
  shows "head (store_block c s) = Some b \<and>
    get_by_height (store_block c s) (height (store_block c s)) = Some c \<and>
    head (store_block c s) \<noteq> get_by_height (store_block c s) (height (store_block c s))"
  using assms by (simp add: storage_defs)

lemma head_and_index_disagree_witness:
  "let s = store_block (block 1 10) (StorageManager_new StorageConfig_default) in
   head (store_block (block 1 20) s) = Some (block 1 10) \<and>
   get_by_height (store_block (block 1 20) s) (height (store_block (block 1 20) s)) =
     Some (block 1 20) \<and>
   head (store_block (block 1 20) s) \<noteq>
     get_by_height (store_block (block 1 20) s) (height (store_block (block 1 20) s))"
proof -
  let ?s = "store_block (block 1 10) (StorageManager_new StorageConfig_default)"
  have "head ?s = Some (block 1 10)" by (simp add: storage_defs StorageManager_new_def)
  moreover have "block 1 20 \<noteq> block 1 10" "sb_height (block 1 20) = sb_height (block 1 10)"
    by (simp_all add: block_def)
  ultimately show ?thesis
    unfolding Let_def using head_and_index_disagree [of ?s "block 1 10" "block 1 20"] by blast
qed

text \<open>\<open>prune\<close> keeps every block and reports that it pruned none.\<close>

lemma prune_removes_nothing: "prune keep_height s = (Ok 0, s)"
  by (simp add: prune_def)

end
