(* ===== verification/Net_Addr.thy ===== *)
theory Net_Addr
  imports Rust_Prelude
begin

text \<open>
  What the node uses of \<open>std::fmt\<close> and \<open>std::net\<close>: decimal integers and the text
  form of socket addresses. IPv4 addresses are printed and parsed as the standard library
  does (at most three digits and no leading zero in an octet, any number of digits in the
  port, the whole input consumed); the text form of IPv6 addresses is the argument
  \<open>v6_text\<close> of the definitions.
\<close>

section \<open>Decimal integers\<close>

definition digit_char :: "nat \<Rightarrow> char" where
  "digit_char d = char_of (48 + d)"

definition to_digit :: "char \<Rightarrow> nat option" where
  "to_digit c = (let n = of_char c :: nat in if 48 \<le> n \<and> n \<le> 57 then Some (n - 48) else None)"

fun show_nat :: "nat \<Rightarrow> string" where
  "show_nat n = (if n < 10 then [digit_char n] else show_nat (n div 10) @ [digit_char (n mod 10)])"

fun read_digits :: "string \<Rightarrow> nat list \<times> string" where
  "read_digits [] = ([], [])"
| "read_digits (c # cs) =
     (case to_digit c of
        None \<Rightarrow> ([], c # cs)
      | Some d \<Rightarrow> let (ds, rest) = read_digits cs in (d # ds, rest))"

definition digits_value :: "nat list \<Rightarrow> nat" where
  "digits_value ds = foldl (\<lambda>a d. 10 * a + d) 0 ds"

declare show_nat.simps [simp del]

lemma to_digit_char [simp]: "d < 10 \<Longrightarrow> to_digit (digit_char d) = Some d"
  by (simp add: to_digit_def digit_char_def of_char_of)

text \<open>The digits that are printed.\<close>

fun nat_digits :: "nat \<Rightarrow> nat list" where
  "nat_digits n = (if n < 10 then [n] else nat_digits (n div 10) @ [n mod 10])"

declare nat_digits.simps [simp del]

lemma show_nat_digits: "show_nat n = map digit_char (nat_digits n)"
proof (induction n rule: show_nat.induct)
  case (1 n)
  then show ?case by (subst show_nat.simps, subst nat_digits.simps) simp
qed

lemma nat_digits_small: "d \<in> set (nat_digits n) \<Longrightarrow> d < 10"
proof (induction n rule: nat_digits.induct)
  case (1 n)
  then show ?case by (subst (asm) (2) nat_digits.simps) (auto split: if_splits)
qed

lemma digits_value_snoc: "digits_value (ds @ [d]) = 10 * digits_value ds + d"
  by (simp add: digits_value_def)

lemma digits_value_nat_digits [simp]: "digits_value (nat_digits n) = n"
proof (induction n rule: nat_digits.induct)
  case (1 n)
  show ?case
  proof (cases "n < 10")
    case True
    then show ?thesis by (subst nat_digits.simps) (simp add: digits_value_def)
  next
    case False
    with 1 show ?thesis by (subst nat_digits.simps) (simp add: digits_value_snoc)
  qed
qed

lemma nat_digits_nonempty [simp]: "nat_digits n \<noteq> []"
  by (subst nat_digits.simps) simp

lemma nat_digits_no_leading_zero: "length (nat_digits n) \<noteq> 1 \<Longrightarrow> hd (nat_digits n) \<noteq> 0"
proof (induction n rule: nat_digits.induct)
  case (1 n)
  have n: "\<not> n < 10" using "1.prems" by (subst (asm) nat_digits.simps) (auto split: if_splits)
  have "hd (nat_digits (n div 10)) \<noteq> 0"
  proof (cases "n div 10 < 10")
    case True
    with n show ?thesis by (subst nat_digits.simps) simp
  next
    case False
    then have "length (nat_digits (n div 10)) \<noteq> 1" by (subst nat_digits.simps) simp
    with n show ?thesis by (rule "1.IH")
  qed
  with n show ?case by (subst nat_digits.simps) simp
qed

lemma length_nat_digits: "n < 1000 \<Longrightarrow> length (nat_digits n) \<le> 3"
  by (subst nat_digits.simps, subst nat_digits.simps, subst nat_digits.simps) auto

definition starts_no_digit :: "string \<Rightarrow> bool" where
  "starts_no_digit s \<longleftrightarrow> (case s of [] \<Rightarrow> True | c # _ \<Rightarrow> to_digit c = None)"

lemma read_digits_show:
  assumes "starts_no_digit rest"
  shows "read_digits (show_nat n @ rest) = (nat_digits n, rest)"
proof -
  have "read_digits (map digit_char ds @ rest) = (ds, rest)" if "\<forall>d\<in>set ds. d < 10" for ds
    using that
  proof (induction ds)
    case Nil
    then show ?case using assms by (cases rest) (auto simp: starts_no_digit_def)
  next
    case (Cons d ds)
    then show ?case by simp
  qed
  then show ?thesis using nat_digits_small by (simp add: show_nat_digits)
qed

lemma show_nat_inject [simp]: "show_nat m = show_nat n \<longleftrightarrow> m = n"
proof
  assume "show_nat m = show_nat n"
  then have "read_digits (show_nat m @ []) = read_digits (show_nat n @ [])" by simp
  then have "nat_digits m = nat_digits n"
    by (simp only: read_digits_show starts_no_digit_def list.case prod.inject)
  then show "m = n" by (metis digits_value_nat_digits)
qed simp

section \<open>Time\<close>

text \<open>Both are numbers of nanoseconds, an \<open>Instant\<close> on the monotonic clock.\<close>

type_synonym Instant = nat
type_synonym Duration = nat

definition from_secs :: "nat \<Rightarrow> Duration" where
  "from_secs n = n * 10 ^ 9"

section \<open>Socket addresses\<close>

datatype SocketAddr = V4 u8 u8 u8 u8 u16 | V6 "u16 list" u16 u32 u32

record v6_text =
  show_v6 :: "SocketAddr \<Rightarrow> string"
  parse_v6 :: "string \<Rightarrow> SocketAddr option"

fun addr_to_string :: "v6_text \<Rightarrow> SocketAddr \<Rightarrow> string" where
  "addr_to_string v6 (V4 a b c d p) =
     show_nat (unat a) @ ''.'' @ show_nat (unat b) @ ''.'' @ show_nat (unat c) @ ''.'' @
     show_nat (unat d) @ '':'' @ show_nat (unat p)"
| "addr_to_string v6 (V6 segs p fl sc) = show_v6 v6 (V6 segs p fl sc)"

definition read_octet :: "string \<Rightarrow> (u8 \<times> string) option" where
  "read_octet s = (let (ds, rest) = read_digits s in
     if ds = [] \<or> length ds > 3 \<or> (hd ds = 0 \<and> length ds > 1) \<or> digits_value ds > 255 then None
     else Some (word_of_nat (digits_value ds), rest))"

definition read_port :: "string \<Rightarrow> (u16 \<times> string) option" where
  "read_port s = (let (ds, rest) = read_digits s in
     if ds = [] \<or> digits_value ds > 65535 then None
     else Some (word_of_nat (digits_value ds), rest))"

fun read_given_char :: "char \<Rightarrow> string \<Rightarrow> string option" where
  "read_given_char c [] = None"
| "read_given_char c (x # xs) = (if x = c then Some xs else None)"

definition parse_v4 :: "string \<Rightarrow> SocketAddr option" where
  "parse_v4 s = do {
     (a, s) \<leftarrow> read_octet s; s \<leftarrow> read_given_char (CHR ''.'') s;
     (b, s) \<leftarrow> read_octet s; s \<leftarrow> read_given_char (CHR ''.'') s;
     (c, s) \<leftarrow> read_octet s; s \<leftarrow> read_given_char (CHR ''.'') s;
     (d, s) \<leftarrow> read_octet s; s \<leftarrow> read_given_char (CHR '':'') s;
     (p, s) \<leftarrow> read_port s;
     (if s = [] then Some (V4 a b c d p) else None) }"

definition parse_addr :: "v6_text \<Rightarrow> string \<Rightarrow> SocketAddr option" where
  "parse_addr v6 s = (case parse_v4 s of Some a \<Rightarrow> Some a | None \<Rightarrow> parse_v6 v6 s)"

lemma unat_u8_le: "unat (a :: u8) \<le> 255"
  using unsigned_less [where ?'a = nat, of a] by simp

lemma unat_u16_le: "unat (a :: u16) \<le> 65535"
  using unsigned_less [where ?'a = nat, of a] by simp

lemma read_octet_show:
  assumes "starts_no_digit rest"
  shows "read_octet (show_nat (unat a) @ rest) = Some (a, rest)"
  using unat_u8_le [of a] length_nat_digits [of "unat a"] nat_digits_no_leading_zero [of "unat a"]
  by (auto simp: read_octet_def read_digits_show [OF assms] not_less)

lemma read_port_show: "read_port (show_nat (unat p)) = Some (p, [])"
  using read_digits_show [of "[]" "unat p"] unat_u16_le [of p]
  by (simp add: read_port_def starts_no_digit_def)

lemma starts_no_digit_punct [simp]:
  "starts_no_digit (CHR ''.'' # s)" "starts_no_digit (CHR '':'' # s)"
  by (simp_all add: starts_no_digit_def to_digit_def)

lemma parse_addr_V4 [simp]: "parse_addr v6 (addr_to_string v6 (V4 a b c d p)) = Some (V4 a b c d p)"
  by (simp add: parse_addr_def parse_v4_def read_octet_show read_port_show)

text \<open>The fixed addresses of the sources, written \<open>"0.0.0.0:26656".parse().unwrap()\<close>.\<close>

lemma parse_addr_literal: "parse_addr v6 ''0.0.0.0:26656'' = Some (V4 0 0 0 0 26656)"
proof -
  have "addr_to_string v6 (V4 0 0 0 0 26656) = ''0.0.0.0:26656''"
    by (simp add: show_nat.simps digit_char_def char_of_def bit_0)
  then show ?thesis by (metis parse_addr_V4)
qed

end
