(* ===== verification/Protocol.thy ===== *)
theory Protocol
  imports Net_Addr Complex_Main
begin

text \<open>
  \<open>node/p2p/src/protocol.rs\<close>: the messages of the peer-to-peer protocol and the wire
  frame. SHA-256 is the parameter \<open>sha256\<close>, which the code relies on to return 32 bytes.
  An \<open>f64\<close> score is only stored, never computed with, and is a rational.
\<close>

section \<open>Messages\<close>

definition PROTOCOL_VERSION :: u32 where
  "PROTOCOL_VERSION = 1"

definition MAGIC_BYTES :: "u8 list" where
  "MAGIC_BYTES = [67, 67, 80, 49]"

record Capabilities =
  cap_version :: u32
  cap_chain_id :: string
  cap_listen_port :: u16
  cap_agent_version :: string
  cap_is_validator :: bool
  cap_latest_height :: u64
  cap_latest_hash :: bytes32

definition Capabilities_default :: Capabilities where
  "Capabilities_default =
     \<lparr>cap_version = PROTOCOL_VERSION,
      cap_chain_id = ''crypto-coin-mainnet-1'',
      cap_listen_port = 26656,
      cap_agent_version = ''crypto-coin-node/'' @ ''0.1.0'',
      cap_is_validator = False,
      cap_latest_height = 0,
      cap_latest_hash = replicate 32 0\<rparr>"

record PeerRecord =
  pr_peer_id :: bytes32
  pr_addr :: string
  pr_public_key :: bytes32
  pr_capabilities :: Capabilities
  pr_score :: rat

datatype ProtocolMessage =
    PM_Handshake Capabilities bytes32 "u8 list"
  | PM_HandshakeAck Capabilities bytes32 "u8 list"
  | PM_Gossip string "u8 list" "u8 list"
  | PM_Direct "u8 list"
  | PM_FindPeer bytes32
  | PM_PeerList "PeerRecord list"
  | PM_Ping i64
  | PM_Pong i64
  | PM_Disconnect string

section \<open>Wire frames\<close>

record WireFrame =
  fr_magic :: "u8 list"
  fr_length :: u32
  fr_checksum :: bytes32
  fr_payload :: "u8 list"

datatype ProtocolError =
    InvalidMagic
  | InvalidLength
  | ChecksumMismatch
  | TooShort
  | UnsupportedVersion u32
  | InvalidHandshake string
  | DeserializationError string

definition compute_checksum :: "(u8 list \<Rightarrow> u8 list) \<Rightarrow> u8 list \<Rightarrow> bytes32 exec" where
  "compute_checksum sha256 data = copy_from_slice (replicate 32 0) (sha256 data)"

definition WireFrame_new :: "(u8 list \<Rightarrow> u8 list) \<Rightarrow> u8 list \<Rightarrow> WireFrame exec" where
  "WireFrame_new sha256 payload = do {
     checksum \<leftarrow> compute_checksum sha256 payload;
     Some \<lparr>fr_magic = MAGIC_BYTES, fr_length = len_as_u32 payload,
           fr_checksum = checksum, fr_payload = payload\<rparr> }"

definition validate_frame ::
  "(u8 list \<Rightarrow> u8 list) \<Rightarrow> WireFrame \<Rightarrow> (ProtocolError, unit) result exec" where
  "validate_frame sha256 f =
     (if fr_magic f \<noteq> MAGIC_BYTES then Some (Err InvalidMagic)
      else if len_as_u32 (fr_payload f) \<noteq> fr_length f then Some (Err InvalidLength)
      else do {
        expected_checksum \<leftarrow> compute_checksum sha256 (fr_payload f);
        Some (if fr_checksum f \<noteq> expected_checksum then Err ChecksumMismatch else Ok ()) })"

definition to_bytes :: "WireFrame \<Rightarrow> u8 list" where
  "to_bytes f = fr_magic f @ to_be_bytes (fr_length f) @ fr_checksum f @ fr_payload f"

definition from_bytes :: "u8 list \<Rightarrow> (ProtocolError, WireFrame) result" where
  "from_bytes bytes =
     (if length bytes < 40 then Err TooShort
      else let magic = [bytes ! 0, bytes ! 1, bytes ! 2, bytes ! 3];
               len = from_be_bytes (bytes ! 4) (bytes ! 5) (bytes ! 6) (bytes ! 7);
               checksum = take 32 (drop 8 bytes)
           in if length bytes < 40 + unat len then Err TooShort
              else Ok \<lparr>fr_magic = magic, fr_length = len, fr_checksum = checksum,
                       fr_payload = take (unat len) (drop 40 bytes)\<rparr>)"

fun ProtocolError_to_string :: "ProtocolError \<Rightarrow> string" where
  "ProtocolError_to_string InvalidMagic = ''Invalid magic bytes''"
| "ProtocolError_to_string InvalidLength = ''Invalid message length''"
| "ProtocolError_to_string ChecksumMismatch = ''Checksum mismatch''"
| "ProtocolError_to_string TooShort = ''Message too short''"
| "ProtocolError_to_string (UnsupportedVersion v) =
     ''Unsupported protocol version: '' @ show_nat (unat v)"
| "ProtocolError_to_string (InvalidHandshake msg) = ''Invalid handshake: '' @ msg"
| "ProtocolError_to_string (DeserializationError msg) = ''Deserialization error: '' @ msg"

lemma ProtocolError_to_string_inject [simp]:
  "ProtocolError_to_string e = ProtocolError_to_string f \<longleftrightarrow> e = f"
  by (cases e; cases f) (auto simp: word_unat_eq_iff)

section \<open>Array sizes\<close>

text \<open>\<open>magic: [u8; 4]\<close> and \<open>checksum: [u8; 32]\<close>.\<close>

definition wf_frame :: "WireFrame \<Rightarrow> bool" where
  "wf_frame f \<longleftrightarrow> length (fr_magic f) = 4 \<and> length (fr_checksum f) = 32"

definition returns_32_bytes :: "(u8 list \<Rightarrow> u8 list) \<Rightarrow> bool" where
  "returns_32_bytes sha256 \<longleftrightarrow> (\<forall>data. length (sha256 data) = 32)"

lemma compute_checksum_returns:
  "returns_32_bytes sha256 \<Longrightarrow> compute_checksum sha256 data = Some (sha256 data)"
  by (simp add: compute_checksum_def copy_from_slice_def returns_32_bytes_def)

lemma length_MAGIC_BYTES [simp]: "length MAGIC_BYTES = 4"
  by (simp add: MAGIC_BYTES_def)

lemma WireFrame_new_eq:
  "returns_32_bytes sha256 \<Longrightarrow> WireFrame_new sha256 payload =
     Some \<lparr>fr_magic = MAGIC_BYTES, fr_length = len_as_u32 payload,
           fr_checksum = sha256 payload, fr_payload = payload\<rparr>"
  by (simp add: WireFrame_new_def compute_checksum_returns)

section \<open>Decoding an encoding\<close>

lemma list_of_length_4: "length xs = 4 \<Longrightarrow> [xs ! 0, xs ! 1, xs ! 2, xs ! 3] = xs"
  by (auto simp: length_Suc_conv eval_nat_numeral)

text \<open>The payload that is read back is as long as the length field says.\<close>

lemma from_bytes_to_bytes:
  assumes "wf_frame f" and "unat (fr_length f) \<le> length (fr_payload f @ rest)"
  shows "from_bytes (to_bytes f @ rest) =
    Ok (f\<lparr>fr_payload := take (unat (fr_length f)) (fr_payload f @ rest)\<rparr>)"
proof -
  let ?bs = "to_bytes f @ rest"
  from assms(1) obtain m0 m1 m2 m3 where m: "fr_magic f = [m0, m1, m2, m3]"
    and cs: "length (fr_checksum f) = 32"
    by (auto simp: wf_frame_def length_Suc_conv eval_nat_numeral)
  have "?bs = m0 # m1 # m2 # m3 # to_be_bytes (fr_length f) @ fr_checksum f @ fr_payload f @ rest"
    by (simp add: to_bytes_def m)
  then show ?thesis
    using assms(2) cs
    by (simp add: from_bytes_def to_be_bytes_def Let_def m nth_Cons')
qed


lemma from_bytes_Ok_split:
  assumes "from_bytes bs = Ok f"
  shows "bs = to_bytes f @ drop (40 + unat (fr_length f)) bs"
    and "wf_frame f" and "length (fr_payload f) = unat (fr_length f)"
proof -
  let ?len = "from_be_bytes (bs ! 4) (bs ! 5) (bs ! 6) (bs ! 7)"
  from assms have len: "40 \<le> length bs" "40 + unat ?len \<le> length bs"
    and f: "f = \<lparr>fr_magic = [bs ! 0, bs ! 1, bs ! 2, bs ! 3], fr_length = ?len,
      fr_checksum = take 32 (drop 8 bs), fr_payload = take (unat ?len) (drop 40 bs)\<rparr>"
    by (simp_all add: from_bytes_def Let_def split: if_splits)
  have "take 8 bs = [bs ! 0, bs ! 1, bs ! 2, bs ! 3, bs ! 4, bs ! 5, bs ! 6, bs ! 7]"
    using len(1) by (intro nth_equalityI) (auto simp: less_Suc_eq eval_nat_numeral)
  then have head: "[bs ! 0, bs ! 1, bs ! 2, bs ! 3] @ to_be_bytes ?len = take 8 bs" by simp
  have "bs = take 8 bs @ take 32 (drop 8 bs) @ take (unat ?len) (drop 40 bs) @
      drop (40 + unat ?len) bs"
    using append_take_drop_id [of 8 bs] append_take_drop_id [of 32 "drop 8 bs"]
      append_take_drop_id [of "unat ?len" "drop 40 bs"] by (simp add: add.commute)
  then show "bs = to_bytes f @ drop (40 + unat (fr_length f)) bs"
    unfolding to_bytes_def f head [symmetric] by simp
  show "wf_frame f" "length (fr_payload f) = unat (fr_length f)"
    using len by (simp_all add: f wf_frame_def)
qed

section \<open>Properties\<close>

text \<open>
  C10: A frame whose length field is the length of its payload survives encoding and
  decoding, whatever bytes follow it in the buffer.
\<close>

theorem frame_roundtrip:
  assumes "wf_frame f" and "unat (fr_length f) = length (fr_payload f)"
  shows "from_bytes (to_bytes f @ rest) = Ok f"
  using from_bytes_to_bytes [OF assms(1), of rest] assms(2) by simp

theorem frame_roundtrip_witness:
  "from_bytes (to_bytes \<lparr>fr_magic = MAGIC_BYTES, fr_length = 3, fr_checksum = replicate 32 0,
     fr_payload = [1, 2, 3]\<rparr> @ [9, 9]) =
   Ok \<lparr>fr_magic = MAGIC_BYTES, fr_length = 3, fr_checksum = replicate 32 0, fr_payload = [1, 2, 3]\<rparr>"
  by (rule frame_roundtrip) (simp_all add: wf_frame_def)

text \<open>
  C39: Decoding inverts encoding: an accepted buffer starts with the encoding of the frame
  it decodes to, and the payload has the length the header announces; the only error of
  \<open>from_bytes\<close> is \<open>TooShort\<close>, and it means that the header or the announced payload
  is cut off.
\<close>

theorem from_bytes_sound:
  "case from_bytes bs of
     Ok f \<Rightarrow> (\<exists>rest. bs = to_bytes f @ rest) \<and> wf_frame f \<and>
             length (fr_payload f) = unat (fr_length f)
   | Err e \<Rightarrow> e = TooShort \<and> (length bs < 40 \<or>
             length bs < 40 + unat (from_be_bytes (bs ! 4) (bs ! 5) (bs ! 6) (bs ! 7)))"
proof (cases "from_bytes bs")
  case (Inr f)
  with from_bytes_Ok_split [of bs f] show ?thesis by auto
next
  case (Inl e)
  then show ?thesis by (auto simp: from_bytes_def Let_def split: if_splits)
qed

text \<open>
  A payload of less than \<open>2 ^ 32\<close> bytes can be framed, the frame validates, and the
  receiver decodes the same frame.
\<close>

lemma new_frame_delivered:
  assumes "returns_32_bytes sha256" and "length payload < 2 ^ 32"
  shows "\<exists>f. WireFrame_new sha256 payload = Some f \<and> fr_payload f = payload \<and>
    validate_frame sha256 f = Some (Ok ()) \<and> from_bytes (to_bytes f) = Ok f"
proof -
  let ?f = "\<lparr>fr_magic = MAGIC_BYTES, fr_length = len_as_u32 payload,
     fr_checksum = sha256 payload, fr_payload = payload\<rparr>"
  have "wf_frame ?f" using assms(1) by (simp add: wf_frame_def returns_32_bytes_def)
  moreover have "unat (len_as_u32 payload) = length payload"
    using assms(2) by (simp add: unat_len_as_u32)
  ultimately have "from_bytes (to_bytes ?f) = Ok ?f"
    using from_bytes_to_bytes [of ?f "[]"] by simp
  then show ?thesis
    using assms(1) by (simp add: WireFrame_new_eq validate_frame_def compute_checksum_returns)
qed

definition pad_digest :: "u8 list \<Rightarrow> u8 list" where
  "pad_digest data = copy_prefix (replicate 32 0) data"

lemma pad_digest_32: "returns_32_bytes pad_digest"
  by (simp add: returns_32_bytes_def pad_digest_def)

lemma new_frame_delivered_witness:
  "\<exists>f. WireFrame_new pad_digest [1, 2, 3] = Some f \<and> fr_payload f = [1, 2, 3] \<and>
    validate_frame pad_digest f = Some (Ok ()) \<and> from_bytes (to_bytes f) = Ok f"
  by (rule new_frame_delivered [OF pad_digest_32]) simp

text \<open>
  A payload of \<open>2 ^ 32\<close> bytes or more gets a wrapped length field: the frame still
  validates at the sender, and the receiver decodes a payload cut to the length modulo
  \<open>2 ^ 32\<close>.
\<close>

lemma new_frame_oversize_truncated:
  assumes "returns_32_bytes sha256" and "2 ^ 32 \<le> length payload"
  shows "\<exists>f g. WireFrame_new sha256 payload = Some f \<and>
    validate_frame sha256 f = Some (Ok ()) \<and> from_bytes (to_bytes f) = Ok g \<and>
    fr_payload g = take (length payload mod 2 ^ 32) payload \<and> fr_payload g \<noteq> payload"
proof -
  let ?f = "\<lparr>fr_magic = MAGIC_BYTES, fr_length = len_as_u32 payload,
     fr_checksum = sha256 payload, fr_payload = payload\<rparr>"
  let ?n = "length payload mod 2 ^ 32"
  have wf: "wf_frame ?f" using assms(1) by (simp add: wf_frame_def returns_32_bytes_def)
  have "?n < 2 ^ 32" by simp
  then have short: "?n < length payload" using assms(2) by linarith
  then have "from_bytes (to_bytes ?f) = Ok (?f\<lparr>fr_payload := take ?n payload\<rparr>)"
    using from_bytes_to_bytes [OF wf, of "[]"] by (simp add: unat_len_as_u32)
  moreover have "take ?n payload \<noteq> payload"
    using short by (metis length_take min_less_iff_conj less_irrefl min.absorb4)
  ultimately show ?thesis
    using assms(1) by (simp add: WireFrame_new_eq validate_frame_def compute_checksum_returns)
qed

lemma new_frame_oversize_truncated_witness:
  "\<exists>f g. WireFrame_new pad_digest (replicate (2 ^ 32) 0) = Some f \<and>
    validate_frame pad_digest f = Some (Ok ()) \<and> from_bytes (to_bytes f) = Ok g \<and>
    fr_payload g = take (length (replicate (2 ^ 32) (0 :: u8)) mod 2 ^ 32) (replicate (2 ^ 32) 0) \<and>
    fr_payload g \<noteq> replicate (2 ^ 32) 0"
  by (rule new_frame_oversize_truncated [OF pad_digest_32]) simp

text \<open>
  Validation of a tampered copy of a valid frame: a changed magic, length or checksum
  field gives the error of that field, and a changed payload passes only when it has the
  same length modulo \<open>2 ^ 32\<close> and the same SHA-256 digest.
\<close>

lemma validate_frame_tampered:
  assumes "returns_32_bytes sha256" and "validate_frame sha256 f = Some (Ok ())"
  shows "(m \<noteq> fr_magic f \<longrightarrow> validate_frame sha256 (f\<lparr>fr_magic := m\<rparr>) = Some (Err InvalidMagic)) \<and>
    (n \<noteq> fr_length f \<longrightarrow> validate_frame sha256 (f\<lparr>fr_length := n\<rparr>) = Some (Err InvalidLength)) \<and>
    (c \<noteq> fr_checksum f \<longrightarrow>
       validate_frame sha256 (f\<lparr>fr_checksum := c\<rparr>) = Some (Err ChecksumMismatch)) \<and>
    (validate_frame sha256 (f\<lparr>fr_payload := p\<rparr>) = Some (Ok ()) \<longleftrightarrow>
       length p mod 2 ^ 32 = length (fr_payload f) mod 2 ^ 32 \<and> sha256 p = sha256 (fr_payload f))"
proof -
  have f: "fr_magic f = MAGIC_BYTES" "fr_length f = len_as_u32 (fr_payload f)"
    "fr_checksum f = sha256 (fr_payload f)"
    using assms by (auto simp: validate_frame_def compute_checksum_returns split: if_splits)
  have "len_as_u32 p = len_as_u32 (fr_payload f) \<longleftrightarrow>
      length p mod 2 ^ 32 = length (fr_payload f) mod 2 ^ 32"
    by (simp only: word_unat_eq_iff unat_len_as_u32)
  then show ?thesis
    using assms(1) f by (auto simp: validate_frame_def compute_checksum_returns)
qed

lemma validate_frame_tampered_witness:
  "let f = \<lparr>fr_magic = MAGIC_BYTES, fr_length = 1, fr_checksum = pad_digest [7], fr_payload = [7]\<rparr> in
   validate_frame pad_digest (f\<lparr>fr_magic := []\<rparr>) = Some (Err InvalidMagic) \<and>
   validate_frame pad_digest (f\<lparr>fr_length := 2\<rparr>) = Some (Err InvalidLength) \<and>
   validate_frame pad_digest (f\<lparr>fr_checksum := []\<rparr>) = Some (Err ChecksumMismatch) \<and>
   validate_frame pad_digest (f\<lparr>fr_payload := [8]\<rparr>) \<noteq> Some (Ok ())"
proof -
  let ?f = "\<lparr>fr_magic = MAGIC_BYTES, fr_length = 1, fr_checksum = pad_digest [7], fr_payload = [7]\<rparr>"
  have "validate_frame pad_digest ?f = Some (Ok ())"
    by (simp add: validate_frame_def compute_checksum_returns pad_digest_32 len_as_u32_def)
  moreover have "pad_digest [8] \<noteq> pad_digest [7]" "pad_digest [7] \<noteq> []"
    by (simp_all add: pad_digest_def copy_prefix_def)
  ultimately show ?thesis
    using validate_frame_tampered [OF pad_digest_32, of ?f "[]" 2 "[]" "[8]"]
    by (simp add: Let_def MAGIC_BYTES_def)
qed

end
