(* ===== verification/Discovery.thy ===== *)
theory Discovery
  imports Protocol Net_Addr
begin

text \<open>
  \<open>node/p2p/src/discovery.rs\<close>: the table of known peers. An \<open>Instant\<close> is a number of
  nanoseconds on the monotonic clock and each operation that reads the clock takes the
  reading as its argument \<open>now\<close>. The random shuffle of the \<open>rand\<close> crate is a
  parameter. Sent events are logged in \<open>dm_events\<close>.
\<close>

section \<open>State\<close>

record DiscoveryConfig =
  dc_bootstrap_peers :: "SocketAddr list"
  dc_max_peers :: nat
  dc_bootstrap_interval :: Duration
  dc_pex_interval :: Duration
  dc_peer_timeout :: Duration
  dc_target_outgoing :: nat

definition DiscoveryConfig_default :: DiscoveryConfig where
  "DiscoveryConfig_default =
     \<lparr>dc_bootstrap_peers = [], dc_max_peers = 500, dc_bootstrap_interval = from_secs 300,
      dc_pex_interval = from_secs 60, dc_peer_timeout = from_secs 3600, dc_target_outgoing = 8\<rparr>"

datatype PeerStatus = Discovered | Connecting | Connected | Disconnected | Banned

record TrackedPeer =
  tp_record :: PeerRecord
  tp_status :: PeerStatus
  tp_first_seen :: Instant
  tp_last_seen :: Instant
  tp_last_attempt :: "Instant option"
  tp_connection_attempts :: u32
  tp_success_rate :: rat

datatype DiscoveryEvent =
    NewPeerDiscovered bytes32 SocketAddr
  | PeerConnected bytes32
  | PeerDisconnected bytes32
  | PeerBanned bytes32 string
  | NeedMorePeers nat

record DiscoveryManager =
  dm_config :: DiscoveryConfig
  dm_peers :: "(bytes32, TrackedPeer) hashmap"
  dm_banned :: "bytes32 set"
  dm_events :: "DiscoveryEvent list"

text \<open>
  \<open>record.addr.parse().unwrap_or_default()\<close> asks for a default \<open>SocketAddr\<close>, which the
  standard library does not define: it is part of the environment, beside the text form of
  IPv6 addresses.
\<close>

record net_env =
  ne_v6 :: v6_text
  ne_default_addr :: SocketAddr

definition DiscoveryManager_new :: "DiscoveryConfig \<Rightarrow> DiscoveryManager" where
  "DiscoveryManager_new config =
     \<lparr>dm_config = config, dm_peers = hm_new, dm_banned = {}, dm_events = []\<rparr>"

definition send_event :: "DiscoveryEvent \<Rightarrow> DiscoveryManager \<Rightarrow> DiscoveryManager" where
  "send_event e m = m\<lparr>dm_events := dm_events m @ [e]\<rparr>"

section \<open>Operations\<close>

definition add_peer :: "net_env \<Rightarrow> Instant \<Rightarrow> PeerRecord \<Rightarrow> DiscoveryManager \<Rightarrow> DiscoveryManager" where
  "add_peer env now record m =
     (let peer_id = pr_peer_id record in
      if peer_id \<in> dm_banned m then m
      else let tracked = \<lparr>tp_record = record, tp_status = Discovered, tp_first_seen = now,
                 tp_last_seen = now, tp_last_attempt = None, tp_connection_attempts = 0,
                 tp_success_rate = 1\<rparr>;
               is_new = (hm_get (dm_peers m) peer_id = None);
               m' = m\<lparr>dm_peers := hm_insert peer_id tracked (dm_peers m)\<rparr>
           in if is_new
              then let addr = (case parse_addr (ne_v6 env) (pr_addr record) of
                                 Some a \<Rightarrow> a | None \<Rightarrow> ne_default_addr env)
                   in send_event (NewPeerDiscovered peer_id addr) m'
              else m')"

text \<open>Each iteration of a loop reads the clock anew: one reading per record.\<close>

fun add_peers :: "net_env \<Rightarrow> (Instant \<times> PeerRecord) list \<Rightarrow> DiscoveryManager \<Rightarrow> DiscoveryManager" where
  "add_peers env [] m = m"
| "add_peers env ((now, record) # records) m = add_peers env records (add_peer env now record m)"

definition mark_connected :: "Instant \<Rightarrow> bytes32 \<Rightarrow> DiscoveryManager \<Rightarrow> DiscoveryManager" where
  "mark_connected now peer_id m =
     send_event (PeerConnected peer_id)
       (case hm_get (dm_peers m) peer_id of
          Some peer \<Rightarrow> m\<lparr>dm_peers := hm_insert peer_id
            (peer\<lparr>tp_status := Connected, tp_last_seen := now, tp_connection_attempts := 0,
                  tp_success_rate := 1\<rparr>) (dm_peers m)\<rparr>
        | None \<Rightarrow> m)"

definition mark_disconnected :: "Instant \<Rightarrow> bytes32 \<Rightarrow> DiscoveryManager \<Rightarrow> DiscoveryManager" where
  "mark_disconnected now peer_id m =
     send_event (PeerDisconnected peer_id)
       (case hm_get (dm_peers m) peer_id of
          Some peer \<Rightarrow> m\<lparr>dm_peers := hm_insert peer_id
            (peer\<lparr>tp_status := Disconnected, tp_last_seen := now\<rparr>) (dm_peers m)\<rparr>
        | None \<Rightarrow> m)"

definition ban_peer :: "bytes32 \<Rightarrow> string \<Rightarrow> DiscoveryManager \<Rightarrow> DiscoveryManager" where
  "ban_peer peer_id reason m =
     send_event (PeerBanned peer_id reason)
       (m\<lparr>dm_banned := insert peer_id (dm_banned m), dm_peers := hm_remove peer_id (dm_peers m)\<rparr>)"

definition connectable :: "DiscoveryManager \<Rightarrow> TrackedPeer \<Rightarrow> bool" where
  "connectable m p \<longleftrightarrow>
     (case tp_status p of Discovered \<Rightarrow> True | Disconnected \<Rightarrow> True | _ \<Rightarrow> False) \<and>
     pr_peer_id (tp_record p) \<notin> dm_banned m"

definition peers_to_connect ::
  "((bytes32 \<times> TrackedPeer) list \<Rightarrow> (bytes32 \<times> TrackedPeer) list) \<Rightarrow> net_env \<Rightarrow>
   DiscoveryManager \<Rightarrow> nat \<Rightarrow> (SocketAddr \<times> bytes32) list" where
  "peers_to_connect shuffle env m cnt =
     (let candidates = filter (\<lambda>(_, p). connectable m p) (dm_peers m);
          candidates = take cnt (shuffle candidates)
      in List.map_filter (\<lambda>(id, p).
           map_option (\<lambda>a. (a, id)) (parse_addr (ne_v6 env) (pr_addr (tp_record p)))) candidates)"

definition connected_peers :: "DiscoveryManager \<Rightarrow> PeerRecord list" where
  "connected_peers m =
     map (\<lambda>(_, p). tp_record p) (filter (\<lambda>(_, p). tp_status p = Connected) (dm_peers m))"

definition peer_exchange_subset ::
  "(PeerRecord list \<Rightarrow> PeerRecord list) \<Rightarrow> DiscoveryManager \<Rightarrow> nat \<Rightarrow> PeerRecord list" where
  "peer_exchange_subset shuffle m cnt =
     (let connected = map (\<lambda>(_, p). tp_record p)
            (filter (\<lambda>(_, p). tp_status p = Connected) (dm_peers m))
      in take cnt (shuffle connected))"

text \<open>\<open>duration_since\<close> saturates at zero, as subtraction on natural numbers does.\<close>

definition stale :: "Instant \<Rightarrow> Duration \<Rightarrow> TrackedPeer \<Rightarrow> bool" where
  "stale now timeout p \<longleftrightarrow> tp_status p \<noteq> Connected \<and> now - tp_last_seen p > timeout"

definition prune_stale_peers :: "Instant \<Rightarrow> DiscoveryManager \<Rightarrow> DiscoveryManager" where
  "prune_stale_peers now m =
     (let timeout = dc_peer_timeout (dm_config m);
          stale_ids = map fst (filter (\<lambda>(_, p). stale now timeout p) (dm_peers m))
      in m\<lparr>dm_peers := fold hm_remove stale_ids (dm_peers m)\<rparr>)"

definition known_peers_count :: "DiscoveryManager \<Rightarrow> nat" where
  "known_peers_count m = hm_len (dm_peers m)"

definition connected_count :: "DiscoveryManager \<Rightarrow> nat" where
  "connected_count m = length (connected_peers m)"

definition needs_more_peers :: "DiscoveryManager \<Rightarrow> bool" where
  "needs_more_peers m \<longleftrightarrow> length (connected_peers m) < dc_target_outgoing (dm_config m)"

definition bootstrap_record :: "net_env \<Rightarrow> SocketAddr \<Rightarrow> PeerRecord" where
  "bootstrap_record env addr =
     \<lparr>pr_peer_id = replicate 32 0, pr_addr = addr_to_string (ne_v6 env) addr,
      pr_public_key = replicate 32 0, pr_capabilities = Capabilities_default, pr_score = 1 / 2\<rparr>"

text \<open>The clock reading of the \<open>i\<close>-th iteration is \<open>clock i\<close>.\<close>

definition bootstrap :: "net_env \<Rightarrow> (nat \<Rightarrow> Instant) \<Rightarrow> DiscoveryManager \<Rightarrow> DiscoveryManager" where
  "bootstrap env clock m =
     add_peers env (map (\<lambda>(i, addr). (clock i, bootstrap_record env addr))
       (List.enumerate 0 (dc_bootstrap_peers (dm_config m)))) m"


section \<open>Effect of the operations on the table\<close>

abbreviation lookup_peer :: "DiscoveryManager \<Rightarrow> bytes32 \<Rightarrow> TrackedPeer option" where
  "lookup_peer m \<equiv> hm_get (dm_peers m)"

definition fresh_peer :: "Instant \<Rightarrow> PeerRecord \<Rightarrow> TrackedPeer" where
  "fresh_peer now record = \<lparr>tp_record = record, tp_status = Discovered, tp_first_seen = now,
     tp_last_seen = now, tp_last_attempt = None, tp_connection_attempts = 0, tp_success_rate = 1\<rparr>"

lemma send_event_simps [simp]:
  "dm_peers (send_event e m) = dm_peers m" "dm_banned (send_event e m) = dm_banned m"
  "dm_config (send_event e m) = dm_config m" "dm_events (send_event e m) = dm_events m @ [e]"
  by (simp_all add: send_event_def)

lemma dm_peers_add_peer:
  "dm_peers (add_peer env now r m) =
     (if pr_peer_id r \<in> dm_banned m then dm_peers m
      else hm_insert (pr_peer_id r) (fresh_peer now r) (dm_peers m))"
  by (simp add: add_peer_def Let_def fresh_peer_def)

lemma dm_peers_mark_connected:
  "dm_peers (mark_connected now i m) = (case lookup_peer m i of None \<Rightarrow> dm_peers m
     | Some p \<Rightarrow> hm_insert i (p\<lparr>tp_status := Connected, tp_last_seen := now,
         tp_connection_attempts := 0, tp_success_rate := 1\<rparr>) (dm_peers m))"
  by (simp add: mark_connected_def split: option.splits)

lemma dm_peers_mark_disconnected:
  "dm_peers (mark_disconnected now i m) = (case lookup_peer m i of None \<Rightarrow> dm_peers m
     | Some p \<Rightarrow> hm_insert i (p\<lparr>tp_status := Disconnected, tp_last_seen := now\<rparr>) (dm_peers m))"
  by (simp add: mark_disconnected_def split: option.splits)

lemma dm_peers_ban_peer: "dm_peers (ban_peer i reason m) = hm_remove i (dm_peers m)"
  by (simp add: ban_peer_def)

lemma dm_banned_ops [simp]:
  "dm_banned (add_peer env now r m) = dm_banned m"
  "dm_banned (mark_connected now i m) = dm_banned m"
  "dm_banned (mark_disconnected now i m) = dm_banned m"
  "dm_banned (ban_peer i reason m) = insert i (dm_banned m)"
  "dm_banned (prune_stale_peers now m) = dm_banned m"
  by (simp_all add: add_peer_def mark_connected_def mark_disconnected_def ban_peer_def
      prune_stale_peers_def Let_def split: option.splits)

lemma dm_config_ops [simp]:
  "dm_config (add_peer env now r m) = dm_config m"
  "dm_config (mark_connected now i m) = dm_config m"
  "dm_config (mark_disconnected now i m) = dm_config m"
  "dm_config (ban_peer i reason m) = dm_config m"
  "dm_config (prune_stale_peers now m) = dm_config m"
  by (simp_all add: add_peer_def mark_connected_def mark_disconnected_def ban_peer_def
      prune_stale_peers_def Let_def split: option.splits)

lemmas dm_peers_ops = dm_peers_add_peer dm_peers_mark_connected dm_peers_mark_disconnected
  dm_peers_ban_peer

lemma dm_add_peers [simp]:
  "dm_banned (add_peers env rs m) = dm_banned m" "dm_config (add_peers env rs m) = dm_config m"
  by (induction env rs m rule: add_peers.induct) simp_all

lemma lookup_prune:
  assumes "hm_wf (dm_peers m)"
  shows "lookup_peer (prune_stale_peers now m) i = (case lookup_peer m i of
     None \<Rightarrow> None
   | Some p \<Rightarrow> if stale now (dc_peer_timeout (dm_config m)) p then None else Some p)"
proof -
  let ?stale = "stale now (dc_peer_timeout (dm_config m))"
  have "i \<in> set (map fst (filter (\<lambda>(_, p). ?stale p) (dm_peers m))) \<longleftrightarrow>
      (\<exists>p. lookup_peer m i = Some p \<and> ?stale p)"
    using assms by (force simp: hm_get_set)
  then show ?thesis
    by (auto simp: prune_stale_peers_def Let_def hm_get_fold_remove split: option.splits)
qed

section \<open>Reachable tables\<close>

inductive disc_step :: "net_env \<Rightarrow> DiscoveryManager \<Rightarrow> DiscoveryManager \<Rightarrow> bool" for env where
  add: "disc_step env m (add_peer env now r m)"
| add_many: "disc_step env m (add_peers env rs m)"
| connect: "disc_step env m (mark_connected now i m)"
| disconnect: "disc_step env m (mark_disconnected now i m)"
| ban: "disc_step env m (ban_peer i reason m)"
| prune: "disc_step env m (prune_stale_peers now m)"
| boot: "disc_step env m (bootstrap env clock m)"

definition disc_reach :: "net_env \<Rightarrow> DiscoveryConfig \<Rightarrow> DiscoveryManager \<Rightarrow> bool" where
  "disc_reach env config m \<longleftrightarrow> (disc_step env)\<^sup>*\<^sup>* (DiscoveryManager_new config) m"

text \<open>
  Keys are the peers' own identifiers, no banned peer is in the table, and the states
  \<open>Connecting\<close> and \<open>Banned\<close> never occur.
\<close>

definition disc_inv :: "DiscoveryManager \<Rightarrow> bool" where
  "disc_inv m \<longleftrightarrow> hm_wf (dm_peers m) \<and>
     (\<forall>i p. lookup_peer m i = Some p \<longrightarrow> i \<notin> dm_banned m \<and> pr_peer_id (tp_record p) = i \<and>
        tp_status p \<noteq> Connecting \<and> tp_status p \<noteq> Banned)"

lemma disc_inv_new: "disc_inv (DiscoveryManager_new config)"
  by (simp add: disc_inv_def DiscoveryManager_new_def)

lemma disc_inv_add_peer: "disc_inv m \<Longrightarrow> disc_inv (add_peer env now r m)"
  by (auto simp: disc_inv_def dm_peers_add_peer fresh_peer_def)

lemma disc_inv_add_peers: "disc_inv m \<Longrightarrow> disc_inv (add_peers env rs m)"
  by (induction env rs m rule: add_peers.induct) (simp_all add: disc_inv_add_peer)

lemma disc_inv_prune: "disc_inv m \<Longrightarrow> disc_inv (prune_stale_peers now m)"
  unfolding disc_inv_def
  by (auto simp: lookup_prune split: option.splits if_splits)
    (simp add: prune_stale_peers_def Let_def hm_wf_fold_remove)

lemma disc_step_inv: "disc_step env m n \<Longrightarrow> disc_inv m \<Longrightarrow> disc_inv n"
proof (induction rule: disc_step.induct)
  case (connect m now i)
  then show ?case by (auto simp: disc_inv_def dm_peers_ops split: option.splits)
next
  case (disconnect m now i)
  then show ?case by (auto simp: disc_inv_def dm_peers_ops split: option.splits)
next
  case (ban m i reason)
  then show ?case by (auto simp: disc_inv_def dm_peers_ops)
qed (simp_all add: disc_inv_add_peer disc_inv_add_peers disc_inv_prune bootstrap_def)

interpretation disc: kept_invariant "disc_step env" disc_inv
  by unfold_locales (rule disc_step_inv)

lemma disc_reach_disc_inv: "disc_reach env config m \<Longrightarrow> disc_inv m"
  unfolding disc_reach_def using disc_inv_new by (rule disc.steps_inv [rotated])

lemma disc_steps_banned: "(disc_step env)\<^sup>*\<^sup>* m n \<Longrightarrow> dm_banned m \<subseteq> dm_banned n"
proof (induction rule: rtranclp_induct)
  case (step n p)
  from step(2) have "dm_banned n \<subseteq> dm_banned p"
    by (induction rule: disc_step.induct) (auto simp: bootstrap_def)
  with step(3) show ?case by blast
qed simp


section \<open>Candidates for dialing\<close>

definition permutes_lists :: "('a list \<Rightarrow> 'a list) \<Rightarrow> bool" where
  "permutes_lists shuffle \<longleftrightarrow> (\<forall>xs. mset (shuffle xs) = mset xs)"

abbreviation peer_addr :: "net_env \<Rightarrow> TrackedPeer \<Rightarrow> SocketAddr option" where
  "peer_addr env p \<equiv> parse_addr (ne_v6 env) (pr_addr (tp_record p))"

definition candidates :: "DiscoveryManager \<Rightarrow> (bytes32 \<times> TrackedPeer) list" where
  "candidates m = filter (\<lambda>(_, p). connectable m p) (dm_peers m)"

lemma peers_to_connect_map:
  "peers_to_connect shuffle env m cnt =
     map (\<lambda>(i, p). (the (peer_addr env p), i))
       (filter (\<lambda>(_, p). peer_addr env p \<noteq> None) (take cnt (shuffle (candidates m))))"
  by (auto simp: peers_to_connect_def candidates_def List.map_filter_def Let_def
      intro!: map_cong filter_cong)

lemma in_peers_to_connect:
  assumes "permutes_lists shuffle" and "hm_wf (dm_peers m)"
    and "(a, i) \<in> set (peers_to_connect shuffle env m cnt)"
  shows "\<exists>p. lookup_peer m i = Some p \<and> connectable m p \<and> peer_addr env p = Some a"
proof -
  have "set (shuffle (candidates m)) = set (candidates m)"
    using assms(1) by (metis permutes_lists_def set_mset_mset)
  then have "set (take cnt (shuffle (candidates m))) \<subseteq> set (candidates m)"
    by (metis set_take_subset)
  with assms(3) show ?thesis
    using hm_get_set [OF assms(2)] by (force simp: peers_to_connect_map candidates_def)
qed

lemma distinct_peers_to_connect:
  assumes "permutes_lists shuffle" and "hm_wf (dm_peers m)"
  shows "distinct (map snd (peers_to_connect shuffle env m cnt))"
proof -
  let ?c = "candidates m"
  have "distinct (map fst ?c)"
    using assms(2) by (simp add: candidates_def hm_defs distinct_map_filter)
  moreover have "mset (map fst (shuffle ?c)) = mset (map fst ?c)"
    using assms(1) by (simp add: permutes_lists_def)
  ultimately have "distinct (map fst (shuffle ?c))" by (metis mset_eq_imp_distinct_iff)
  then have "distinct (map fst (take cnt (shuffle ?c)))" by (simp flip: take_map)
  then have "distinct (map fst (filter (\<lambda>(_, p). peer_addr env p \<noteq> None) (take cnt (shuffle ?c))))"
    by (rule distinct_map_filter)
  moreover have "map snd (peers_to_connect shuffle env m cnt) =
      map fst (filter (\<lambda>(_, p). peer_addr env p \<noteq> None) (take cnt (shuffle ?c)))"
    by (simp add: peers_to_connect_map case_prod_unfold)
  ultimately show ?thesis by simp
qed

lemma length_peers_to_connect:
  assumes "permutes_lists shuffle"
  shows "length (peers_to_connect shuffle env m cnt) \<le> min cnt (length (candidates m))"
    and "\<forall>(i, p)\<in>set (candidates m). peer_addr env p \<noteq> None \<Longrightarrow>
      length (peers_to_connect shuffle env m cnt) = min cnt (length (candidates m))"
proof -
  have eq: "mset (shuffle (candidates m)) = mset (candidates m)"
    using assms by (simp add: permutes_lists_def)
  then have len: "length (shuffle (candidates m)) = length (candidates m)" by (rule mset_eq_length)
  have "length (peers_to_connect shuffle env m cnt) \<le> length (take cnt (shuffle (candidates m)))"
    unfolding peers_to_connect_map length_map by (rule length_filter_le)
  then show "length (peers_to_connect shuffle env m cnt) \<le> min cnt (length (candidates m))"
    by (simp add: len min.commute)
  assume all: "\<forall>(i, p)\<in>set (candidates m). peer_addr env p \<noteq> None"
  have "set (take cnt (shuffle (candidates m))) \<subseteq> set (candidates m)"
    using eq set_take_subset by (metis set_mset_mset)
  with all have "filter (\<lambda>(_, p). peer_addr env p \<noteq> None) (take cnt (shuffle (candidates m))) =
      take cnt (shuffle (candidates m))"
    by (intro filter_True) fastforce
  then show "length (peers_to_connect shuffle env m cnt) = min cnt (length (candidates m))"
    by (simp add: peers_to_connect_map len min.commute)
qed

section \<open>Peers that are added\<close>

lemma add_peers_known:
  "dm_banned m = {} \<Longrightarrow>
     dom (lookup_peer (add_peers env rs m)) = dom (lookup_peer m) \<union> (pr_peer_id \<circ> snd) ` set rs"
proof (induction env rs m rule: add_peers.induct)
  case (2 env now r rs m)
  then show ?case by (auto simp: dm_peers_add_peer hm.dom_insert)
qed simp

lemma add_peers_last:
  "pr_peer_id r \<notin> dm_banned m \<Longrightarrow>
     lookup_peer (add_peers env (rs @ [(now, r)]) m) (pr_peer_id r) = Some (fresh_peer now r)"
  by (induction env rs m rule: add_peers.induct) (simp_all add: dm_peers_add_peer)

lemma add_peers_append:
  "add_peers env (rs @ ss) m = add_peers env ss (add_peers env rs m)"
  by (induction env rs m rule: add_peers.induct) simp_all

lemma hm_wf_add_peers: "hm_wf (dm_peers m) \<Longrightarrow> hm_wf (dm_peers (add_peers env rs m))"
  by (induction env rs m rule: add_peers.induct) (simp_all add: dm_peers_add_peer)

text \<open>
  Bootstrapping a fresh table from any non-empty list of seed addresses leaves exactly one
  known peer, the last seed: every seed is entered under the same all-zero identifier.
\<close>

lemma bootstrap_new:
  assumes "dc_bootstrap_peers config = seeds @ [seed]"
  shows "dm_peers (bootstrap env clock (DiscoveryManager_new config)) =
    [(replicate 32 0, fresh_peer (clock (length seeds)) (bootstrap_record env seed))]"
proof -
  let ?m = "DiscoveryManager_new config"
  let ?rs = "map (\<lambda>(i, addr). (clock i, bootstrap_record env addr)) (List.enumerate 0 seeds)"
  let ?n = "add_peers env (?rs @ [(clock (length seeds), bootstrap_record env seed)]) ?m"
  have id: "pr_peer_id (bootstrap_record env a) = replicate 32 0" for a
    by (simp add: bootstrap_record_def)
  have "dom (lookup_peer ?n) \<subseteq> {replicate 32 0}"
    by (subst add_peers_known) (auto simp: DiscoveryManager_new_def id)
  moreover have "hm_wf (dm_peers ?n)"
    by (rule hm_wf_add_peers) (simp add: DiscoveryManager_new_def)
  moreover have "lookup_peer ?n (replicate 32 0) =
      Some (fresh_peer (clock (length seeds)) (bootstrap_record env seed))"
    using add_peers_last [of "bootstrap_record env seed" ?m env ?rs]
    by (simp add: id DiscoveryManager_new_def)
  ultimately have "dm_peers ?n =
      [(replicate 32 0, fresh_peer (clock (length seeds)) (bootstrap_record env seed))]"
    by (intro hm_singleton)
  then show ?thesis
    using assms by (simp add: bootstrap_def DiscoveryManager_new_def enumerate_append_eq)
qed

lemma connected_count_card:
  "hm_wf (dm_peers m) \<Longrightarrow>
     connected_count m = card {i. \<exists>p. lookup_peer m i = Some p \<and> tp_status p = Connected}"
  by (simp add: connected_count_def connected_peers_def hm_count)

lemma finite_connected: "finite {i. \<exists>p. lookup_peer m i = Some p \<and> Q p}"
  by (rule finite_subset [OF _ hm.finite_dom [of "dm_peers m"]]) auto

section \<open>Properties\<close>

definition peer :: "u8 \<Rightarrow> string \<Rightarrow> PeerRecord" where
  "peer i addr = \<lparr>pr_peer_id = replicate 32 i, pr_addr = addr, pr_public_key = replicate 32 i,
     pr_capabilities = Capabilities_default, pr_score = 1\<rparr>"

definition env4 :: net_env where
  "env4 = \<lparr>ne_v6 = \<lparr>show_v6 = (\<lambda>_. []), parse_v6 = (\<lambda>_. None)\<rparr>, ne_default_addr = V4 0 0 0 0 0\<rparr>"

text \<open>
  C11: In every reachable table the keys are distinct and are the peers' own identifiers,
  no banned peer is known, and no peer is in state \<open>Connecting\<close> or \<open>Banned\<close>.
\<close>

theorem discovery_invariant:
  assumes "disc_reach env config m" and "lookup_peer m i = Some p"
  shows "distinct (hm_keys (dm_peers m)) \<and> i \<notin> dm_banned m \<and> pr_peer_id (tp_record p) = i \<and>
    tp_status p \<in> {Discovered, Connected, Disconnected}"
  using disc_reach_disc_inv [OF assms(1)] assms(2)
  by (cases "tp_status p") (auto simp: disc_inv_def intro: hm.distinct_keys)

theorem discovery_invariant_witness:
  "let m = add_peer env4 5 (peer 1 ''10.0.0.1:26656'') (DiscoveryManager_new DiscoveryConfig_default) in
   distinct (hm_keys (dm_peers m)) \<and> replicate 32 1 \<notin> dm_banned m \<and>
   pr_peer_id (tp_record (fresh_peer 5 (peer 1 ''10.0.0.1:26656''))) = replicate 32 1 \<and>
   tp_status (fresh_peer 5 (peer 1 ''10.0.0.1:26656'')) \<in> {Discovered, Connected, Disconnected}"
proof -
  let ?r = "peer 1 ''10.0.0.1:26656''"
  let ?m = "add_peer env4 5 ?r (DiscoveryManager_new DiscoveryConfig_default)"
  have "disc_reach env4 DiscoveryConfig_default ?m"
    unfolding disc_reach_def by (rule r_into_rtranclp) (rule disc_step.add)
  moreover have "lookup_peer ?m (replicate 32 1) = Some (fresh_peer 5 ?r)"
    by (simp add: dm_peers_add_peer DiscoveryManager_new_def peer_def)
  ultimately show ?thesis unfolding Let_def using discovery_invariant by blast
qed

text \<open>
  C12: A ban is permanent: whatever operations follow, the peer stays banned, stays out of
  the table and is never offered for dialing.
\<close>

theorem ban_is_permanent:
  assumes "disc_reach env config m" and "(disc_step env)\<^sup>*\<^sup>* (ban_peer i reason m) n"
    and "permutes_lists shuffle"
  shows "i \<in> dm_banned n \<and> lookup_peer n i = None \<and>
    i \<notin> snd ` set (peers_to_connect shuffle env n cnt)"
proof -
  have "disc_inv (ban_peer i reason m)"
    using disc_step.ban disc_reach_disc_inv [OF assms(1)] by (rule disc_step_inv)
  with assms(2) have inv: "disc_inv n" by (rule disc.steps_inv)
  have banned: "i \<in> dm_banned n" using disc_steps_banned [OF assms(2)] by auto
  then have "lookup_peer n i = None"
    using inv by (cases "lookup_peer n i") (auto simp: disc_inv_def)
  moreover have "hm_wf (dm_peers n)" using inv by (simp add: disc_inv_def)
  ultimately show ?thesis
    using banned in_peers_to_connect [OF assms(3)] by fastforce
qed

theorem ban_is_permanent_witness:
  "let m = ban_peer (replicate 32 1) ''spam'' (DiscoveryManager_new DiscoveryConfig_default);
       n = add_peer env4 5 (peer 1 ''10.0.0.1:26656'') m in
   replicate 32 1 \<in> dm_banned n \<and> lookup_peer n (replicate 32 1) = None \<and>
   replicate 32 1 \<notin> snd ` set (peers_to_connect (\<lambda>xs. xs) env4 n 50)"
  unfolding Let_def
proof (rule ban_is_permanent)
  show "disc_reach env4 DiscoveryConfig_default (DiscoveryManager_new DiscoveryConfig_default)"
    by (simp add: disc_reach_def)
  show "(disc_step env4)\<^sup>*\<^sup>*
      (ban_peer (replicate 32 1) ''spam'' (DiscoveryManager_new DiscoveryConfig_default))
      (add_peer env4 5 (peer 1 ''10.0.0.1:26656'')
        (ban_peer (replicate 32 1) ''spam'' (DiscoveryManager_new DiscoveryConfig_default)))"
    by (rule r_into_rtranclp) (rule disc_step.add)
  show "permutes_lists (\<lambda>xs. xs :: (bytes32 \<times> TrackedPeer) list)" by (simp add: permutes_lists_def)
qed

text \<open>
  C35: In a reachable table and with a shuffle that permutes its argument,
  \<open>peers_to_connect\<close> offers at most \<open>cnt\<close> different peers, each known, not
  banned, newly discovered or disconnected, and with the address its record parses to; when
  every candidate's address parses it offers as many as it can.
\<close>

theorem peers_to_connect_spec:
  assumes "disc_reach env config m" and "permutes_lists shuffle"
  shows "length (peers_to_connect shuffle env m cnt) \<le> cnt \<and>
    distinct (map snd (peers_to_connect shuffle env m cnt)) \<and>
    (\<forall>(a, i)\<in>set (peers_to_connect shuffle env m cnt). \<exists>p. lookup_peer m i = Some p \<and>
       tp_status p \<in> {Discovered, Disconnected} \<and> i \<notin> dm_banned m \<and> peer_addr env p = Some a) \<and>
    ((\<forall>(i, p)\<in>set (dm_peers m). peer_addr env p \<noteq> None) \<longrightarrow>
       length (peers_to_connect shuffle env m cnt) =
         min cnt (length (filter (\<lambda>(_, p). connectable m p) (dm_peers m))))"
proof -
  have inv: "disc_inv m" using assms(1) by (rule disc_reach_disc_inv)
  then have wf: "hm_wf (dm_peers m)" by (simp add: disc_inv_def)
  have each: "\<exists>p. lookup_peer m i = Some p \<and> tp_status p \<in> {Discovered, Disconnected} \<and>
      i \<notin> dm_banned m \<and> peer_addr env p = Some a"
    if "(a, i) \<in> set (peers_to_connect shuffle env m cnt)" for a i
    using in_peers_to_connect [OF assms(2) wf that] inv
    by (fastforce simp: connectable_def disc_inv_def split: PeerStatus.splits)
  have all: "\<forall>(i, p)\<in>set (candidates m). peer_addr env p \<noteq> None"
    if "\<forall>(i, p)\<in>set (dm_peers m). peer_addr env p \<noteq> None"
    using that by (auto simp: candidates_def)
  show ?thesis
    using length_peers_to_connect [OF assms(2), where env = env and m = m and cnt = cnt] all each
      distinct_peers_to_connect [OF assms(2) wf, of env cnt]
    unfolding candidates_def by fastforce
qed

theorem peers_to_connect_spec_witness:
  "let m = add_peer env4 5 (peer 1 ''10.0.0.1:26656'') (DiscoveryManager_new DiscoveryConfig_default) in
   length (peers_to_connect rev env4 m 3) \<le> 3 \<and>
   distinct (map snd (peers_to_connect rev env4 m 3))"
proof -
  let ?m = "add_peer env4 5 (peer 1 ''10.0.0.1:26656'') (DiscoveryManager_new DiscoveryConfig_default)"
  have "disc_reach env4 DiscoveryConfig_default ?m"
    unfolding disc_reach_def by (rule r_into_rtranclp) (rule disc_step.add)
  moreover have "permutes_lists (rev :: (bytes32 \<times> TrackedPeer) list \<Rightarrow> _)"
    by (simp add: permutes_lists_def)
  ultimately show ?thesis unfolding Let_def using peers_to_connect_spec by blast
qed

text \<open>
  \<open>prune_stale_peers\<close> removes exactly the peers that are not connected and were last
  seen longer ago than the timeout, and changes no other entry.
\<close>

lemma prune_stale_peers_exact:
  assumes "disc_reach env config m"
  shows "lookup_peer (prune_stale_peers now m) i =
    (case lookup_peer m i of
       None \<Rightarrow> None
     | Some p \<Rightarrow> if tp_status p \<noteq> Connected \<and> dc_peer_timeout (dm_config m) < now - tp_last_seen p
                 then None else Some p)"
  using disc_reach_disc_inv [OF assms] 
  by (simp add: lookup_prune stale_def disc_inv_def split: option.splits)

lemma prune_stale_peers_exact_witness:
  "let m = add_peer env4 5 (peer 1 ''10.0.0.1:26656'') (DiscoveryManager_new DiscoveryConfig_default) in
   lookup_peer (prune_stale_peers (10 ^ 13) m) (replicate 32 1) =
    (case lookup_peer m (replicate 32 1) of
       None \<Rightarrow> None
     | Some p \<Rightarrow> if tp_status p \<noteq> Connected \<and>
           dc_peer_timeout (dm_config m) < 10 ^ 13 - tp_last_seen p then None else Some p)"
  unfolding Let_def
  by (rule prune_stale_peers_exact [where env = env4 and config = DiscoveryConfig_default])
    (auto simp: disc_reach_def intro: disc_step.add)

text \<open>
  Adding a record for a peer that is already connected (a seed, or a record from peer
  exchange) overwrites its entry with a fresh one: the peer counts as merely discovered and
  the number of connected peers drops by one.
\<close>

lemma add_peer_forgets_connection:
  assumes "disc_reach env config m" and "lookup_peer m (pr_peer_id r) = Some p"
    and "tp_status p = Connected"
  shows "lookup_peer (add_peer env now r m) (pr_peer_id r) = Some (fresh_peer now r) \<and>
    tp_status (fresh_peer now r) = Discovered \<and>
    connected_count m = Suc (connected_count (add_peer env now r m))"
proof -
  have inv: "disc_inv m" using assms(1) by (rule disc_reach_disc_inv)
  let ?C = "\<lambda>m. {i. \<exists>p. lookup_peer m i = Some p \<and> tp_status p = Connected}"
  have nb: "pr_peer_id r \<notin> dm_banned m" using inv assms(2) by (auto simp: disc_inv_def)
  then have peers: "dm_peers (add_peer env now r m) =
      hm_insert (pr_peer_id r) (fresh_peer now r) (dm_peers m)"
    by (simp add: dm_peers_add_peer)
  have "?C m = insert (pr_peer_id r) (?C (add_peer env now r m))"
    using assms(2,3) by (auto simp: peers fresh_peer_def split: if_splits)
  moreover have "pr_peer_id r \<notin> ?C (add_peer env now r m)" by (simp add: peers fresh_peer_def)
  ultimately have "card (?C m) = Suc (card (?C (add_peer env now r m)))"
    by (simp add: finite_connected)
  moreover have "hm_wf (dm_peers m)" "hm_wf (dm_peers (add_peer env now r m))"
    using inv by (simp_all add: disc_inv_def peers)
  ultimately show ?thesis by (simp add: connected_count_card peers) (simp add: fresh_peer_def)
qed

lemma add_peer_forgets_connection_witness:
  "let r = peer 1 ''10.0.0.1:26656'';
       m = mark_connected 6 (replicate 32 1)
             (add_peer env4 5 r (DiscoveryManager_new DiscoveryConfig_default)) in
   lookup_peer (add_peer env4 7 r m) (pr_peer_id r) = Some (fresh_peer 7 r) \<and>
   tp_status (fresh_peer 7 r) = Discovered \<and>
   connected_count m = Suc (connected_count (add_peer env4 7 r m))"
proof -
  let ?r = "peer 1 ''10.0.0.1:26656''"
  let ?n = "add_peer env4 5 ?r (DiscoveryManager_new DiscoveryConfig_default)"
  let ?m = "mark_connected 6 (replicate 32 1) ?n"
  have "disc_reach env4 DiscoveryConfig_default ?m"
    unfolding disc_reach_def
    by (rule rtranclp.rtrancl_into_rtrancl [OF r_into_rtranclp])
      (rule disc_step.add, rule disc_step.connect)
  moreover have "\<exists>p. lookup_peer ?m (pr_peer_id ?r) = Some p \<and> tp_status p = Connected"
    by (simp add: dm_peers_ops DiscoveryManager_new_def peer_def)
  ultimately show ?thesis unfolding Let_def using add_peer_forgets_connection by blast
qed

text \<open>
  The table grows with every new identifier: after adding records to a fresh table the
  known peers are exactly the identifiers of the records, however small
  \<open>max_peers\<close> is configured.
\<close>

lemma add_peers_unbounded:
  "known_peers_count (add_peers env rs (DiscoveryManager_new config)) =
     card (set (map (\<lambda>(now, r). pr_peer_id r) rs)) \<and>
   set (hm_keys (dm_peers (add_peers env rs (DiscoveryManager_new config)))) =
     set (map (\<lambda>(now, r). pr_peer_id r) rs)"
proof -
  let ?m = "add_peers env rs (DiscoveryManager_new config)"
  have "dom (lookup_peer ?m) = (pr_peer_id \<circ> snd) ` set rs"
    by (subst add_peers_known) (simp_all add: DiscoveryManager_new_def dom_def)
  also have "\<dots> = set (map (\<lambda>(now, r). pr_peer_id r) rs)" by force
  finally have dom: "dom (lookup_peer ?m) = set (map (\<lambda>(now, r). pr_peer_id r) rs)" .
  moreover have "hm_wf (dm_peers ?m)"
    by (rule hm_wf_add_peers) (simp add: DiscoveryManager_new_def)
  ultimately show ?thesis
    by (simp only: known_peers_count_def hm.len_card hm.set_keys_dom simp_thms)
qed

end
