(* ===== verification/Transport.thy ===== *)
theory Transport
  imports Net_Addr
begin

text \<open>
  \<open>node/p2p/src/transport.rs\<close>: the table of open connections, length-prefixed messages and
  the accept loop. A \<open>TcpStream\<close> is a value of the abstract type \<open>'st\<close>; the record
  \<open>tokio\<close> holds what the code calls of \<open>tokio\<close>, \<open>bincode\<close> and \<open>hex\<close>, and the
  outcome of connecting, binding or accepting is an argument. Sent events are logged in
  \<open>tm_events\<close>.
\<close>

section \<open>State\<close>

text \<open>The messages are declared in \<open>node/p2p/src/lib.rs\<close>.\<close>

datatype P2PMessage =
    BlockProposal "u8 list"
  | ConsensusVote "u8 list"
  | Transaction "u8 list"
  | FindPeer "u8 list"
  | PeerList "u8 list"
  | SyncRequest "u8 list"
  | SyncResponse "u8 list"
  | Ping
  | Pong

record TransportConfig =
  tc_listen_addr :: SocketAddr
  tc_dial_timeout :: Duration
  tc_handshake_timeout :: Duration
  tc_max_message_size :: nat
  tc_enable_encryption :: bool

definition TransportConfig_default :: "v6_text \<Rightarrow> TransportConfig exec" where
  "TransportConfig_default v6 = do {
     addr \<leftarrow> parse_addr v6 ''0.0.0.0:26656'';
     Some \<lparr>tc_listen_addr = addr, tc_dial_timeout = from_secs 5, tc_handshake_timeout = from_secs 3,
       tc_max_message_size = 10 * 1024 * 1024, tc_enable_encryption = True\<rparr> }"

datatype TransportEvent =
    ConnectionEstablished bytes32 SocketAddr
  | ConnectionClosed bytes32 SocketAddr string
  | MessageReceived bytes32 P2PMessage
  | AcceptError string
  | DialError SocketAddr string

record 'st TransportManager =
  tm_config :: TransportConfig
  tm_connections :: "(bytes32, 'st) hashmap"
  tm_events :: "TransportEvent list"

record 'st tokio =
  tk_write_all :: "'st \<Rightarrow> u8 list \<Rightarrow> 'st \<times> (string, unit) result"
  tk_shutdown :: "'st \<Rightarrow> 'st"
  tk_serialize :: "P2PMessage \<Rightarrow> (string, u8 list) result"
  tk_hex :: "u8 list \<Rightarrow> string"

definition TransportManager_new :: "TransportConfig \<Rightarrow> 'st TransportManager" where
  "TransportManager_new config = \<lparr>tm_config = config, tm_connections = hm_new, tm_events = []\<rparr>"

definition tm_send_event :: "TransportEvent \<Rightarrow> 'st TransportManager \<Rightarrow> 'st TransportManager" where
  "tm_send_event e m = m\<lparr>tm_events := tm_events m @ [e]\<rparr>"

section \<open>Operations\<close>

definition perform_handshake :: "'st \<Rightarrow> (string, bytes32) result" where
  "perform_handshake stream = Ok (replicate 32 0)"

definition handle_connection :: "'st \<Rightarrow> SocketAddr \<Rightarrow> (string, bytes32) result" where
  "handle_connection stream addr =
     (case perform_handshake stream of Err e \<Rightarrow> Err e | Ok peer_id \<Rightarrow> Ok peer_id)"

text \<open>
  The task spawned for one accepted connection sends one event and drops the stream. The
  tasks are listed in the order of the accepts. The loop runs over the outcomes of
  \<open>accept\<close> so far and returns at the first error; \<open>None\<close> is "still listening".
\<close>

definition accept_event :: "v6_text \<Rightarrow> 'st \<Rightarrow> SocketAddr \<Rightarrow> TransportEvent" where
  "accept_event v6 stream addr =
     (case handle_connection stream addr of
        Ok peer_id \<Rightarrow> ConnectionEstablished peer_id addr
      | Err e \<Rightarrow> AcceptError (''Failed to handle connection from '' @ addr_to_string v6 addr @ '': '' @ e))"

fun listen_loop ::
  "v6_text \<Rightarrow> (string, 'st \<times> SocketAddr) result list \<Rightarrow> 'st TransportManager \<Rightarrow>
   (string, unit) result option \<times> 'st TransportManager" where
  "listen_loop v6 [] m = (None, m)"
| "listen_loop v6 (Inl e # rest) m = (Some (Err e), m)"
| "listen_loop v6 (Inr (stream, addr) # rest) m =
     listen_loop v6 rest (tm_send_event (accept_event v6 stream addr) m)"

definition listen ::
  "v6_text \<Rightarrow> (string, unit) result \<Rightarrow> (string, 'st \<times> SocketAddr) result list \<Rightarrow>
   'st TransportManager \<Rightarrow> (string, unit) result option \<times> 'st TransportManager" where
  "listen v6 bound accepts m =
     (case bound of Err e \<Rightarrow> (Some (Err e), m) | Ok _ \<Rightarrow> listen_loop v6 accepts m)"

text \<open>\<open>connected\<close> is the outcome of \<open>timeout(dial_timeout, TcpStream::connect(addr))\<close>.\<close>

definition dial ::
  "(string, 'st) result \<Rightarrow> SocketAddr \<Rightarrow> 'st TransportManager \<Rightarrow>
   (string, unit) result \<times> 'st TransportManager" where
  "dial connected addr m =
     (case connected of
        Err e \<Rightarrow> (Err e, m)
      | Ok stream \<Rightarrow>
          (case perform_handshake stream of
             Err e \<Rightarrow> (Err e, m)
           | Ok peer_id \<Rightarrow>
               (Ok (), tm_send_event (ConnectionEstablished peer_id addr)
                  (m\<lparr>tm_connections := hm_insert peer_id stream (tm_connections m)\<rparr>))))"

text \<open>The part of \<open>send\<close> that writes to a stream; a stream keeps what a failed call wrote.\<close>

definition write_frame ::
  "'st tokio \<Rightarrow> P2PMessage \<Rightarrow> 'st \<Rightarrow> 'st \<times> (string, unit) result" where
  "write_frame tk msg stream =
     (case tk_serialize tk msg of
        Err e \<Rightarrow> (stream, Err (''Serialization error: '' @ e))
      | Ok data \<Rightarrow>
          (case tk_write_all tk stream (to_be_bytes (len_as_u32 data)) of
             (s1, Inl e) \<Rightarrow> (s1, Err (''Write error: '' @ e))
           | (s1, Inr _) \<Rightarrow>
               (case tk_write_all tk s1 data of
                  (s2, Inl e) \<Rightarrow> (s2, Err (''Write error: '' @ e))
                | (s2, Inr _) \<Rightarrow> (s2, Ok ()))))"

definition send ::
  "'st tokio \<Rightarrow> bytes32 \<Rightarrow> P2PMessage \<Rightarrow> 'st TransportManager \<Rightarrow>
   (string, unit) result \<times> 'st TransportManager" where
  "send tk peer_id msg m =
     (case hm_get (tm_connections m) peer_id of
        Some stream \<Rightarrow>
          (case write_frame tk msg stream of
             (stream', r) \<Rightarrow>
               (r, m\<lparr>tm_connections := hm_insert peer_id stream' (tm_connections m)\<rparr>))
      | None \<Rightarrow> (Err (''No connection to peer '' @ [CHR 0x22] @ tk_hex tk (take 8 peer_id) @ [CHR 0x22]), m))"

definition transport_broadcast ::
  "'st tokio \<Rightarrow> P2PMessage \<Rightarrow> 'st TransportManager \<Rightarrow> 'st TransportManager" where
  "transport_broadcast tk msg m =
     fold (\<lambda>peer_id m. snd (send tk peer_id msg m)) (hm_keys (tm_connections m)) m"

text \<open>The second component is the stream that was shut down.\<close>

definition transport_disconnect ::
  "'st tokio \<Rightarrow> bytes32 \<Rightarrow> 'st TransportManager \<Rightarrow> 'st TransportManager \<times> 'st option" where
  "transport_disconnect tk peer_id m =
     (case hm_get (tm_connections m) peer_id of
        Some stream \<Rightarrow>
          (m\<lparr>tm_connections := hm_remove peer_id (tm_connections m)\<rparr>, Some (tk_shutdown tk stream))
      | None \<Rightarrow> (m, None))"

definition active_connections :: "'st TransportManager \<Rightarrow> nat" where
  "active_connections m = hm_len (tm_connections m)"

section \<open>What each operation does to the connections\<close>

lemma TransportConfig_default_returns: "\<exists>config. TransportConfig_default v6 = Some config"
  by (simp add: TransportConfig_default_def parse_addr_literal)

lemma tm_send_event_simps [simp]:
  "tm_connections (tm_send_event e m) = tm_connections m"
  "tm_config (tm_send_event e m) = tm_config m"
  "tm_events (tm_send_event e m) = tm_events m @ [e]"
  by (simp_all add: tm_send_event_def)

lemma dial_Ok:
  "dial (Inr stream) addr m =
     (Ok (), tm_send_event (ConnectionEstablished (replicate 32 0) addr)
        (m\<lparr>tm_connections := hm_insert (replicate 32 0) stream (tm_connections m)\<rparr>))"
  by (simp add: dial_def perform_handshake_def)

lemma dial_Err: "dial (Inl e) addr m = (Err e, m)"
  by (simp add: dial_def)

lemma tm_connections_send:
  "tm_connections (snd (send tk i msg m)) =
     (case hm_get (tm_connections m) i of
        Some s \<Rightarrow> hm_insert i (fst (write_frame tk msg s)) (tm_connections m)
      | None \<Rightarrow> tm_connections m)"
  by (simp add: send_def split: option.splits prod.splits)

lemma tm_other_send [simp]:
  "tm_config (snd (send tk i msg m)) = tm_config m"
  "tm_events (snd (send tk i msg m)) = tm_events m"
  by (simp_all add: send_def split: option.splits prod.splits)

lemma get_send:
  "hm_get (tm_connections (snd (send tk i msg m))) k =
     (if k = i then map_option (\<lambda>s. fst (write_frame tk msg s)) (hm_get (tm_connections m) k)
      else hm_get (tm_connections m) k)"
  by (simp add: tm_connections_send split: option.splits)

lemma get_sends:
  "distinct ks \<Longrightarrow>
   hm_get (tm_connections (fold (\<lambda>i m. snd (send tk i msg m)) ks m)) k =
     (if k \<in> set ks then map_option (\<lambda>s. fst (write_frame tk msg s)) (hm_get (tm_connections m) k)
      else hm_get (tm_connections m) k)"
  by (induction ks arbitrary: m) (auto simp: get_send)

lemma tm_other_sends [simp]:
  "tm_config (fold (\<lambda>i m. snd (send tk i msg m)) ks m) = tm_config m"
  "tm_events (fold (\<lambda>i m. snd (send tk i msg m)) ks m) = tm_events m"
  by (induction ks arbitrary: m) simp_all

lemma tm_connections_listen_loop [simp]:
  "tm_connections (snd (listen_loop v6 accepts m)) = tm_connections m"
  by (induction v6 accepts m rule: listen_loop.induct) simp_all

lemma tm_connections_listen [simp]:
  "tm_connections (snd (listen v6 bound accepts m)) = tm_connections m"
  by (simp add: listen_def split: sum.splits)

section \<open>Reachable connection tables\<close>

inductive transport_step :: "'st tokio \<Rightarrow> 'st TransportManager \<Rightarrow> 'st TransportManager \<Rightarrow> bool" for tk where
  listening: "transport_step tk m (snd (listen v6 bound accepts m))"
| dialing: "transport_step tk m (snd (dial connected addr m))"
| sending: "transport_step tk m (snd (send tk i msg m))"
| broadcasting: "transport_step tk m (transport_broadcast tk msg m)"
| closing: "transport_step tk m (fst (transport_disconnect tk i m))"

definition transport_inv :: "'st TransportManager \<Rightarrow> bool" where
  "transport_inv m \<longleftrightarrow> hm_wf (tm_connections m) \<and>
     dom (hm_get (tm_connections m)) \<subseteq> {replicate 32 0}"

lemma transport_inv_new: "transport_inv (TransportManager_new config)"
  by (simp add: transport_inv_def TransportManager_new_def dom_def)

lemma transport_inv_dial: "transport_inv m \<Longrightarrow> transport_inv (snd (dial connected addr m))"
  by (cases connected) (auto simp: transport_inv_def dial_Ok dial_Err hm.dom_insert)

lemma transport_inv_send: "transport_inv m \<Longrightarrow> transport_inv (snd (send tk i msg m))"
  by (auto simp: transport_inv_def tm_connections_send hm.dom_insert domIff split: option.splits)

lemma transport_inv_sends:
  "transport_inv m \<Longrightarrow> transport_inv (fold (\<lambda>i m. snd (send tk i msg m)) ks m)"
  by (induction ks arbitrary: m) (simp_all add: transport_inv_send)

interpretation tp: kept_invariant "transport_step tk" transport_inv
proof
  fix m n :: "'a TransportManager"
  assume "transport_step tk m n" and "transport_inv m"
  then show "transport_inv n"
  proof (induction rule: transport_step.induct)
    case (listening m v6 bound accepts)
    then show ?case by (simp add: transport_inv_def)
  next
    case (closing m i)
    then show ?case
      by (auto simp: transport_inv_def transport_disconnect_def hm.dom_remove split: option.splits)
  qed (simp_all add: transport_inv_dial transport_inv_send transport_inv_sends transport_broadcast_def)
qed

lemma transport_inv_count:
  assumes "transport_inv m"
  shows "active_connections m \<le> 1"
proof -
  have "dom (hm_get (tm_connections m)) \<subseteq> {replicate 32 0}"
    using assms by (auto simp: transport_inv_def)
  then have "card (dom (hm_get (tm_connections m))) \<le> 1"
    using card_mono [of "{replicate 32 0 :: bytes32}"] by fastforce
  with assms show ?thesis by (simp add: active_connections_def transport_inv_def hm.len_card)
qed

lemma transport_inv_insert:
  "transport_inv m \<Longrightarrow> hm_insert (replicate 32 0) s (tm_connections m) = [(replicate 32 0, s)]"
  by (rule hm_singleton) (auto simp: transport_inv_def hm.dom_insert)

section \<open>The wire format\<close>

text \<open>
  A reference reader of what \<open>send\<close> writes: a four-byte length, then that many bytes, until
  the input ends.
\<close>

function read_frames :: "u8 list \<Rightarrow> u8 list list option" where
  "read_frames bs =
     (if bs = [] then Some []
      else if length bs < 4 then None
      else let n = unat (from_be_bytes (bs ! 0) (bs ! 1) (bs ! 2) (bs ! 3))
           in if length bs < 4 + n then None
              else map_option (Cons (take n (drop 4 bs))) (read_frames (drop (4 + n) bs)))"
  by auto
termination by (relation "measure length") auto

declare read_frames.simps [simp del]

lemma read_frames_Nil [simp]: "read_frames [] = Some []"
  by (simp add: read_frames.simps)

lemma read_frames_frame:
  assumes "length data < 2 ^ 32"
  shows "read_frames (to_be_bytes (len_as_u32 data) @ data @ rest) =
    map_option (Cons data) (read_frames rest)"
proof -
  let ?bs = "to_be_bytes (len_as_u32 data) @ data @ rest"
  have "unat (from_be_bytes (?bs ! 0) (?bs ! 1) (?bs ! 2) (?bs ! 3)) = length data"
    using assms unat_len_as_u32 [of data] by (simp add: to_be_bytes_def)
  moreover have "?bs \<noteq> []" by (simp add: to_be_bytes_def)
  ultimately show ?thesis by (subst read_frames.simps) (simp add: Let_def)
qed

lemma read_frames_concat:
  "\<forall>data\<in>set datas. length data < 2 ^ 32 \<Longrightarrow>
   read_frames (concat (map (\<lambda>data. to_be_bytes (len_as_u32 data) @ data) datas)) = Some datas"
  by (induction datas) (simp_all add: read_frames_frame)

text \<open>
  A healthy stream takes every write and appends it to what was sent; messages that encode
  to fewer than \<open>2 ^ 32\<close> bytes fit the length field.
\<close>

definition healthy :: "'st tokio \<Rightarrow> ('st \<Rightarrow> u8 list) \<Rightarrow> bool" where
  "healthy tk sent \<longleftrightarrow> (\<forall>s bs. snd (tk_write_all tk s bs) = Ok () \<and>
     sent (fst (tk_write_all tk s bs)) = sent s @ bs)"

definition encodes :: "'st tokio \<Rightarrow> P2PMessage \<Rightarrow> u8 list \<Rightarrow> bool" where
  "encodes tk msg data \<longleftrightarrow> tk_serialize tk msg = Ok data \<and> length data < 2 ^ 32"

lemma encodes_length: "list_all2 (encodes tk) msgs datas \<Longrightarrow> \<forall>data\<in>set datas. length data < 2 ^ 32"
  by (induction rule: list_all2_induct) (auto simp: encodes_def)

fun send_each ::
  "'st tokio \<Rightarrow> bytes32 \<Rightarrow> P2PMessage list \<Rightarrow> 'st TransportManager \<Rightarrow>
   (string, unit) result list \<times> 'st TransportManager" where
  "send_each tk i [] m = ([], m)"
| "send_each tk i (msg # msgs) m =
     (let (r, m1) = send tk i msg m; (rs, m2) = send_each tk i msgs m1 in (r # rs, m2))"

lemma write_frame_healthy:
  assumes "healthy tk sent" and "encodes tk msg data"
  shows "snd (write_frame tk msg s) = Ok ()"
    and "sent (fst (write_frame tk msg s)) = sent s @ to_be_bytes (len_as_u32 data) @ data"
proof -
  obtain s1 where 1: "tk_write_all tk s (to_be_bytes (len_as_u32 data)) = (s1, Ok ())"
    "sent s1 = sent s @ to_be_bytes (len_as_u32 data)"
    using assms(1) unfolding healthy_def by (metis prod.collapse)
  obtain s2 where 2: "tk_write_all tk s1 data = (s2, Ok ())" "sent s2 = sent s1 @ data"
    using assms(1) unfolding healthy_def by (metis prod.collapse)
  have "write_frame tk msg s = (s2, Ok ())"
    using assms(2) 1 2 by (simp add: write_frame_def encodes_def)
  then show "snd (write_frame tk msg s) = Ok ()"
    and "sent (fst (write_frame tk msg s)) = sent s @ to_be_bytes (len_as_u32 data) @ data"
    using 1 2 by simp_all
qed

lemma send_each_healthy:
  assumes "healthy tk sent" and "list_all2 (encodes tk) msgs datas"
    and "hm_get (tm_connections m) i = Some s"
  shows "fst (send_each tk i msgs m) = replicate (length msgs) (Ok ()) \<and>
    (\<exists>s'. hm_get (tm_connections (snd (send_each tk i msgs m))) i = Some s' \<and>
       sent s' = sent s @ concat (map (\<lambda>data. to_be_bytes (len_as_u32 data) @ data) datas)) \<and>
    (\<forall>k. k \<noteq> i \<longrightarrow> hm_get (tm_connections (snd (send_each tk i msgs m))) k = hm_get (tm_connections m) k)"
  using assms(2,3)
proof (induction arbitrary: m s rule: list_all2_induct)
  case Nil
  then show ?case by simp
next
  case (Cons msg msgs data datas)
  let ?m1 = "snd (send tk i msg m)" and ?s1 = "fst (write_frame tk msg s)"
  have s1: "hm_get (tm_connections ?m1) i = Some ?s1" using Cons.prems by (simp add: get_send)
  have "fst (send tk i msg m) = Ok ()"
    using Cons.prems write_frame_healthy(1) [OF assms(1) Cons.hyps(1), of s]
    by (simp add: send_def split_beta)
  with Cons.IH [OF s1] write_frame_healthy(2) [OF assms(1) Cons.hyps(1), of s] show ?case
    by (auto simp: get_send Let_def split: prod.splits)
qed

section \<open>A concrete environment for the witnesses\<close>

text \<open>A stream is the bytes written so far and a message is its payload.\<close>

fun payload_of :: "P2PMessage \<Rightarrow> u8 list" where
  "payload_of (BlockProposal d) = d"
| "payload_of (Transaction d) = d"
| "payload_of _ = []"

definition buffer_tokio :: "u8 list tokio" where
  "buffer_tokio = \<lparr>tk_write_all = (\<lambda>s bs. (s @ bs, Ok ())), tk_shutdown = id,
     tk_serialize = (\<lambda>msg. Ok (payload_of msg)), tk_hex = (\<lambda>_. [])\<rparr>"

definition two_streams :: "u8 list TransportManager" where
  "two_streams = \<lparr>tm_config = \<lparr>tc_listen_addr = V4 0 0 0 0 1, tc_dial_timeout = 0,
     tc_handshake_timeout = 0, tc_max_message_size = 0, tc_enable_encryption = False\<rparr>,
     tm_connections = [([1], []), ([2], [])], tm_events = []\<rparr>"

lemma buffer_healthy: "healthy buffer_tokio id"
  by (simp add: healthy_def buffer_tokio_def)

section \<open>Properties\<close>

text \<open>
  C13: Messages sent to one peer over a healthy stream all return \<open>Ok\<close>; the bytes on the
  stream decode, frame by frame, to exactly the encodings of the messages in order, and no
  other peer's stream is touched.
\<close>

theorem sent_frames_decode:
  assumes "healthy tk sent" and "list_all2 (encodes tk) msgs datas"
    and "hm_get (tm_connections m) i = Some s" and "sent s = []"
  shows "fst (send_each tk i msgs m) = replicate (length msgs) (Ok ()) \<and>
    (\<exists>s'. hm_get (tm_connections (snd (send_each tk i msgs m))) i = Some s' \<and>
       read_frames (sent s') = Some datas) \<and>
    (\<forall>k. k \<noteq> i \<longrightarrow> hm_get (tm_connections (snd (send_each tk i msgs m))) k = hm_get (tm_connections m) k)"
  using send_each_healthy [OF assms(1-3)] assms(4) read_frames_concat [OF encodes_length [OF assms(2)]]
  by fastforce

theorem sent_frames_decode_witness:
  "\<exists>s'. hm_get (tm_connections (snd (send_each buffer_tokio [2] [Transaction [7, 8], Ping] two_streams))) [2]
     = Some s' \<and> read_frames s' = Some [[7, 8], []]"
  using sent_frames_decode [OF buffer_healthy,
    of "[Transaction [7, 8], Ping]" "[[7, 8], []]" two_streams "[2]" "[]"]
  by (simp add: encodes_def buffer_tokio_def two_streams_def hm_get_def)

text \<open>
  A broadcast runs \<open>send\<close> once on every open connection, whatever happened on the
  others: each stream ends as its own write leaves it, whether that write succeeded or
  failed, and no connection is added or dropped.
\<close>

lemma broadcast_reaches_every_stream:
  assumes "hm_wf (tm_connections m)"
  shows "hm_get (tm_connections (transport_broadcast tk msg m)) k =
      map_option (\<lambda>s. fst (write_frame tk msg s)) (hm_get (tm_connections m) k) \<and>
    tm_events (transport_broadcast tk msg m) = tm_events m"
  using get_sends [OF hm.distinct_keys [OF assms], of tk msg m k] hm.set_keys [of k "tm_connections m"]
  by (auto simp: transport_broadcast_def)

lemma broadcast_reaches_every_stream_witness:
  "hm_get (tm_connections (transport_broadcast buffer_tokio (Transaction [9]) two_streams)) [1] =
     Some [0, 0, 0, 1, 9]"
proof -
  have "hm_wf (tm_connections two_streams)" by (simp add: two_streams_def hm_wf_def)
  from broadcast_reaches_every_stream [OF this, of buffer_tokio "Transaction [9]" "[1]"]
  show ?thesis
    by (simp add: two_streams_def hm_get_def write_frame_def buffer_tokio_def to_be_bytes_def
        len_as_u32_def)
qed

text \<open>
  Every peer gets the same all-zero identity from the handshake, so in every state the
  operations can reach there is at most one open connection, and a successful dial leaves
  exactly the stream it just opened: whatever was connected before is dropped.
\<close>

lemma single_connection:
  assumes "(transport_step tk)\<^sup>*\<^sup>* (TransportManager_new config) m"
  shows "active_connections m \<le> 1 \<and>
    tm_connections (snd (dial (Ok stream) addr m)) = [(replicate 32 0, stream)]"
proof -
  have "transport_inv m" using assms transport_inv_new by (rule tp.steps_inv)
  then show ?thesis using transport_inv_count [of m] by (simp add: dial_Ok transport_inv_insert)
qed

lemma single_connection_witness:
  "tm_connections (snd (dial (Ok [2]) (V4 2 2 2 2 2) (snd (dial (Ok [1]) (V4 1 1 1 1 1)
     (TransportManager_new (tm_config two_streams)))))) = [(replicate 32 0, [2 :: u8])]"
proof -
  have "(transport_step buffer_tokio)\<^sup>*\<^sup>* (TransportManager_new (tm_config two_streams))
      (snd (dial (Ok [1]) (V4 1 1 1 1 1) (TransportManager_new (tm_config two_streams))))"
    using transport_step.dialing by (rule r_into_rtranclp)
  then show ?thesis by (rule single_connection [THEN conjunct2])
qed

end
