(* ===== verification/P2P.thy ===== *)
theory P2P
  imports Discovery Transport
begin

text \<open>
  \<open>node/p2p/src/lib.rs\<close>: the manager that joins peer discovery and transport. Its locks
  are held for the whole of each step below, so an operation is a function of the state.
  What the network answers to the \<open>n\<close>-th dial of a call is \<open>connect n addr\<close>.
\<close>

section \<open>State\<close>

record PeerInfo =
  pi_id :: bytes32
  pi_addr :: SocketAddr
  pi_public_key :: bytes32
  pi_agent_version :: string
  pi_latest_height :: u64
  pi_is_validator :: bool
  pi_connected_since :: Instant
  pi_score :: rat

record P2PConfig =
  pc_listen_addr :: SocketAddr
  pc_external_addr :: "SocketAddr option"
  pc_bootstrap_peers :: "SocketAddr list"
  pc_max_peers :: nat
  pc_gossip_fanout :: nat
  pc_heartbeat_interval :: Duration
  pc_dial_timeout :: Duration

definition P2PConfig_default :: "v6_text \<Rightarrow> P2PConfig exec" where
  "P2PConfig_default v6 = do {
     addr \<leftarrow> parse_addr v6 ''0.0.0.0:26656'';
     Some \<lparr>pc_listen_addr = addr, pc_external_addr = None, pc_bootstrap_peers = [],
       pc_max_peers = 50, pc_gossip_fanout = 8, pc_heartbeat_interval = from_secs 10,
       pc_dial_timeout = from_secs 5\<rparr> }"

definition TransportConfig_from :: "v6_text \<Rightarrow> P2PConfig \<Rightarrow> TransportConfig exec" where
  "TransportConfig_from v6 config = do {
     base \<leftarrow> TransportConfig_default v6;
     Some (base\<lparr>tc_listen_addr := pc_listen_addr config, tc_dial_timeout := pc_dial_timeout config\<rparr>) }"

definition DiscoveryConfig_from :: "P2PConfig \<Rightarrow> DiscoveryConfig" where
  "DiscoveryConfig_from config =
     DiscoveryConfig_default\<lparr>dc_bootstrap_peers := pc_bootstrap_peers config,
       dc_max_peers := pc_max_peers config\<rparr>"

datatype P2PEvent =
    PE_PeerConnected bytes32 SocketAddr
  | PE_PeerDisconnected bytes32
  | PE_MessageReceived P2PMessage
  | PE_Heartbeat

record 'st P2PManager =
  p2_config :: P2PConfig
  p2_transport :: "'st TransportManager"
  p2_discovery :: DiscoveryManager
  p2_peers :: "(bytes32, PeerInfo) hashmap"
  p2_events :: "P2PEvent list"
  p2_messages :: "(P2PMessage \<times> bytes32) list"

definition P2PManager_new :: "v6_text \<Rightarrow> P2PConfig \<Rightarrow> 'st P2PManager exec" where
  "P2PManager_new v6 config = do {
     tc \<leftarrow> TransportConfig_from v6 config;
     Some \<lparr>p2_config = config, p2_transport = TransportManager_new tc,
       p2_discovery = DiscoveryManager_new (DiscoveryConfig_from config),
       p2_peers = hm_new, p2_events = [], p2_messages = []\<rparr> }"

section \<open>Operations\<close>

fun dial_all ::
  "(nat \<Rightarrow> SocketAddr \<Rightarrow> (string, 'st) result) \<Rightarrow> nat \<Rightarrow> (SocketAddr \<times> bytes32) list \<Rightarrow>
   'st TransportManager \<Rightarrow> 'st TransportManager" where
  "dial_all connect n [] t = t"
| "dial_all connect n ((addr, _) # rest) t =
     dial_all connect (Suc n) rest (snd (dial (connect n addr) addr t))"

definition p2p_start ::
  "net_env \<Rightarrow> ((bytes32 \<times> TrackedPeer) list \<Rightarrow> (bytes32 \<times> TrackedPeer) list) \<Rightarrow> (nat \<Rightarrow> Instant) \<Rightarrow>
   (nat \<Rightarrow> SocketAddr \<Rightarrow> (string, 'st) result) \<Rightarrow> 'st P2PManager \<Rightarrow>
   (string, unit) result \<times> 'st P2PManager" where
  "p2p_start env shuffle clock connect m =
     (let d = bootstrap env clock (p2_discovery m);
          targets = peers_to_connect shuffle env d (pc_max_peers (p2_config m));
          t = dial_all connect 0 targets (p2_transport m)
      in (Ok (), m\<lparr>p2_discovery := d, p2_transport := t\<rparr>))"

definition dial_peer ::
  "(nat \<Rightarrow> SocketAddr \<Rightarrow> (string, 'st) result) \<Rightarrow> SocketAddr \<Rightarrow> 'st P2PManager \<Rightarrow>
   (string, unit) result \<times> 'st P2PManager" where
  "dial_peer connect addr m =
     (case dial (connect 0 addr) addr (p2_transport m) of
        (r, t) \<Rightarrow> (r, m\<lparr>p2_transport := t\<rparr>))"

definition p2p_broadcast :: "'st tokio \<Rightarrow> P2PMessage \<Rightarrow> 'st P2PManager \<Rightarrow> 'st P2PManager" where
  "p2p_broadcast tk msg m = m\<lparr>p2_transport := transport_broadcast tk msg (p2_transport m)\<rparr>"

definition send_to :: "'st tokio \<Rightarrow> P2PMessage \<Rightarrow> bytes32 \<Rightarrow> 'st P2PManager \<Rightarrow> 'st P2PManager" where
  "send_to tk msg peer_id m = m\<lparr>p2_transport := snd (send tk peer_id msg (p2_transport m))\<rparr>"

definition peer_count :: "'st P2PManager \<Rightarrow> nat" where
  "peer_count m = active_connections (p2_transport m)"

definition peer_list :: "'st P2PManager \<Rightarrow> PeerInfo list" where
  "peer_list m = map snd (p2_peers m)"

section \<open>Reachable managers\<close>

inductive p2p_step :: "net_env \<Rightarrow> 'st tokio \<Rightarrow> 'st P2PManager \<Rightarrow> 'st P2PManager \<Rightarrow> bool" for env tk where
  starting: "p2p_step env tk m (snd (p2p_start env shuffle clock connect m))"
| dialing: "p2p_step env tk m (snd (dial_peer connect addr m))"
| broadcasting: "p2p_step env tk m (p2p_broadcast tk msg m)"
| sending: "p2p_step env tk m (send_to tk msg i m)"

text \<open>
  The manager never tells discovery about its connections, so every known peer stays
  \<open>Discovered\<close>, and it never fills its own peer table.
\<close>

definition p2p_inv :: "'st P2PManager \<Rightarrow> bool" where
  "p2p_inv m \<longleftrightarrow> transport_inv (p2_transport m) \<and> disc_inv (p2_discovery m) \<and>
     (\<forall>i p. lookup_peer (p2_discovery m) i = Some p \<longrightarrow> tp_status p = Discovered) \<and>
     dm_banned (p2_discovery m) = {} \<and> p2_peers m = []"

lemma P2PManager_new_returns: "\<exists>m. P2PManager_new v6 config = Some m"
  by (simp add: P2PManager_new_def TransportConfig_from_def TransportConfig_default_def
      parse_addr_literal)

lemma p2p_inv_new: "P2PManager_new v6 config = Some m \<Longrightarrow> p2p_inv m"
  using disc_inv_new [of "DiscoveryConfig_from config"]
  by (auto simp: P2PManager_new_def p2p_inv_def transport_inv_new hm_new_def
      DiscoveryManager_new_def hm_get_def split: Option.bind_splits)

lemma transport_inv_dial_all: "transport_inv t \<Longrightarrow> transport_inv (dial_all connect n targets t)"
  by (induction connect n targets t rule: dial_all.induct) (simp_all add: transport_inv_dial)

lemma status_add_peers:
  "(\<forall>i p. lookup_peer d i = Some p \<longrightarrow> tp_status p = Discovered) \<Longrightarrow>
   lookup_peer (add_peers env rs d) i = Some p \<Longrightarrow> tp_status p = Discovered"
  by (induction env rs d rule: add_peers.induct)
    (auto simp: dm_peers_add_peer fresh_peer_def split: if_splits)

interpretation net: kept_invariant "p2p_step env tk" p2p_inv
proof
  fix m n :: "'a P2PManager"
  assume "p2p_step env tk m n" and "p2p_inv m"
  then show "p2p_inv n"
  proof (induction rule: p2p_step.induct)
    case (starting m shuffle clock connect)
    then show ?case
      using status_add_peers [of "p2_discovery m" env]
      by (auto simp: p2p_inv_def p2p_start_def Let_def transport_inv_dial_all disc_inv_add_peers
          bootstrap_def)
  next
    case (dialing m connect addr)
    then show ?case by (simp add: p2p_inv_def dial_peer_def split_beta transport_inv_dial)
  qed (simp_all add: p2p_inv_def p2p_broadcast_def send_to_def transport_inv_send
      transport_inv_sends transport_broadcast_def)
qed

lemma shuffle_single: "permutes_lists shuffle \<Longrightarrow> shuffle [x] = [x]"
  by (simp add: permutes_lists_def flip: mset_single_iff_right)

lemma peers_to_connect_single:
  assumes "permutes_lists shuffle" and "dm_peers d = [(i, p)]" and "connectable d p"
    and "peer_addr env p = Some a" and "0 < cnt"
  shows "peers_to_connect shuffle env d cnt = [(a, i)]"
  using assms
  by (cases cnt) (simp_all add: peers_to_connect_map candidates_def shuffle_single)

section \<open>Properties\<close>

text \<open>
  Starting a new manager that has IPv4 seeds always returns \<open>Ok\<close>. Of all the seeds only
  the last one is kept and dialed: the connections afterwards are the one stream that this
  dial opened, or none when it failed.
\<close>

lemma start_dials_last_seed:
  assumes "P2PManager_new v6 config = Some m" and "permutes_lists shuffle"
    and "pc_bootstrap_peers config = seeds @ [V4 a b c d port]" and "0 < pc_max_peers config"
  shows "case p2p_start env shuffle clock connect m of (r, m') \<Rightarrow>
    r = Ok () \<and> known_peers_count (p2_discovery m') = 1 \<and>
    tm_connections (p2_transport m') =
      (case connect 0 (V4 a b c d port) of Inr s \<Rightarrow> [(replicate 32 0, s)] | Inl _ \<Rightarrow> [])"
proof -
  let ?d = "bootstrap env clock (DiscoveryManager_new (DiscoveryConfig_from config))"
  let ?p = "fresh_peer (clock (length seeds)) (bootstrap_record env (V4 a b c d port))"
  have m: "p2_discovery m = DiscoveryManager_new (DiscoveryConfig_from config)" "p2_config m = config"
    "tm_connections (p2_transport m) = []"
    using assms(1)
    by (auto simp: P2PManager_new_def TransportManager_new_def hm_new_def split: Option.bind_splits)
  have d: "dm_peers ?d = [(replicate 32 0, ?p)]"
    by (rule bootstrap_new) (simp add: DiscoveryConfig_from_def assms(3))
  have "dm_banned ?d = {}" by (simp add: bootstrap_def DiscoveryManager_new_def)
  with assms(4) have "peers_to_connect shuffle env ?d (pc_max_peers config) =
      [(V4 a b c d port, replicate 32 0)]"
    by (intro peers_to_connect_single [OF assms(2) d])
      (simp_all add: connectable_def fresh_peer_def bootstrap_record_def del: addr_to_string.simps)
  with d m show ?thesis
    by (auto simp: p2p_start_def Let_def known_peers_count_def hm_len_def dial_Ok dial_Err
        hm_insert_def split: sum.splits)
qed

definition seeded :: P2PConfig where
  "seeded = \<lparr>pc_listen_addr = V4 0 0 0 0 26656, pc_external_addr = None,
     pc_bootstrap_peers = [V4 10 0 0 1 26656, V4 10 0 0 2 26656], pc_max_peers = 50,
     pc_gossip_fanout = 8, pc_heartbeat_interval = 0, pc_dial_timeout = 0\<rparr>"

definition seeded_manager :: "u8 list P2PManager" where
  "seeded_manager = the (P2PManager_new (ne_v6 env4) seeded)"

lemma seeded_manager_new: "P2PManager_new (ne_v6 env4) seeded = Some seeded_manager"
  by (simp add: seeded_manager_def P2PManager_new_def TransportConfig_from_def
      TransportConfig_default_def parse_addr_literal)

lemma start_dials_last_seed_witness:
  "case p2p_start env4 rev (\<lambda>n. n) (\<lambda>n addr. Ok [7]) seeded_manager of (r, m') \<Rightarrow>
    r = Ok () \<and> known_peers_count (p2_discovery m') = 1 \<and>
    tm_connections (p2_transport m') = [(replicate 32 0, [7])]"
  using start_dials_last_seed [OF seeded_manager_new, where shuffle = rev and env = env4
      and seeds = "[V4 10 0 0 1 26656]" and clock = "\<lambda>n. n" and connect = "\<lambda>n addr. Ok [7]"]
  by (simp add: seeded_def permutes_lists_def)

text \<open>
  Whatever is started, dialed, broadcast and sent, the manager has at most one connection,
  its list of connected peers is empty, and discovery counts no peer as connected and so keeps
  asking for more.
\<close>

lemma manager_sees_no_peers:
  assumes "P2PManager_new v6 config = Some m" and "(p2p_step env tk)\<^sup>*\<^sup>* m n"
  shows "peer_count n \<le> 1 \<and> peer_list n = [] \<and> connected_count (p2_discovery n) = 0"
proof -
  have inv: "p2p_inv n" using assms(2) p2p_inv_new [OF assms(1)] by (rule net.steps_inv)
  then have none: "{i. \<exists>p. lookup_peer (p2_discovery n) i = Some p \<and> tp_status p = Connected} = {}"
    by (fastforce simp: p2p_inv_def)
  from inv have "hm_wf (dm_peers (p2_discovery n))" by (simp add: p2p_inv_def disc_inv_def)
  then have "connected_count (p2_discovery n) = 0" by (simp only: connected_count_card none card.empty)
  with inv transport_inv_count [of "p2_transport n"] show ?thesis
    by (simp add: p2p_inv_def peer_count_def peer_list_def)
qed

lemma manager_sees_no_peers_witness:
  "let n = snd (p2p_start env4 rev (\<lambda>n. n) (\<lambda>n addr. Ok [7]) seeded_manager) in
   peer_count n \<le> 1 \<and> peer_list n = [] \<and> connected_count (p2_discovery n) = 0"
  unfolding Let_def
  by (rule manager_sees_no_peers [OF seeded_manager_new, of env4 buffer_tokio], rule r_into_rtranclp)
    (rule p2p_step.starting)

text \<open>A manager with one connection writes every broadcast to that stream.\<close>

lemma broadcast_single:
  assumes "tm_connections (p2_transport m) = [(i, s)]"
  shows "tm_connections (p2_transport (p2p_broadcast tk msg m)) = [(i, fst (write_frame tk msg s))]"
  using assms
  by (simp add: p2p_broadcast_def transport_broadcast_def send_def hm_keys_def hm_get_def hm_insert_def split_beta)

lemma broadcasts_single:
  assumes "healthy tk sent" and "list_all2 (encodes tk) msgs datas"
    and "tm_connections (p2_transport m) = [(i, s)]"
  shows "\<exists>s'. tm_connections (p2_transport (fold (p2p_broadcast tk) msgs m)) = [(i, s')] \<and>
    sent s' = sent s @ concat (map (\<lambda>data. to_be_bytes (len_as_u32 data) @ data) datas)"
  using assms(2,3)
proof (induction arbitrary: m s rule: list_all2_induct)
  case (Cons msg msgs data datas)
  from Cons.IH [OF broadcast_single [OF Cons.prems, of tk msg]] write_frame_healthy(2) [OF assms(1) Cons.hyps(1), of s]
  show ?case by auto
qed simp

lemma broadcasts_peers: "p2_peers (fold (p2p_broadcast tk) msgs m) = p2_peers m"
  by (induction msgs arbitrary: m) (simp_all add: p2p_broadcast_def)

text \<open>
  C14: From configuration to the wire: a new manager is started on its IPv4 seeds and then
  broadcasts messages. If the dial of the last seed opens a fresh healthy stream, there is
  exactly this one connection, the bytes on it decode, frame by frame, to the encodings of the
  messages in the order of the calls, and the manager still lists no peer.
\<close>

theorem broadcasts_arrive_in_order:
  assumes "P2PManager_new v6 config = Some m" and "permutes_lists shuffle"
    and "pc_bootstrap_peers config = seeds @ [V4 a b c d port]" and "0 < pc_max_peers config"
    and "connect 0 (V4 a b c d port) = Ok s" and "sent s = []"
    and "healthy tk sent" and "list_all2 (encodes tk) msgs datas"
  shows "case fold (p2p_broadcast tk) msgs (snd (p2p_start env shuffle clock connect m)) of n \<Rightarrow>
    peer_count n = 1 \<and> peer_list n = [] \<and>
    (\<exists>s'. tm_connections (p2_transport n) = [(replicate 32 0, s')] \<and> read_frames (sent s') = Some datas)"
proof -
  let ?m = "snd (p2p_start env shuffle clock connect m)"
  have "tm_connections (p2_transport ?m) = [(replicate 32 0, s)]"
    using start_dials_last_seed [OF assms(1-4), where env = env and clock = clock and connect = connect] assms(5) by (simp add: split_beta)
  from broadcasts_single [OF assms(7,8) this] obtain s' where s':
    "tm_connections (p2_transport (fold (p2p_broadcast tk) msgs ?m)) = [(replicate 32 0, s')]"
    "sent s' = concat (map (\<lambda>data. to_be_bytes (len_as_u32 data) @ data) datas)"
    using assms(6) by auto
  have "p2_peers ?m = []"
    using p2p_inv_new [OF assms(1)] by (simp add: p2p_inv_def p2p_start_def Let_def)
  then show ?thesis
    using s' read_frames_concat [OF encodes_length [OF assms(8)]]
    by (simp add: peer_count_def active_connections_def hm_len_def peer_list_def broadcasts_peers)
qed

theorem broadcasts_arrive_in_order_witness:
  "case fold (p2p_broadcast buffer_tokio) [Transaction [7, 8], Ping]
      (snd (p2p_start env4 rev (\<lambda>n. n) (\<lambda>n addr. Ok []) seeded_manager)) of n \<Rightarrow>
    peer_count n = 1 \<and>
    (\<exists>s'. tm_connections (p2_transport n) = [(replicate 32 0, s')] \<and> read_frames s' = Some [[7, 8], []])"
  using broadcasts_arrive_in_order [OF seeded_manager_new, where shuffle = rev and env = env4 and clock = "\<lambda>n. n"
      and connect = "\<lambda>n addr. Ok []" and s = "[]" and sent = id and tk = buffer_tokio
      and seeds = "[V4 10 0 0 1 26656]" and msgs = "[Transaction [7, 8], Ping]" and datas = "[[7, 8], []]"]
    buffer_healthy
  by (simp add: seeded_def permutes_lists_def encodes_def buffer_tokio_def)

end
