(* ===== verification/Node_Core.thy ===== *)
theory Node_Core
  imports Net_Addr Complex_Main
begin

text \<open>
  The crate \<open>node/node-core\<close>: node types, errors, configuration, metrics and the runtime.
  Each operation holds the lock of what it touches for its whole body, so it is a function
  of the state; sums on counters follow the build profile. Paths are strings, and sent
  events are logged in \<open>rt_events\<close>.
\<close>

section \<open>Types\<close>

datatype NodeId = NodeId (node_bytes: "u8 list")

definition NodeId_from_bytes :: "u8 list \<Rightarrow> NodeId" where
  "NodeId_from_bytes bytes = NodeId (copy_prefix (replicate 20 0) bytes)"

datatype BlockHeight = BlockHeight (height_value: u64)

text \<open>The derived order compares the wrapped numbers.\<close>

instantiation BlockHeight :: linorder
begin

definition less_eq_BlockHeight :: "BlockHeight \<Rightarrow> BlockHeight \<Rightarrow> bool" where
  "less_eq_BlockHeight a b \<longleftrightarrow> height_value a \<le> height_value b"

definition less_BlockHeight :: "BlockHeight \<Rightarrow> BlockHeight \<Rightarrow> bool" where
  "less_BlockHeight a b \<longleftrightarrow> height_value a < height_value b"

instance
  by standard (auto simp: less_eq_BlockHeight_def less_BlockHeight_def intro: BlockHeight.expand)

end

definition GENESIS :: BlockHeight where
  "GENESIS = BlockHeight 0"

definition increment :: "profile \<Rightarrow> BlockHeight \<Rightarrow> BlockHeight exec" where
  "increment pr h = do { n \<leftarrow> add_uint pr (height_value h) 1; Some (BlockHeight n) }"

definition BlockHeight_to_string :: "BlockHeight \<Rightarrow> string" where
  "BlockHeight_to_string h = show_nat (unat (height_value h))"

datatype SyncStatus =
    Booting
  | Syncing BlockHeight BlockHeight
  | InSync
  | Stalled

fun SyncStatus_to_string :: "SyncStatus \<Rightarrow> string" where
  "SyncStatus_to_string Booting = ''Booting''"
| "SyncStatus_to_string (Syncing current target) =
     ''Syncing ('' @ BlockHeight_to_string current @ ''/'' @ BlockHeight_to_string target @ '')''"
| "SyncStatus_to_string InSync = ''In Sync''"
| "SyncStatus_to_string Stalled = ''Stalled''"

record NodeInfo =
  ni_node_id :: NodeId
  ni_version :: string
  ni_uptime_secs :: u64
  ni_sync_status :: SyncStatus
  ni_latest_block_height :: BlockHeight
  ni_peer_count :: nat
  ni_is_validator :: bool

datatype NodeEvent =
    Started
  | ShuttingDown string
  | SyncedToTip BlockHeight
  | BlockCommitted BlockHeight
  | RoundStarted u64
  | NE_PeerConnected NodeId SocketAddr
  | NE_PeerDisconnected NodeId
  | NE_Error string
  | MetricsTick

text \<open>\<open>cpu_usage\<close> is a float that nothing writes; it is kept as a rational.\<close>

record NodeMetrics =
  nm_blocks_received :: u64
  nm_blocks_proposed :: u64
  nm_transactions_processed :: u64
  nm_peers_connected :: u32
  nm_mempool_size :: usize
  nm_cpu_usage :: rat
  nm_memory_usage_bytes :: u64
  nm_network_bytes_in :: u64
  nm_network_bytes_out :: u64

definition NodeMetrics_default :: NodeMetrics where
  "NodeMetrics_default = \<lparr>nm_blocks_received = 0, nm_blocks_proposed = 0,
     nm_transactions_processed = 0, nm_peers_connected = 0, nm_mempool_size = 0, nm_cpu_usage = 0,
     nm_memory_usage_bytes = 0, nm_network_bytes_in = 0, nm_network_bytes_out = 0\<rparr>"

section \<open>Errors\<close>

datatype NodeError =
    Config string
  | Init string
  | Network string
  | Consensus string
  | Storage_error string
  | Sync string
  | Runtime string
  | Io string

fun NodeError_to_string :: "NodeError \<Rightarrow> string" where
  "NodeError_to_string (Config msg) = ''Config error: '' @ msg"
| "NodeError_to_string (Init msg) = ''Init error: '' @ msg"
| "NodeError_to_string (Network msg) = ''Network error: '' @ msg"
| "NodeError_to_string (Consensus msg) = ''Consensus error: '' @ msg"
| "NodeError_to_string (Storage_error msg) = ''Storage error: '' @ msg"
| "NodeError_to_string (Sync msg) = ''Sync error: '' @ msg"
| "NodeError_to_string (Runtime msg) = ''Runtime error: '' @ msg"
| "NodeError_to_string (Io msg) = ''IO error: '' @ msg"

definition NodeError_from_string :: "string \<Rightarrow> NodeError" where
  "NodeError_from_string msg = Runtime msg"

text \<open>The argument is the text of the \<open>std::io::Error\<close>.\<close>

definition NodeError_from_io :: "string \<Rightarrow> NodeError" where
  "NodeError_from_io err = Io err"

section \<open>Configuration\<close>

datatype LevelFilter = Off | Error_level | Warn | Info | Debug | Trace

record NodeConfig =
  nc_listen_addr :: SocketAddr
  nc_external_addr :: "SocketAddr option"
  nc_bootstrap_peers :: "SocketAddr list"
  nc_max_peers :: nat
  nc_chain_id :: string
  nc_genesis_path :: string
  nc_data_dir :: string
  nc_validator_key_path :: "string option"
  nc_timeout_propose :: Duration
  nc_timeout_prevote :: Duration
  nc_timeout_precommit :: Duration
  nc_db_path :: string
  nc_max_block_size_bytes :: u64
  nc_prune_after_blocks :: "u64 option"
  nc_rpc_addr :: SocketAddr
  nc_rpc_enabled :: bool
  nc_ws_enabled :: bool
  nc_log_level :: LevelFilter
  nc_log_file :: "string option"

definition NodeConfig_default :: "v6_text \<Rightarrow> NodeConfig exec" where
  "NodeConfig_default v6 = do {
     listen_addr \<leftarrow> parse_addr v6 ''0.0.0.0:26656'';
     rpc_addr \<leftarrow> parse_addr v6 ''127.0.0.1:26657'';
     Some \<lparr>nc_listen_addr = listen_addr, nc_external_addr = None, nc_bootstrap_peers = [],
       nc_max_peers = 50, nc_chain_id = ''crypto-coin-mainnet-1'',
       nc_genesis_path = ''genesis.json'', nc_data_dir = ''data'', nc_validator_key_path = None,
       nc_timeout_propose = from_secs 3, nc_timeout_prevote = from_secs 1,
       nc_timeout_precommit = from_secs 1, nc_db_path = ''data/blockchain.db'',
       nc_max_block_size_bytes = 2 * 1024 * 1024, nc_prune_after_blocks = Some 100000,
       nc_rpc_addr = rpc_addr, nc_rpc_enabled = True, nc_ws_enabled = True, nc_log_level = Info,
       nc_log_file = None\<rparr> }"

text \<open>\<open>PathBuf::join\<close> with a relative file name, on a Unix path.\<close>

definition path_join :: "string \<Rightarrow> string \<Rightarrow> string" where
  "path_join dir file = (if dir = [] \<or> last dir = CHR ''/'' then dir @ file else dir @ ''/'' @ file)"

definition test_config :: "v6_text \<Rightarrow> string \<Rightarrow> NodeConfig exec" where
  "test_config v6 data_dir = do {
     base \<leftarrow> NodeConfig_default v6;
     Some (base\<lparr>nc_data_dir := data_dir, nc_db_path := path_join data_dir ''blockchain.db'',
       nc_genesis_path := path_join data_dir ''genesis.json''\<rparr>) }"

definition validate_config :: "NodeConfig \<Rightarrow> (string, unit) result" where
  "validate_config c =
     (if nc_chain_id c = [] then Err ''chain_id must not be empty''
      else if nc_max_peers c = 0 then Err ''max_peers must be > 0''
      else if nc_max_block_size_bytes c = 0 then Err ''max_block_size_bytes must be > 0''
      else Ok ())"

section \<open>Metrics\<close>

text \<open>
  The collector shares the metrics with the runtime behind a lock: its operations act on the
  metrics, and \<open>mc_started_at\<close> is its own field.
\<close>

record MetricsCollector =
  mc_metrics :: NodeMetrics
  mc_started_at :: Instant

definition MetricsCollector_new :: "Instant \<Rightarrow> NodeMetrics \<Rightarrow> MetricsCollector" where
  "MetricsCollector_new now metrics = \<lparr>mc_metrics = metrics, mc_started_at = now\<rparr>"

definition record_block_received :: "profile \<Rightarrow> NodeMetrics \<Rightarrow> NodeMetrics exec" where
  "record_block_received pr m =
     do { n \<leftarrow> add_uint pr (nm_blocks_received m) 1; Some (m\<lparr>nm_blocks_received := n\<rparr>) }"

definition record_block_proposed :: "profile \<Rightarrow> NodeMetrics \<Rightarrow> NodeMetrics exec" where
  "record_block_proposed pr m =
     do { n \<leftarrow> add_uint pr (nm_blocks_proposed m) 1; Some (m\<lparr>nm_blocks_proposed := n\<rparr>) }"

definition record_tx_processed :: "profile \<Rightarrow> NodeMetrics \<Rightarrow> NodeMetrics exec" where
  "record_tx_processed pr m =
     do { n \<leftarrow> add_uint pr (nm_transactions_processed m) 1;
          Some (m\<lparr>nm_transactions_processed := n\<rparr>) }"

definition record_bytes_in :: "profile \<Rightarrow> u64 \<Rightarrow> NodeMetrics \<Rightarrow> NodeMetrics exec" where
  "record_bytes_in pr bytes m =
     do { n \<leftarrow> add_uint pr (nm_network_bytes_in m) bytes; Some (m\<lparr>nm_network_bytes_in := n\<rparr>) }"

definition record_bytes_out :: "profile \<Rightarrow> u64 \<Rightarrow> NodeMetrics \<Rightarrow> NodeMetrics exec" where
  "record_bytes_out pr bytes m =
     do { n \<leftarrow> add_uint pr (nm_network_bytes_out m) bytes; Some (m\<lparr>nm_network_bytes_out := n\<rparr>) }"

definition set_peer_count :: "u32 \<Rightarrow> NodeMetrics \<Rightarrow> NodeMetrics" where
  "set_peer_count n m = m\<lparr>nm_peers_connected := n\<rparr>"

definition set_mempool_size :: "usize \<Rightarrow> NodeMetrics \<Rightarrow> NodeMetrics" where
  "set_mempool_size n m = m\<lparr>nm_mempool_size := n\<rparr>"

text \<open>\<open>Duration::as_secs\<close> is a \<open>u64\<close>.\<close>

definition elapsed_secs :: "Instant \<Rightarrow> Instant \<Rightarrow> u64" where
  "elapsed_secs now started_at = word_of_nat ((now - started_at) div 10 ^ 9)"

definition uptime_secs :: "Instant \<Rightarrow> MetricsCollector \<Rightarrow> u64" where
  "uptime_secs now mc = elapsed_secs now (mc_started_at mc)"

definition snapshot :: "MetricsCollector \<Rightarrow> NodeMetrics" where
  "snapshot mc = mc_metrics mc"

section \<open>Runtime\<close>

text \<open>
  \<open>spawn\<close> gives every task a clone of the receiver of the shutdown channel, which the type of
  the receiver does not offer; the clones are read as sharing the one queue of the channel, so
  that a signal is received once. The channel is a parameter: \<open>ch_send\<close> and \<open>ch_recv\<close> take the
  number of unread signals (\<open>rt_signals\<close>) to the number afterwards, and \<open>None\<close> means that the
  call waits. A task is the state of its \<open>select!\<close>: whether its future ends at some time,
  whether it was given a receiver, and whether one of the two branches has ended it.
\<close>

record channel =
  ch_send :: "nat \<Rightarrow> nat exec"
  ch_recv :: "nat \<Rightarrow> nat exec"

record Task =
  tk_ends :: bool
  tk_rx :: bool
  tk_done :: bool

record NodeRuntime =
  rt_config :: NodeConfig
  rt_node_id :: NodeId
  rt_started_at :: Instant
  rt_sync_status :: SyncStatus
  rt_latest_height :: BlockHeight
  rt_events :: "NodeEvent list"
  rt_signals :: nat
  rt_shutdown_rx :: "unit option"
  rt_handles :: "Task list"
  rt_metrics :: NodeMetrics

definition NodeRuntime_new :: "Instant \<Rightarrow> NodeConfig \<Rightarrow> NodeId \<Rightarrow> NodeRuntime" where
  "NodeRuntime_new now config node_id =
     \<lparr>rt_config = config, rt_node_id = node_id, rt_started_at = now, rt_sync_status = Booting,
      rt_latest_height = GENESIS, rt_events = [], rt_signals = 0,
      rt_shutdown_rx = Some (), rt_handles = [],
      rt_metrics = NodeMetrics_default\<rparr>"

definition rt_send_event :: "NodeEvent \<Rightarrow> NodeRuntime \<Rightarrow> NodeRuntime" where
  "rt_send_event e rt = rt\<lparr>rt_events := rt_events rt @ [e]\<rparr>"

definition runtime_start :: "NodeRuntime \<Rightarrow> (NodeError, unit) result \<times> NodeRuntime" where
  "runtime_start rt = (Ok (), rt_send_event Started (rt\<lparr>rt_sync_status := InSync\<rparr>))"

text \<open>
  A turn of the scheduler lets one task take a branch of its \<open>select!\<close>: its future ends, or it
  receives a signal, which leaves the channel. A turn that is not possible is \<open>None\<close>.
\<close>

datatype turn = FutureEnds nat | SignalReceived nat

definition finish_task :: "nat \<Rightarrow> NodeRuntime \<Rightarrow> NodeRuntime" where
  "finish_task i rt = rt\<lparr>rt_handles := (rt_handles rt)[i := (rt_handles rt ! i)\<lparr>tk_done := True\<rparr>]\<rparr>"

definition is_running :: "nat \<Rightarrow> NodeRuntime \<Rightarrow> bool" where
  "is_running i rt \<longleftrightarrow> i < length (rt_handles rt) \<and> \<not> tk_done (rt_handles rt ! i)"

fun task_turn :: "channel \<Rightarrow> turn \<Rightarrow> NodeRuntime \<Rightarrow> NodeRuntime exec" where
  "task_turn ch (FutureEnds i) rt =
     (if is_running i rt \<and> tk_ends (rt_handles rt ! i) then Some (finish_task i rt) else None)"
| "task_turn ch (SignalReceived i) rt =
     (if is_running i rt \<and> tk_rx (rt_handles rt ! i)
      then do { n \<leftarrow> ch_recv ch (rt_signals rt); Some (finish_task i (rt\<lparr>rt_signals := n\<rparr>)) }
      else None)"

fun task_turns :: "channel \<Rightarrow> turn list \<Rightarrow> NodeRuntime \<Rightarrow> NodeRuntime exec" where
  "task_turns ch [] rt = Some rt"
| "task_turns ch (t # ts) rt = do { rt \<leftarrow> task_turn ch t rt; task_turns ch ts rt }"

text \<open>
  The tasks go on while \<open>shutdown\<close> waits, first for room in the channel and then for the
  handles: their turns in the two phases are arguments. The first phase is everything up to the
  end of \<open>send\<close>; the second ends when every task has ended.
\<close>

definition shutdown_signal :: "channel \<Rightarrow> turn list \<Rightarrow> string \<Rightarrow> NodeRuntime \<Rightarrow> NodeRuntime exec" where
  "shutdown_signal ch sending reason rt = do {
     rt \<leftarrow> task_turns ch sending (rt_send_event (ShuttingDown reason) rt);
     n \<leftarrow> ch_send ch (rt_signals rt);
     Some (rt\<lparr>rt_signals := n\<rparr>) }"

definition shutdown_join :: "channel \<Rightarrow> turn list \<Rightarrow> NodeRuntime \<Rightarrow> NodeRuntime exec" where
  "shutdown_join ch joining rt = do {
     rt \<leftarrow> task_turns ch joining rt;
     (if list_all tk_done (rt_handles rt) then Some (rt\<lparr>rt_handles := []\<rparr>) else None) }"

definition shutdown :: "channel \<Rightarrow> turn list \<Rightarrow> turn list \<Rightarrow> string \<Rightarrow> NodeRuntime \<Rightarrow> NodeRuntime exec" where
  "shutdown ch sending joining reason rt = do {
     rt \<leftarrow> shutdown_signal ch sending reason rt;
     shutdown_join ch joining rt }"

definition info :: "Instant \<Rightarrow> NodeRuntime \<Rightarrow> NodeInfo" where
  "info now rt =
     \<lparr>ni_node_id = rt_node_id rt, ni_version = ''0.1.0'',
      ni_uptime_secs = elapsed_secs now (rt_started_at rt), ni_sync_status = rt_sync_status rt,
      ni_latest_block_height = rt_latest_height rt, ni_peer_count = 0,
      ni_is_validator = (nc_validator_key_path (rt_config rt) \<noteq> None)\<rparr>"

definition runtime_metrics :: "NodeRuntime \<Rightarrow> NodeMetrics" where
  "runtime_metrics rt = rt_metrics rt"

definition runtime_config :: "NodeRuntime \<Rightarrow> NodeConfig" where
  "runtime_config rt = rt_config rt"

definition runtime_node_id :: "NodeRuntime \<Rightarrow> NodeId" where
  "runtime_node_id rt = rt_node_id rt"

definition update_height :: "BlockHeight \<Rightarrow> NodeRuntime \<Rightarrow> NodeRuntime" where
  "update_height h rt =
     (if h > rt_latest_height rt then rt\<lparr>rt_latest_height := h\<rparr> else rt)"

definition update_sync_status :: "SyncStatus \<Rightarrow> NodeRuntime \<Rightarrow> NodeRuntime" where
  "update_sync_status status rt = rt\<lparr>rt_sync_status := status\<rparr>"

definition spawn :: "bool \<Rightarrow> NodeRuntime \<Rightarrow> NodeRuntime" where
  "spawn future_ends rt =
     (let shutdown_rx = map_option (\<lambda>rx. rx) (rt_shutdown_rx rt);
          handle = \<lparr>tk_ends = future_ends, tk_rx = (shutdown_rx \<noteq> None), tk_done = False\<rparr>
      in rt\<lparr>rt_handles := rt_handles rt @ [handle]\<rparr>)"

section \<open>Sequences of calls\<close>

datatype metric_op =
    BlockReceived
  | BlockProposed
  | TxProcessed
  | BytesIn u64
  | BytesOut u64
  | PeerCount u32
  | MempoolSize usize

fun apply_metric :: "profile \<Rightarrow> metric_op \<Rightarrow> NodeMetrics \<Rightarrow> NodeMetrics exec" where
  "apply_metric pr BlockReceived m = record_block_received pr m"
| "apply_metric pr BlockProposed m = record_block_proposed pr m"
| "apply_metric pr TxProcessed m = record_tx_processed pr m"
| "apply_metric pr (BytesIn n) m = record_bytes_in pr n m"
| "apply_metric pr (BytesOut n) m = record_bytes_out pr n m"
| "apply_metric pr (PeerCount n) m = Some (set_peer_count n m)"
| "apply_metric pr (MempoolSize n) m = Some (set_mempool_size n m)"

fun apply_metrics :: "profile \<Rightarrow> metric_op list \<Rightarrow> NodeMetrics \<Rightarrow> NodeMetrics exec" where
  "apply_metrics pr [] m = Some m"
| "apply_metrics pr (op # ops) m = do { m \<leftarrow> apply_metric pr op m; apply_metrics pr ops m }"

text \<open>Calls of the runtime, with turns of its tasks between them.\<close>

datatype runtime_op =
    StartNode
  | ShutdownNode "turn list" "turn list" string
  | NewHeight BlockHeight
  | NewStatus SyncStatus
  | SpawnTask bool
  | TaskTurn turn

fun apply_runtime :: "channel \<Rightarrow> runtime_op \<Rightarrow> NodeRuntime \<Rightarrow> NodeRuntime exec" where
  "apply_runtime ch StartNode rt = Some (snd (runtime_start rt))"
| "apply_runtime ch (ShutdownNode sending joining reason) rt = shutdown ch sending joining reason rt"
| "apply_runtime ch (NewHeight h) rt = Some (update_height h rt)"
| "apply_runtime ch (NewStatus status) rt = Some (update_sync_status status rt)"
| "apply_runtime ch (SpawnTask future_ends) rt = Some (spawn future_ends rt)"
| "apply_runtime ch (TaskTurn t) rt = task_turn ch t rt"

fun run_runtime :: "channel \<Rightarrow> runtime_op list \<Rightarrow> NodeRuntime \<Rightarrow> NodeRuntime exec" where
  "run_runtime ch [] rt = Some rt"
| "run_runtime ch (op # ops) rt = do { rt \<leftarrow> apply_runtime ch op rt; run_runtime ch ops rt }"

section \<open>Small facts\<close>

lemma node_bytes_length [wf_intros]: "length (node_bytes (NodeId_from_bytes bytes)) = 20"
  by (simp add: NodeId_from_bytes_def)

lemma NodeError_to_string_inject [simp]: "NodeError_to_string e = NodeError_to_string f \<longleftrightarrow> e = f"
  by (cases e; cases f) auto

lemma SyncStatus_to_string_kind:
  "SyncStatus_to_string x = SyncStatus_to_string y \<Longrightarrow>
     (x = Booting \<longleftrightarrow> y = Booting) \<and> (x = InSync \<longleftrightarrow> y = InSync) \<and> (x = Stalled \<longleftrightarrow> y = Stalled)"
  by (cases x; cases y) auto

lemma rpc_addr_literal: "parse_addr v6 ''127.0.0.1:26657'' = Some (V4 127 0 0 1 26657)"
proof -
  have "addr_to_string v6 (V4 127 0 0 1 26657) = ''127.0.0.1:26657''"
    by (simp add: show_nat.simps digit_char_def char_of_def bit_0)
  then show ?thesis by (metis parse_addr_V4)
qed

text \<open>The built-in configurations are accepted by their own validation.\<close>

lemma default_config_valid:
  "\<exists>c. NodeConfig_default v6 = Some c \<and> validate_config c = Ok ()"
  "\<exists>c. test_config v6 dir = Some c \<and> validate_config c = Ok ()"
  by (simp_all add: NodeConfig_default_def test_config_def validate_config_def parse_addr_literal
      rpc_addr_literal)

lemma increment_exact:
  "unat (height_value h) + 1 < 2 ^ 64 \<Longrightarrow>
   \<exists>h'. increment pr h = Some h' \<and> unat (height_value h') = unat (height_value h) + 1"
  using add_uint_exact [of "height_value h" 1 pr] by (auto simp: increment_def add_overflows_def)

section \<open>Counters\<close>

datatype counter = CReceived | CProposed | CTx | CIn | COut

fun counter_value :: "counter \<Rightarrow> NodeMetrics \<Rightarrow> u64" where
  "counter_value CReceived m = nm_blocks_received m"
| "counter_value CProposed m = nm_blocks_proposed m"
| "counter_value CTx m = nm_transactions_processed m"
| "counter_value CIn m = nm_network_bytes_in m"
| "counter_value COut m = nm_network_bytes_out m"

fun amount :: "counter \<Rightarrow> metric_op \<Rightarrow> u64" where
  "amount CReceived BlockReceived = 1"
| "amount CProposed BlockProposed = 1"
| "amount CTx TxProcessed = 1"
| "amount CIn (BytesIn n) = n"
| "amount COut (BytesOut n) = n"
| "amount _ _ = 0"

definition counter_total :: "counter \<Rightarrow> metric_op list \<Rightarrow> NodeMetrics \<Rightarrow> nat" where
  "counter_total c ops m = unat (counter_value c m) + sum_list (map (\<lambda>op. unat (amount c op)) ops)"

lemmas metric_defs = record_block_received_def record_block_proposed_def record_tx_processed_def
  record_bytes_in_def record_bytes_out_def set_peer_count_def set_mempool_size_def

lemma all_counters:
  "(\<forall>c. P c) \<longleftrightarrow> P CReceived \<and> P CProposed \<and> P CTx \<and> P CIn \<and> P COut"
  by (metis counter.exhaust)

lemma apply_metric_Release:
  "\<exists>m'. apply_metric Release op m = Some m' \<and>
     (\<forall>c. counter_value c m' = counter_value c m + amount c op)"
  by (cases op) (simp_all add: metric_defs add_uint_def all_counters)

lemma apply_metric_Dev:
  "apply_metric Dev op m =
     (if \<forall>c. \<not> add_overflows (counter_value c m) (amount c op) then apply_metric Release op m else None)"
proof -
  have "\<not> add_overflows (counter_value c m) 0" for c
    using unsigned_less [where ?'a = nat, of "counter_value c m"] by (simp add: add_overflows_def)
  then show ?thesis
    by (cases op) (simp_all add: metric_defs add_uint_def all_counters flip: counter_value.simps)
qed

lemma counter_step:
  assumes "\<forall>c. counter_value c m' = counter_value c m + amount c op"
  shows "(\<forall>c. counter_total c (op # ops) m < 2 ^ 64) \<longleftrightarrow>
    (\<forall>c. \<not> add_overflows (counter_value c m) (amount c op)) \<and> (\<forall>c. counter_total c ops m' < 2 ^ 64)"
proof -
  have "counter_total c (op # ops) m < 2 ^ 64 \<longleftrightarrow>
      \<not> add_overflows (counter_value c m) (amount c op) \<and> counter_total c ops m' < 2 ^ 64" for c
    using assms add_uint_exact [of "counter_value c m" "amount c op"]
    by (auto simp: counter_total_def add_overflows_def)
  then show ?thesis by blast
qed

lemma apply_metrics_Release:
  "\<exists>m'. apply_metrics Release ops m = Some m' \<and>
     (\<forall>c. counter_value c m' = counter_value c m + sum_list (map (amount c) ops))"
proof (induction ops arbitrary: m)
  case Nil
  show ?case by simp
next
  case (Cons op ops)
  from apply_metric_Release [of op m] obtain n where
    "apply_metric Release op m = Some n" "\<forall>c. counter_value c n = counter_value c m + amount c op"
    by blast
  with Cons [of n] show ?case by (auto simp: add.assoc)
qed

lemma apply_metrics_Dev:
  "apply_metrics Dev ops m =
     (if \<forall>c. counter_total c ops m < 2 ^ 64 then apply_metrics Release ops m else None)"
proof (induction ops arbitrary: m)
  case Nil
  have "counter_total c [] m < 2 ^ 64" for c
    using unsigned_less [where ?'a = nat, of "counter_value c m"] by (simp add: counter_total_def)
  then show ?case by simp
next
  case (Cons op ops)
  from apply_metric_Release [of op m] obtain n where n:
    "apply_metric Release op m = Some n" "\<forall>c. counter_value c n = counter_value c m + amount c op"
    by blast
  show ?case
    using Cons [of n] counter_step [OF n(2), of ops] n(1) by (simp only: apply_metrics.simps apply_metric_Dev) simp
qed

section \<open>Calls of the runtime\<close>

fun heights :: "runtime_op list \<Rightarrow> BlockHeight list" where
  "heights [] = []"
| "heights (NewHeight h # ops) = h # heights ops"
| "heights (_ # ops) = heights ops"

lemma rt_send_event_simps [simp]:
  "rt_latest_height (rt_send_event e rt) = rt_latest_height rt"
  "rt_signals (rt_send_event e rt) = rt_signals rt"
  "rt_handles (rt_send_event e rt) = rt_handles rt"
  by (simp_all add: rt_send_event_def)

lemma finish_task_simps [simp]:
  "rt_latest_height (finish_task i rt) = rt_latest_height rt"
  "rt_signals (finish_task i rt) = rt_signals rt"
  "rt_shutdown_rx (finish_task i rt) = rt_shutdown_rx rt"
  by (simp_all add: finish_task_def)

lemma task_turn_height: "task_turn ch t rt = Some rt' \<Longrightarrow> rt_latest_height rt' = rt_latest_height rt"
  by (cases t) (auto split: if_splits Option.bind_splits)

lemma task_turns_height: "task_turns ch ts rt = Some rt' \<Longrightarrow> rt_latest_height rt' = rt_latest_height rt"
  by (induction ts arbitrary: rt) (auto dest: task_turn_height split: Option.bind_splits)

lemma shutdown_height: "shutdown ch sending joining reason rt = Some rt' \<Longrightarrow> rt_latest_height rt' = rt_latest_height rt"
  by (auto simp: shutdown_def shutdown_signal_def shutdown_join_def dest!: task_turns_height
      split: Option.bind_splits if_splits)

lemma run_runtime_height:
  "run_runtime ch ops rt = Some rt' \<Longrightarrow>
     rt_latest_height rt' = fold max (heights ops) (rt_latest_height rt)"
proof (induction ops arbitrary: rt)
  case (Cons op ops)
  then show ?case
    by (cases op) (auto simp: runtime_start_def update_height_def update_sync_status_def
        spawn_def max_def dest: task_turn_height shutdown_height split: Option.bind_splits if_splits)
qed simp

section \<open>Tasks and the shutdown channel\<close>

text \<open>What \<open>mpsc::channel(1)\<close> promises: room for one signal, and a signal is received once.\<close>

definition capacity_one :: "channel \<Rightarrow> bool" where
  "capacity_one ch \<longleftrightarrow> (\<forall>n. ch_send ch n = (if n < 1 then Some (Suc n) else None)
     \<and> ch_recv ch n = (if 0 < n then Some (n - 1) else None))"

text \<open>The tasks that still run, and those among them whose future never ends.\<close>

definition running :: "NodeRuntime \<Rightarrow> nat" where
  "running rt = length (filter (\<lambda>t. \<not> tk_done t) (rt_handles rt))"

definition endless :: "NodeRuntime \<Rightarrow> nat" where
  "endless rt = length (filter (\<lambda>t. \<not> tk_done t \<and> \<not> tk_ends t) (rt_handles rt))"

definition runtime_ok :: "NodeRuntime \<Rightarrow> bool" where
  "runtime_ok rt \<longleftrightarrow> rt_signals rt \<le> 1 \<and> rt_shutdown_rx rt \<noteq> None \<and> list_all tk_rx (rt_handles rt)"

lemma filter_update:
  "i < length xs \<Longrightarrow> length (filter P (xs[i := y])) + of_bool (P (xs ! i)) = length (filter P xs) + of_bool (P y)"
proof (induction xs arbitrary: i)
  case (Cons x xs)
  then show ?case by (cases i) auto
qed simp

lemma finish_task_counts:
  assumes "is_running i rt"
  shows "running rt = Suc (running (finish_task i rt))"
    and "endless rt = endless (finish_task i rt) + of_bool (\<not> tk_ends (rt_handles rt ! i))"
  using assms filter_update [of i "rt_handles rt" "\<lambda>t. \<not> tk_done t" "(rt_handles rt ! i)\<lparr>tk_done := True\<rparr>"]
    filter_update [of i "rt_handles rt" "\<lambda>t. \<not> tk_done t \<and> \<not> tk_ends t" "(rt_handles rt ! i)\<lparr>tk_done := True\<rparr>"]
  by (simp_all add: is_running_def running_def endless_def finish_task_def)

lemma counts_signals [simp]:
  "running (rt\<lparr>rt_signals := n\<rparr>) = running rt" "endless (rt\<lparr>rt_signals := n\<rparr>) = endless rt"
  "is_running i (rt\<lparr>rt_signals := n\<rparr>) = is_running i rt"
  "running (rt_send_event e rt) = running rt" "endless (rt_send_event e rt) = endless rt"
  "is_running i (rt_send_event e rt) = is_running i rt"
  by (simp_all add: running_def endless_def is_running_def)

lemma endless_le_running: "endless rt \<le> running rt"
proof -
  have "length (filter (\<lambda>t. P t \<and> Q t) xs) \<le> length (filter P xs)" for P Q and xs :: "Task list"
    by (induction xs) auto
  then show ?thesis by (simp add: endless_def running_def)
qed

lemma running_pos_iff: "0 < running rt \<longleftrightarrow> (\<exists>i. is_running i rt)"
  by (auto simp: running_def is_running_def filter_empty_conv set_conv_nth)

lemma endless_pos_iff: "0 < endless rt \<longleftrightarrow> (\<exists>i. is_running i rt \<and> \<not> tk_ends (rt_handles rt ! i))"
  by (auto simp: endless_def is_running_def filter_empty_conv set_conv_nth)

lemma all_done_iff: "list_all tk_done (rt_handles rt) \<longleftrightarrow> running rt = 0"
  by (simp add: running_def filter_empty_conv list_all_iff)

lemma runtime_ok_rx: "runtime_ok rt \<Longrightarrow> is_running i rt \<Longrightarrow> tk_rx (rt_handles rt ! i)"
  by (simp add: runtime_ok_def is_running_def list_all_length)

lemma finish_task_ok: "runtime_ok rt \<Longrightarrow> is_running i rt \<Longrightarrow> runtime_ok (finish_task i rt)"
  by (auto simp: runtime_ok_def is_running_def finish_task_def list_all_iff dest!: set_update_subset_insert [THEN subsetD])

lemma runtime_ok_signals: "runtime_ok rt \<Longrightarrow> n \<le> 1 \<Longrightarrow> runtime_ok (rt\<lparr>rt_signals := n\<rparr>)"
  by (simp add: runtime_ok_def)

lemma receive_turn:
  assumes "capacity_one ch" and "runtime_ok rt" and "is_running i rt" and "0 < rt_signals rt"
  shows "task_turn ch (SignalReceived i) rt = Some (finish_task i (rt\<lparr>rt_signals := rt_signals rt - 1\<rparr>))"
  using assms by (simp add: capacity_one_def runtime_ok_rx)

text \<open>A turn ends one task, and one that never ends by itself costs a signal.\<close>

lemma task_turn_counts:
  assumes "capacity_one ch" and "task_turn ch t rt = Some rt'"
  shows "running rt = Suc (running rt') \<and> endless rt + rt_signals rt' \<le> endless rt' + rt_signals rt
    \<and> endless rt' \<le> endless rt \<and> rt_signals rt' \<le> rt_signals rt \<and> (runtime_ok rt \<longrightarrow> runtime_ok rt')"
proof (cases t)
  case (FutureEnds i)
  with assms(2) have i: "is_running i rt" and "tk_ends (rt_handles rt ! i)" and rt': "rt' = finish_task i rt"
    by (simp_all split: if_splits)
  then have "endless rt = endless rt'" using finish_task_counts(2) [OF i] by simp
  then show ?thesis using finish_task_counts(1) [OF i] finish_task_ok [OF _ i] by (simp add: rt')
next
  case (SignalReceived i)
  let ?rt = "rt\<lparr>rt_signals := rt_signals rt - 1\<rparr>"
  have recv: "ch_recv ch (rt_signals rt) = (if 0 < rt_signals rt then Some (rt_signals rt - 1) else None)"
    using assms(1) unfolding capacity_one_def by blast
  from SignalReceived assms(2) have i: "is_running i ?rt" and s: "0 < rt_signals rt" and rt': "rt' = finish_task i ?rt"
    by (simp_all add: recv split: if_splits)
  have "runtime_ok rt \<Longrightarrow> runtime_ok ?rt" unfolding runtime_ok_def by simp
  then have ok: "runtime_ok rt \<longrightarrow> runtime_ok rt'" unfolding rt' using finish_task_ok [OF _ i] by blast
  have "endless rt \<le> endless rt' + 1" "endless rt' \<le> endless rt"
    using finish_task_counts(2) [OF i] by (simp_all add: rt' of_bool_def split: if_splits)
  moreover have "running rt = Suc (running rt')" using finish_task_counts(1) [OF i] by (simp add: rt')
  moreover have "rt_signals rt = Suc (rt_signals rt')" using s by (simp add: rt')
  ultimately show ?thesis using ok by simp
qed

lemma task_turns_counts:
  assumes "capacity_one ch" and "task_turns ch ts rt = Some rt'"
  shows "running rt = running rt' + length ts \<and> endless rt + rt_signals rt' \<le> endless rt' + rt_signals rt
    \<and> endless rt' \<le> endless rt \<and> rt_signals rt' \<le> rt_signals rt \<and> (runtime_ok rt \<longrightarrow> runtime_ok rt')"
  using assms(2)
proof (induction ts arbitrary: rt)
  case (Cons t ts)
  then obtain rt1 where "task_turn ch t rt = Some rt1" "task_turns ch ts rt1 = Some rt'"
    by (auto split: Option.bind_splits)
  with task_turn_counts [OF assms(1), of t rt rt1] Cons.IH [of rt1] show ?case by auto
qed simp

lemma all_tasks_end:
  assumes "capacity_one ch" and "runtime_ok rt" and "endless rt \<le> rt_signals rt"
  shows "\<exists>ts rt'. task_turns ch ts rt = Some rt' \<and> running rt' = 0"
  using assms(2,3)
proof (induction "running rt" arbitrary: rt)
  case 0
  then show ?case by (intro exI [of _ "[]"]) simp
next
  case (Suc n)
  have "\<exists>t rt1. task_turn ch t rt = Some rt1 \<and> endless rt1 \<le> rt_signals rt1"
  proof (cases "endless rt = 0")
    case True
    from Suc.hyps(2) obtain i where i: "is_running i rt" using running_pos_iff [of rt] by auto
    with True have "tk_ends (rt_handles rt ! i)" using endless_pos_iff [of rt] by auto
    with i True show ?thesis using finish_task_counts(2) [OF i] by (intro exI [of _ "FutureEnds i"]) simp
  next
    case False
    then obtain i where i: "is_running i rt" "\<not> tk_ends (rt_handles rt ! i)" using endless_pos_iff [of rt] by auto
    with False Suc.prems receive_turn [OF assms(1) Suc.prems(1) i(1)] show ?thesis
      using finish_task_counts(2) [of i "rt\<lparr>rt_signals := rt_signals rt - 1\<rparr>"]
      by (intro exI [of _ "SignalReceived i"]) simp
  qed
  then obtain t rt1 where t: "task_turn ch t rt = Some rt1" "endless rt1 \<le> rt_signals rt1" by blast
  then obtain ts rt' where "task_turns ch ts rt1 = Some rt'" "running rt' = 0"
    using Suc.hyps task_turn_counts [OF assms(1) t(1)] Suc.prems(1) by (metis Suc_inject)
  with t(1) show ?case by (intro exI [of _ "t # ts"]) simp
qed

text \<open>Waiting for the handles can end exactly when there is a signal for every endless task.\<close>

lemma shutdown_join_possible:
  assumes "capacity_one ch" and "runtime_ok rt"
  shows "(\<exists>joining rt'. shutdown_join ch joining rt = Some rt') \<longleftrightarrow> endless rt \<le> rt_signals rt"
proof
  assume "\<exists>joining rt'. shutdown_join ch joining rt = Some rt'"
  then obtain ts rt1 where ts: "task_turns ch ts rt = Some rt1" "running rt1 = 0"
    unfolding shutdown_join_def all_done_iff bind_eq_Some_conv by (metis option.distinct(1))
  then show "endless rt \<le> rt_signals rt"
    using task_turns_counts [OF assms(1) ts(1)] endless_le_running [of rt1] by linarith
next
  assume "endless rt \<le> rt_signals rt"
  then obtain ts rt1 where "task_turns ch ts rt = Some rt1" "running rt1 = 0"
    using all_tasks_end [OF assms] by blast
  then show "\<exists>joining rt'. shutdown_join ch joining rt = Some rt'"
    by (intro exI [of _ ts]) (simp add: shutdown_join_def all_done_iff)
qed

lemma shutdown_signal_Some:
  assumes "capacity_one ch" and "shutdown_signal ch sending reason rt = Some rt1"
  shows "rt_signals rt1 = 1 \<and> running rt = running rt1 + length sending
    \<and> endless rt \<le> endless rt1 + rt_signals rt \<and> endless rt1 \<le> endless rt
    \<and> (sending = [] \<longrightarrow> rt_signals rt = 0) \<and> (runtime_ok rt \<longrightarrow> runtime_ok rt1)"
proof -
  from assms obtain rt0 where rt0: "task_turns ch sending (rt_send_event (ShuttingDown reason) rt) = Some rt0"
    and "rt_signals rt0 = 0" "rt1 = rt0\<lparr>rt_signals := 1\<rparr>"
    by (auto simp: shutdown_signal_def capacity_one_def split: Option.bind_splits if_splits)
  moreover have "runtime_ok rt \<longrightarrow> runtime_ok (rt_send_event (ShuttingDown reason) rt)"
    by (simp add: runtime_ok_def rt_send_event_def)
  ultimately show ?thesis using task_turns_counts [OF assms(1) rt0]
    by (auto simp: runtime_ok_signals)
qed

lemma shutdown_can_complete:
  assumes "capacity_one ch" and "runtime_ok rt"
  shows "(\<exists>sending joining rt'. shutdown ch sending joining reason rt = Some rt') \<longleftrightarrow>
    endless rt \<le> rt_signals rt + 1 \<and> (rt_signals rt = 0 \<or> 0 < running rt)"
proof -
  have "(\<exists>sending joining rt'. shutdown ch sending joining reason rt = Some rt') \<longleftrightarrow>
      (\<exists>sending rt1. shutdown_signal ch sending reason rt = Some rt1 \<and> endless rt1 \<le> 1)"
    unfolding shutdown_def bind_eq_Some_conv
    using shutdown_join_possible [OF assms(1)] shutdown_signal_Some [OF assms(1)] assms(2) by metis
  also have "\<dots> \<longleftrightarrow> endless rt \<le> rt_signals rt + 1 \<and> (rt_signals rt = 0 \<or> 0 < running rt)"
  proof
    assume "\<exists>sending rt1. shutdown_signal ch sending reason rt = Some rt1 \<and> endless rt1 \<le> 1"
    then obtain sending rt1 where "shutdown_signal ch sending reason rt = Some rt1" "endless rt1 \<le> 1" by blast
    with shutdown_signal_Some [OF assms(1) this(1)]
    show "endless rt \<le> rt_signals rt + 1 \<and> (rt_signals rt = 0 \<or> 0 < running rt)" by (cases sending) auto
  next
    assume *: "endless rt \<le> rt_signals rt + 1 \<and> (rt_signals rt = 0 \<or> 0 < running rt)"
    let ?e = "rt_send_event (ShuttingDown reason) rt"
    show "\<exists>sending rt1. shutdown_signal ch sending reason rt = Some rt1 \<and> endless rt1 \<le> 1"
    proof (cases "rt_signals rt = 0")
      case True
      with * assms(1) show ?thesis by (intro exI [of _ "[]"]) (simp add: shutdown_signal_def capacity_one_def)
    next
      case False
      with assms(2) have one: "rt_signals rt = 1" by (simp add: runtime_ok_def)
      from * False obtain i where i: "is_running i rt" "0 < endless rt \<longrightarrow> \<not> tk_ends (rt_handles rt ! i)"
        using running_pos_iff [of rt] endless_pos_iff [of rt] by metis
      have ok: "runtime_ok ?e" using assms(2) by (simp add: runtime_ok_def rt_send_event_def)
      let ?rt = "finish_task i (?e\<lparr>rt_signals := 0\<rparr>)"
      have "task_turn ch (SignalReceived i) ?e = Some ?rt"
        using receive_turn [OF assms(1) ok, of i] i(1) one by simp
      then have "shutdown_signal ch [SignalReceived i] reason rt = Some (?rt\<lparr>rt_signals := 1\<rparr>)"
        using assms(1) by (simp add: shutdown_signal_def capacity_one_def)
      moreover have "endless ?rt \<le> 1"
        using finish_task_counts(2) [of i "?e\<lparr>rt_signals := 0\<rparr>"] i one * by (auto simp: of_bool_def split: if_splits)
      ultimately show ?thesis by (intro exI [of _ "[SignalReceived i]"]) simp
    qed
  qed
  finally show ?thesis .
qed

text \<open>Every state that calls and turns reach has at most one signal and a receiver for every task.\<close>

lemma run_runtime_ok:
  assumes "capacity_one ch"
  shows "runtime_ok rt \<Longrightarrow> run_runtime ch ops rt = Some rt' \<Longrightarrow> runtime_ok rt'"
proof (induction ops arbitrary: rt)
  case (Cons op ops)
  from Cons.prems(2) obtain rt1 where rt1: "apply_runtime ch op rt = Some rt1" "run_runtime ch ops rt1 = Some rt'"
    by (auto split: Option.bind_splits)
  have "runtime_ok rt1"
  proof (cases op)
    case (ShutdownNode sending joining reason)
    with rt1(1) obtain rt2 rt3 where rt2: "shutdown_signal ch sending reason rt = Some rt2"
      and rt3: "task_turns ch joining rt2 = Some rt3" and "rt1 = rt3\<lparr>rt_handles := []\<rparr>"
      by (auto simp: shutdown_def shutdown_join_def split: Option.bind_splits if_splits)
    moreover have "runtime_ok rt3"
      using shutdown_signal_Some [OF assms rt2] task_turns_counts [OF assms rt3] Cons.prems(1) by blast
    ultimately show ?thesis by (simp add: runtime_ok_def)
  next
    case (TaskTurn t)
    with rt1(1) Cons.prems(1) show ?thesis using task_turn_counts [OF assms, of t rt rt1] by simp
  qed (use rt1(1) Cons.prems(1) in \<open>auto simp: runtime_ok_def runtime_start_def rt_send_event_def
      update_height_def update_sync_status_def spawn_def Let_def\<close>)
  with Cons.IH rt1(2) show ?case by blast
qed simp

lemma reachable_ok:
  assumes "capacity_one ch" and "run_runtime ch ops (NodeRuntime_new now config i) = Some rt"
  shows "runtime_ok rt"
  using run_runtime_ok [OF assms(1) _ assms(2)] by (simp add: runtime_ok_def NodeRuntime_new_def)

lemma stuck_schedule:
  assumes "capacity_one ch" and "runtime_ok rt" and "rt_signals rt = 1" and "0 < endless rt" and "1 < running rt"
  shows "\<exists>t rt'. task_turn ch t rt = Some rt' \<and> rt_signals rt' = 0 \<and> 0 < endless rt'"
proof -
  from assms(4) obtain i where i: "is_running i rt" "\<not> tk_ends (rt_handles rt ! i)" using endless_pos_iff by blast
  with assms(5) have "0 < running (finish_task i rt)" using finish_task_counts(1) [of i rt] by simp
  then obtain j where "is_running j (finish_task i rt)" using running_pos_iff by blast
  then have j: "is_running j rt" "j \<noteq> i"
    using i(1) by (cases "j = i"; simp add: is_running_def finish_task_def)+
  let ?rt = "finish_task j (rt\<lparr>rt_signals := 0\<rparr>)"
  have "is_running i ?rt" "\<not> tk_ends (rt_handles ?rt ! i)"
    using i j(2) by (simp_all add: is_running_def finish_task_def)
  then have "0 < endless ?rt" using endless_pos_iff by blast
  with receive_turn [OF assms(1,2) j(1)] assms(3) show ?thesis by (intro exI [of _ "SignalReceived j"]) simp
qed

lemma never_stuck:
  assumes "capacity_one ch" and "runtime_ok rt" and "endless rt = 0 \<or> running rt \<le> 1"
    and signal: "shutdown_signal ch sending reason rt = Some rt1" and turns: "task_turns ch ts rt1 = Some rt2"
  shows "\<exists>joining rt'. shutdown_join ch joining rt2 = Some rt'"
proof -
  note a = shutdown_signal_Some [OF assms(1) signal] and b = task_turns_counts [OF assms(1) turns]
  have le: "endless rt1 \<le> endless rt" "running rt1 \<le> running rt" "endless rt2 \<le> endless rt1"
    and len: "running rt1 = running rt2 + length ts" using a b by simp_all
  have "endless rt2 \<le> rt_signals rt2"
  proof (cases ts)
    case Nil
    with turns a have "rt2 = rt1" "rt_signals rt2 = 1" by simp_all
    with le assms(3) endless_le_running [of rt1] show ?thesis by auto
  next
    case (Cons t ts')
    then have "1 \<le> length ts" by simp
    with le len assms(3) endless_le_running [of rt2] show ?thesis by linarith
  qed
  moreover from a b assms(2) have "runtime_ok rt2" by blast
  ultimately show ?thesis using shutdown_join_possible [OF assms(1)] by blast
qed

lemma stuck_shutdown:
  assumes "capacity_one ch" and "runtime_ok rt" and "rt_signals rt = 0" and "0 < endless rt" and "1 < running rt"
  shows "\<exists>rt1 t rt2. shutdown_signal ch [] reason rt = Some rt1 \<and> task_turns ch [t] rt1 = Some rt2 \<and>
    \<not> (\<exists>joining rt'. shutdown_join ch joining rt2 = Some rt')"
proof -
  let ?rt1 = "(rt_send_event (ShuttingDown reason) rt)\<lparr>rt_signals := 1\<rparr>"
  have signal: "shutdown_signal ch [] reason rt = Some ?rt1"
    using assms(1,3) by (simp add: shutdown_signal_def capacity_one_def)
  then have ok: "runtime_ok ?rt1" using shutdown_signal_Some [OF assms(1)] assms(2) by blast
  obtain t rt2 where t: "task_turn ch t ?rt1 = Some rt2" "rt_signals rt2 = 0" "0 < endless rt2"
    using stuck_schedule [OF assms(1) ok] assms(4,5) by auto
  have "runtime_ok rt2" using task_turn_counts [OF assms(1) t(1)] ok by blast
  from shutdown_join_possible [OF assms(1) this] t(2,3)
  have "\<not> (\<exists>joining rt'. shutdown_join ch joining rt2 = Some rt')" by (metis not_le)
  moreover have "task_turns ch [t] ?rt1 = Some rt2" using t(1) by simp
  ultimately show ?thesis using signal by blast
qed

section \<open>Properties\<close>

text \<open>
  C40: Over any sequence of recordings, a release build always returns and each of the five
  counters grows by the sum of its recorded amounts modulo \<open>2 ^ 64\<close>. A dev build returns
  exactly when no counter's true total reaches \<open>2 ^ 64\<close>, and then with the same metrics.
\<close>

theorem metrics_totals:
  "(\<exists>m'. apply_metrics Release ops m = Some m' \<and>
      (\<forall>c. counter_value c m' = counter_value c m + sum_list (map (amount c) ops))) \<and>
   apply_metrics Dev ops m =
     (if \<forall>c. counter_total c ops m < 2 ^ 64 then apply_metrics Release ops m else None)"
  using apply_metrics_Release apply_metrics_Dev by blast

text \<open>
  Whatever calls are made on a new runtime, the height it reports is the greatest height
  ever passed to \<open>update_height\<close> (genesis when there was none): late or repeated updates
  never move it back.
\<close>

lemma runtime_height_is_max:
  assumes "run_runtime ch ops (NodeRuntime_new now config i) = Some rt"
  shows "ni_latest_block_height (info later rt) = Max (set (GENESIS # heights ops))"
  using run_runtime_height [OF assms]
  by (simp add: info_def NodeRuntime_new_def Max.set_eq_fold del: set_simps list.set)

definition test_rt_config :: NodeConfig where
  "test_rt_config = the (NodeConfig_default \<lparr>show_v6 = (\<lambda>_. []), parse_v6 = (\<lambda>_. None)\<rparr>)"

definition new_rt :: NodeRuntime where
  "new_rt = NodeRuntime_new 0 test_rt_config (NodeId (replicate 20 0))"

definition mpsc_one :: channel where
  "mpsc_one = \<lparr>ch_send = (\<lambda>n. if n < 1 then Some (Suc n) else None),
     ch_recv = (\<lambda>n. if 0 < n then Some (n - 1) else None)\<rparr>"

lemma mpsc_one_law: "capacity_one mpsc_one"
  by (simp add: capacity_one_def mpsc_one_def)

lemma runtime_height_is_max_witness:
  "\<exists>rt. run_runtime mpsc_one [NewHeight (BlockHeight 7), StartNode, NewHeight (BlockHeight 3)] new_rt = Some rt \<and>
     ni_latest_block_height (info 9 rt) = Max (set [GENESIS, BlockHeight 7, BlockHeight 3])"
proof -
  obtain rt where rt: "run_runtime mpsc_one
      [NewHeight (BlockHeight 7), StartNode, NewHeight (BlockHeight 3)] new_rt = Some rt" by simp
  with runtime_height_is_max [OF rt [unfolded new_rt_def], of 9] show ?thesis by simp
qed

text \<open>
  C16: When a graceful shutdown can complete. Take any runtime that calls and turns of its tasks
  lead to from a new one, over a channel that holds one signal and delivers a signal once. There
  is a schedule under which \<open>shutdown\<close> returns if and only if the tasks whose future never ends
  are at most one more than the unread signals and, when a signal is unread, some task is left
  to receive it. So one call stops one task: with two endless tasks the first \<open>shutdown\<close> never
  returns, and after a shutdown whose signal nobody received a second one never returns.
\<close>

theorem shutdown_completes_iff:
  assumes "capacity_one ch" and "run_runtime ch ops (NodeRuntime_new now config i) = Some rt"
  shows "(\<exists>sending joining rt'. shutdown ch sending joining reason rt = Some rt') \<longleftrightarrow>
    endless rt \<le> rt_signals rt + 1 \<and> (rt_signals rt = 0 \<or> 0 < running rt)"
  using assms(1) reachable_ok [OF assms] by (rule shutdown_can_complete)

lemma mpsc_one_simps [simp]:
  "ch_send mpsc_one n = (if n < 1 then Some (Suc n) else None)"
  "ch_recv mpsc_one n = (if 0 < n then Some (n - 1) else None)"
  by (simp_all add: mpsc_one_def)

lemmas runtime_eval = new_rt_def NodeRuntime_new_def spawn_def shutdown_def shutdown_signal_def shutdown_join_def
  rt_send_event_def is_running_def finish_task_def running_def endless_def Let_def

theorem shutdown_completes_iff_witness:
  "(\<exists>rt sending joining rt'. run_runtime mpsc_one [SpawnTask False, SpawnTask True] new_rt = Some rt \<and>
      shutdown mpsc_one sending joining [] rt = Some rt') \<and>
   (\<exists>rt. run_runtime mpsc_one [SpawnTask False, SpawnTask False] new_rt = Some rt \<and>
      (\<forall>sending joining. shutdown mpsc_one sending joining [] rt = None)) \<and>
   (\<exists>rt. run_runtime mpsc_one [ShutdownNode [] [] []] new_rt = Some rt \<and>
      (\<forall>sending joining. shutdown mpsc_one sending joining [] rt = None))"
proof -
  note iff = shutdown_completes_iff [OF mpsc_one_law, of _ 0 test_rt_config "NodeId (replicate 20 0)", folded new_rt_def]
  obtain rt where rt: "run_runtime mpsc_one [SpawnTask False, SpawnTask True] new_rt = Some rt" by simp
  then have "endless rt = 1" "rt_signals rt = 0" by (auto simp: runtime_eval)
  with iff [OF rt, of "[]"] rt have A: "\<exists>rt sending joining rt'.
      run_runtime mpsc_one [SpawnTask False, SpawnTask True] new_rt = Some rt \<and>
      shutdown mpsc_one sending joining [] rt = Some rt'" by auto
  obtain rt2 where rt2: "run_runtime mpsc_one [SpawnTask False, SpawnTask False] new_rt = Some rt2" by simp
  then have "endless rt2 = 2" "rt_signals rt2 = 0" by (auto simp: runtime_eval)
  with iff [OF rt2, of "[]"] have B: "\<forall>sending joining. shutdown mpsc_one sending joining [] rt2 = None" by auto
  obtain rt3 where rt3: "run_runtime mpsc_one [ShutdownNode [] [] []] new_rt = Some rt3"
    by (simp add: runtime_eval)
  then have "running rt3 = 0" "rt_signals rt3 = 1" by (auto simp: runtime_eval)
  with iff [OF rt3, of "[]"] have C: "\<forall>sending joining. shutdown mpsc_one sending joining [] rt3 = None" by auto
  from A B C rt2 rt3 show ?thesis by blast
qed

text \<open>
  C33: When a graceful shutdown must complete. In such a runtime with no unread signal, however
  the tasks are scheduled while the signal is sent and afterwards, it stays possible that
  \<open>shutdown\<close> returns, if and only if no running task is endless or at most one task runs. An
  endless task beside any other one may therefore hang the shutdown, since the other one may
  receive the only signal.
\<close>

theorem shutdown_never_stuck_iff:
  assumes "capacity_one ch" and "run_runtime ch ops (NodeRuntime_new now config i) = Some rt" and "rt_signals rt = 0"
  shows "(\<forall>sending rt1 ts rt2. shutdown_signal ch sending reason rt = Some rt1 \<and> task_turns ch ts rt1 = Some rt2 \<longrightarrow>
      (\<exists>joining rt'. shutdown_join ch joining rt2 = Some rt')) \<longleftrightarrow> endless rt = 0 \<or> running rt \<le> 1"
  using never_stuck [OF assms(1) reachable_ok [OF assms(1,2)]]
    stuck_shutdown [OF assms(1) reachable_ok [OF assms(1,2)] assms(3), of reason]
  by (metis bot_nat_0.not_eq_extremum not_le)

theorem shutdown_never_stuck_iff_witness:
  "\<exists>rt sending rt1 ts rt2. run_runtime mpsc_one [SpawnTask False, SpawnTask True] new_rt = Some rt \<and>
     shutdown_signal mpsc_one sending [] rt = Some rt1 \<and> task_turns mpsc_one ts rt1 = Some rt2 \<and>
     (\<forall>joining. shutdown_join mpsc_one joining rt2 = None)"
proof -
  obtain rt where rt: "run_runtime mpsc_one [SpawnTask False, SpawnTask True] new_rt = Some rt" by simp
  then have "endless rt = 1" "running rt = 2" "rt_signals rt = 0" by (auto simp: runtime_eval)
  with rt shutdown_never_stuck_iff [OF mpsc_one_law, of _ 0 test_rt_config "NodeId (replicate 20 0)",
      folded new_rt_def, OF rt, of "[]"] show ?thesis by fastforce
qed

end
