(* ===== verification/Api.thy ===== *)
theory Api
  imports Node_Core
begin

text \<open>
  The crate \<open>node/api\<close>: configuration and JSON-RPC envelopes. A \<open>serde_json::Value\<close> is a
  value of the type parameter \<open>'json\<close>. The server modules \<open>rpc\<close>, \<open>ws\<close> and
  \<open>rest\<close> that the crate declares are not in the repository.
\<close>

record ApiConfig =
  ac_rpc_addr :: SocketAddr
  ac_rpc_enabled :: bool
  ac_ws_addr :: SocketAddr
  ac_ws_enabled :: bool
  ac_cors_allowed_origins :: "string list"
  ac_max_request_size :: nat

definition ApiConfig_default :: "v6_text \<Rightarrow> ApiConfig exec" where
  "ApiConfig_default v6 = do {
     rpc_addr \<leftarrow> parse_addr v6 ''127.0.0.1:26657'';
     ws_addr \<leftarrow> parse_addr v6 ''127.0.0.1:26658'';
     Some \<lparr>ac_rpc_addr = rpc_addr, ac_rpc_enabled = True, ac_ws_addr = ws_addr,
       ac_ws_enabled = True, ac_cors_allowed_origins = [''*''],
       ac_max_request_size = 10 * 1024 * 1024\<rparr> }"

record 'json JsonRpcRequest =
  rq_jsonrpc :: string
  rq_id :: 'json
  rq_method :: string
  rq_params :: "'json list"

record 'json JsonRpcError =
  je_code :: "32 word"
  je_message :: string
  je_data :: "'json option"

record 'json JsonRpcResponse =
  rs_jsonrpc :: string
  rs_id :: 'json
  rs_result :: "'json option"
  rs_error :: "'json JsonRpcError option"

definition JsonRpcResponse_success :: "'json \<Rightarrow> 'json \<Rightarrow> 'json JsonRpcResponse" where
  "JsonRpcResponse_success i res =
     \<lparr>rs_jsonrpc = ''2.0'', rs_id = i, rs_result = Some res, rs_error = None\<rparr>"

definition JsonRpcResponse_error :: "'json \<Rightarrow> 32 word \<Rightarrow> string \<Rightarrow> 'json JsonRpcResponse" where
  "JsonRpcResponse_error i code message =
     \<lparr>rs_jsonrpc = ''2.0'', rs_id = i, rs_result = None,
      rs_error = Some \<lparr>je_code = code, je_message = message, je_data = None\<rparr>\<rparr>"

record ApiManager =
  am_config :: ApiConfig

definition ApiManager_new :: "ApiConfig \<Rightarrow> ApiManager" where
  "ApiManager_new config = \<lparr>am_config = config\<rparr>"

text \<open>\<open>start\<close> only writes to the log; the lines it logs are the second component.\<close>

definition api_start :: "v6_text \<Rightarrow> ApiManager \<Rightarrow> (string, unit) result \<times> string list" where
  "api_start v6 m =
     (Ok (),
      (if ac_rpc_enabled (am_config m)
       then [''RPC API starting on '' @ addr_to_string v6 (ac_rpc_addr (am_config m))] else []) @
      (if ac_ws_enabled (am_config m)
       then [''WebSocket API starting on '' @ addr_to_string v6 (ac_ws_addr (am_config m))] else []))"

text \<open>
  A response of either constructor carries a result or an error and never both, echoes the
  request's identifier, and the two kinds are told apart.
\<close>

definition response_ok :: "'json \<Rightarrow> 'json JsonRpcResponse \<Rightarrow> bool" where
  "response_ok i r \<longleftrightarrow> rs_jsonrpc r = ''2.0'' \<and> rs_id r = i \<and> (rs_result r = None \<longleftrightarrow> rs_error r \<noteq> None)"

lemma responses_ok:
  "response_ok i (JsonRpcResponse_success i res)" "response_ok i (JsonRpcResponse_error i code msg)"
  "JsonRpcResponse_success i res \<noteq> JsonRpcResponse_error j code msg"
  by (simp_all add: response_ok_def JsonRpcResponse_success_def JsonRpcResponse_error_def)

lemma ws_addr_literal: "parse_addr v6 ''127.0.0.1:26658'' = Some (V4 127 0 0 1 26658)"
proof -
  have "addr_to_string v6 (V4 127 0 0 1 26658) = ''127.0.0.1:26658''"
    by (simp add: show_nat.simps digit_char_def char_of_def bit_0)
  then show ?thesis by (metis parse_addr_V4)
qed

lemma ApiConfig_default_returns: "\<exists>c. ApiConfig_default v6 = Some c \<and> ac_rpc_addr c \<noteq> ac_ws_addr c"
  by (simp add: ApiConfig_default_def rpc_addr_literal ws_addr_literal)

end
