(* ===== verification/Merkle_Spec.thy ===== *)
theory Merkle_Spec
  imports Rust_Prelude
begin

text \<open>
  The abstract specification of a binary hash tree over \<open>2 ^ k\<close> leaves: its root, the
  authentication path of a leaf, and the collision that two conflicting openings of one
  root expose. The interface \<open>merkle_scheme\<close> states what a prover and a verifier have
  to do; its lemmas are proved once for any combining function.
\<close>

section \<open>Root and authentication path of a perfect tree\<close>

fun mroot :: "('h \<Rightarrow> 'h \<Rightarrow> 'h) \<Rightarrow> nat \<Rightarrow> 'h list \<Rightarrow> 'h" where
  "mroot c 0 xs = xs ! 0"
| "mroot c (Suc k) xs = c (mroot c k (take (2 ^ k) xs)) (mroot c k (drop (2 ^ k) xs))"

text \<open>The path is listed from the leaf's sibling upwards.\<close>

fun mpath :: "('h \<Rightarrow> 'h \<Rightarrow> 'h) \<Rightarrow> nat \<Rightarrow> 'h list \<Rightarrow> nat \<Rightarrow> 'h list" where
  "mpath c 0 xs i = []"
| "mpath c (Suc k) xs i =
     (if i < 2 ^ k
      then mpath c k (take (2 ^ k) xs) i @ [mroot c k (drop (2 ^ k) xs)]
      else mpath c k (drop (2 ^ k) xs) (i - 2 ^ k) @ [mroot c k (take (2 ^ k) xs)])"

lemma length_mpath [simp]: "length (mpath c k xs i) = k"
  by (induction c k xs i rule: mpath.induct) auto

section \<open>Extracting a collision\<close>

text \<open>
  Walks two openings of the same position towards the root and returns the first two
  different pairs with one image.
\<close>

fun find_collision ::
  "('h \<Rightarrow> 'h \<Rightarrow> 'h) \<Rightarrow> nat \<Rightarrow> 'h \<Rightarrow> 'h list \<Rightarrow> 'h \<Rightarrow> 'h list \<Rightarrow> (('h \<times> 'h) \<times> 'h \<times> 'h) option" where
  "find_collision c i x (s # ss) y (t # ts) =
     (let p = (if even i then (x, s) else (s, x));
          q = (if even i then (y, t) else (t, y));
          a = c (fst p) (snd p);
          b = c (fst q) (snd q)
      in if a = b \<and> p \<noteq> q then Some (p, q) else find_collision c (i div 2) a ss b ts)"
| "find_collision c i x ss y ts = None"

definition is_collision :: "('h \<Rightarrow> 'h \<Rightarrow> 'h) \<Rightarrow> ('h \<times> 'h) \<times> 'h \<times> 'h \<Rightarrow> bool" where
  "is_collision c pq \<longleftrightarrow>
     fst pq \<noteq> snd pq \<and> c (fst (fst pq)) (snd (fst pq)) = c (fst (snd pq)) (snd (snd pq))"

lemma find_collision_sound:
  "find_collision c i x ss y ts = Some pq \<Longrightarrow> is_collision c pq"
  by (induction c i x ss y ts rule: find_collision.induct)
    (auto simp: Let_def is_collision_def split: if_splits)

section \<open>The interface\<close>

locale merkle_scheme =
  fixes combine :: "'h \<Rightarrow> 'h \<Rightarrow> 'h"
    and climb :: "'h \<Rightarrow> nat \<Rightarrow> 'h list \<Rightarrow> 'h"
    and root :: "'h list \<Rightarrow> 'h exec"
  assumes climb_Nil: "climb x i [] = x"
    and climb_Cons:
      "climb x i (s # ss) = climb (if even i then combine x s else combine s x) (i div 2) ss"
    and root_leaf: "root [x] = Some x"
    and root_node: "xs \<noteq> [] \<Longrightarrow> length xs = length ys \<Longrightarrow>
      root (xs @ ys) = do { a \<leftarrow> root xs; b \<leftarrow> root ys; Some (combine a b) }"
begin

lemma climb_append: "climb x i (ss @ ts) = climb (climb x i ss) (i div 2 ^ length ss) ts"
  by (induction ss arbitrary: x i) (simp_all add: climb_Nil climb_Cons div_mult2_eq)

lemma climb_last:
  "climb x i (ss @ [s]) =
     (if even (i div 2 ^ length ss) then combine (climb x i ss) s else combine s (climb x i ss))"
  by (simp add: climb_append climb_Cons climb_Nil)

text \<open>The low \<open>length ss\<close> bits of the position decide the climb.\<close>

lemma climb_add: "climb x (i + 2 ^ length ss * j) ss = climb x i ss"
proof (induction ss arbitrary: x i)
  case Nil
  then show ?case by (simp add: climb_Nil)
next
  case (Cons s ss)
  have "(i + 2 ^ length (s # ss) * j) div 2 = i div 2 + 2 ^ length ss * j" by simp
  moreover have "even (i + 2 ^ length (s # ss) * j) = even i" by simp
  ultimately show ?case by (simp only: climb_Cons Cons.IH)
qed

lemma root_mroot: "length xs = 2 ^ k \<Longrightarrow> root xs = Some (mroot combine k xs)"
proof (induction k arbitrary: xs)
  case 0
  then obtain x where "xs = [x]" by (auto simp: length_Suc_conv)
  then show ?case by (simp add: root_leaf)
next
  case (Suc k)
  let ?l = "take (2 ^ k) xs" and ?r = "drop (2 ^ k) xs"
  from Suc.prems have len: "length ?l = 2 ^ k" "length ?r = 2 ^ k" by simp_all
  then have "?l \<noteq> []" by (metis list.size(3) power_not_zero zero_neq_numeral)
  with len have "root (?l @ ?r) = do { a \<leftarrow> root ?l; b \<leftarrow> root ?r; Some (combine a b) }"
    by (intro root_node) simp_all
  with len show ?case by (simp add: Suc.IH)
qed

lemma climb_mpath:
  "length xs = 2 ^ k \<Longrightarrow> i < 2 ^ k \<Longrightarrow> climb (xs ! i) i (mpath combine k xs i) = mroot combine k xs"
proof (induction k arbitrary: xs i)
  case 0
  then show ?case by (simp add: climb_Nil)
next
  case (Suc k)
  let ?l = "take (2 ^ k) xs" and ?r = "drop (2 ^ k) xs"
  from Suc.prems have len: "length ?l = 2 ^ k" "length ?r = 2 ^ k" by simp_all
  show ?case
  proof (cases "i < 2 ^ k")
    case True
    with Suc.IH [of ?l i] len show ?thesis by (simp add: climb_last)
  next
    case False
    then obtain j where i: "i = j + 2 ^ k" by (metis add.commute le_Suc_ex not_less)
    with Suc.prems have j: "j < 2 ^ k" by simp
    from climb_add [of "xs ! i" j "mpath combine k ?r j" 1]
    have "climb (xs ! i) i (mpath combine k ?r j) = climb (?r ! j) j (mpath combine k ?r j)"
      using Suc.prems by (simp add: i add.commute)
    moreover from j have "i div 2 ^ k = 1" by (simp add: i div_add_self2)
    ultimately show ?thesis using Suc.IH [of ?r j] len i j by (simp add: climb_last)
  qed
qed

text \<open>Two different openings of one position to one root expose a collision.\<close>

lemma climb_conflict:
  assumes "length ss = length ts" and "climb x i ss = climb y i ts" and "(x, ss) \<noteq> (y, ts)"
  shows "\<exists>pq. find_collision combine i x ss y ts = Some pq \<and> is_collision combine pq"
proof -
  have "find_collision combine i x ss y ts \<noteq> None"
    using assms
  proof (induction ss ts arbitrary: x y i rule: list_induct2)
    case Nil
    then show ?case by (simp add: climb_Nil)
  next
    case (Cons s ss t ts)
    let ?a = "if even i then combine x s else combine s x"
    let ?b = "if even i then combine y t else combine t y"
    have "climb ?a (i div 2) ss = climb ?b (i div 2) ts"
      using Cons.prems(1) by (simp only: climb_Cons)
    with Cons.IH have "(?a, ss) \<noteq> (?b, ts) \<Longrightarrow>
        find_collision combine (i div 2) ?a ss ?b ts \<noteq> None" by blast
    with Cons.prems(2) show ?case by (auto simp: Let_def split: if_splits)
  qed
  then show ?thesis using find_collision_sound by fastforce
qed

end

end
