(* ===== verification/Merkle.thy ===== *)
theory Merkle
  imports Merkle_Spec "HOL-Library.Log_Nat"
begin

text \<open>
  The crate \<open>crypto/merkle\<close>. SHA3-256 comes from a third-party crate and is the
  parameter \<open>sha3\<close>; a slice is a list and an index is a natural number, except in the
  doubling loop, where the machine word decides whether the loop ends. Memory allocation is
  taken to succeed.
\<close>

section \<open>Types\<close>

type_synonym digest = "u8 list \<Rightarrow> u8 list"

datatype hash = Hash (hash_bytes: "u8 list")

definition wf_hash :: "hash \<Rightarrow> bool" where
  "wf_hash h \<longleftrightarrow> length (hash_bytes h) = 32"

definition Hash_new :: "u8 list \<Rightarrow> hash" where
  "Hash_new bytes = Hash (copy_prefix (replicate 32 0) bytes)"

definition Hash_zero :: hash where
  "Hash_zero = Hash (replicate 32 0)"

text \<open>\<open>hex::encode\<close> is the argument \<open>hex\<close>.\<close>

definition Hash_debug :: "(u8 list \<Rightarrow> string) \<Rightarrow> hash \<Rightarrow> string" where
  "Hash_debug hex h = ''0x'' @ hex (hash_bytes h)"

definition Hash_to_string :: "(u8 list \<Rightarrow> string) \<Rightarrow> hash \<Rightarrow> string" where
  "Hash_to_string hex h = ''0x'' @ hex (take 8 (hash_bytes h))"

datatype MerkleTree = Leaf hash | Node hash MerkleTree MerkleTree

fun root_hash :: "MerkleTree \<Rightarrow> hash" where
  "root_hash (Leaf h) = h"
| "root_hash (Node h l r) = h"

fun depth :: "MerkleTree \<Rightarrow> nat" where
  "depth (Leaf h) = 1"
| "depth (Node h l r) = 1 + depth l"

record MerkleProof =
  mp_index :: nat
  mp_leaf :: hash
  mp_siblings :: "hash list"

section \<open>Hashing\<close>

definition sha3_256 :: "digest \<Rightarrow> u8 list \<Rightarrow> hash" where
  "sha3_256 sha3 data = Hash_new (sha3 data)"

definition combine_hashes :: "digest \<Rightarrow> hash \<Rightarrow> hash \<Rightarrow> hash" where
  "combine_hashes sha3 left right = sha3_256 sha3 (hash_bytes left @ hash_bytes right)"

definition hash_leaf :: "digest \<Rightarrow> hash \<Rightarrow> hash" where
  "hash_leaf sha3 h = combine_hashes sha3 h h"

section \<open>Verification\<close>

fun proof_loop :: "digest \<Rightarrow> hash \<Rightarrow> nat \<Rightarrow> hash list \<Rightarrow> hash" where
  "proof_loop sha3 current idx [] = current"
| "proof_loop sha3 current idx (sibling # rest) =
     proof_loop sha3
       (if idx mod 2 = 0 then combine_hashes sha3 current sibling
        else combine_hashes sha3 sibling current)
       (idx div 2) rest"

definition proof_compute_root :: "digest \<Rightarrow> MerkleProof \<Rightarrow> hash" where
  "proof_compute_root sha3 p = proof_loop sha3 (mp_leaf p) (mp_index p) (mp_siblings p)"

definition verify :: "digest \<Rightarrow> MerkleProof \<Rightarrow> hash \<Rightarrow> bool" where
  "verify sha3 p rt \<longleftrightarrow> proof_compute_root sha3 p = rt"

section \<open>Padding\<close>

text \<open>
  \<open>p <<= 1\<close> drops the top bit, so the loop may meet \<open>p = 0\<close> and never end.
\<close>

partial_function (option) double_until :: "usize \<Rightarrow> usize \<Rightarrow> usize exec" where
  "double_until n p = (if p < n then double_until n (push_bit 1 p) else Some p)"

definition next_power_of_two :: "usize \<Rightarrow> usize exec" where
  "next_power_of_two n = (if n \<le> 1 then Some 1 else double_until n 1)"

definition pad_to_power_of_two :: "hash list \<Rightarrow> hash list exec" where
  "pad_to_power_of_two hashes =
     (if hashes = [] then Some [Hash_zero]
      else let len = (word_of_nat (length hashes) :: usize) in do {
        next_pow2 \<leftarrow> next_power_of_two len;
        Some (if len = next_pow2 then hashes
              else vec_resize (unat next_pow2) Hash_zero hashes) })"

text \<open>
  \<open>(padded as f64).log2().ceil()\<close>: the argument is a power of two, which \<open>f64\<close> holds
  exactly, and so is its logarithm, so the computation is the one on the reals.
\<close>

definition tree_depth :: "usize \<Rightarrow> nat exec" where
  "tree_depth num_leaves =
     (if num_leaves \<le> 1 then Some 1
      else do { padded \<leftarrow> next_power_of_two num_leaves; Some (ceillog2 (unat padded) + 1) })"

section \<open>Building the tree\<close>

partial_function (option) build_tree :: "digest \<Rightarrow> hash list \<Rightarrow> MerkleTree exec" where
  "build_tree sha3 hashes =
     (if length hashes = 1 then Some (Leaf (hashes ! 0))
      else let mid = length hashes div 2 in do {
        left \<leftarrow> build_tree sha3 (take mid hashes);
        right \<leftarrow> build_tree sha3 (drop mid hashes);
        Some (Node (combine_hashes sha3 (root_hash left) (root_hash right)) left right) })"

definition compute_root :: "digest \<Rightarrow> hash list \<Rightarrow> hash exec" where
  "compute_root sha3 hashes =
     (if hashes = [] then Some Hash_zero
      else do {
        padded \<leftarrow> pad_to_power_of_two hashes;
        tree \<leftarrow> build_tree sha3 padded;
        Some (root_hash tree) })"

section \<open>Generating proofs\<close>

function siblings_loop :: "hash list \<Rightarrow> hash list \<Rightarrow> nat \<Rightarrow> hash list exec" where
  "siblings_loop siblings current index =
     (if length current > 1
      then let mid = length current div 2;
               sibling_idx = (if index < mid then mid + index mod mid else index mod mid)
           in do {
             s \<leftarrow> vec_index current sibling_idx;
             siblings_loop (siblings @ [s])
               (if index < mid then take mid current else drop mid current) (index mod mid) }
      else Some siblings)"
  by pat_completeness auto
termination
  by (relation "measure (\<lambda>(siblings, current, index). length current)") auto

definition collect_siblings :: "hash list \<Rightarrow> nat \<Rightarrow> hash list exec" where
  "collect_siblings hashes index =
     (if length hashes \<le> 1 then Some [] else siblings_loop [] hashes index)"

definition generate_proof :: "hash list \<Rightarrow> nat \<Rightarrow> MerkleProof option exec" where
  "generate_proof hashes index =
     (if hashes = [] \<or> length hashes \<le> index then Some None
      else do {
        padded \<leftarrow> pad_to_power_of_two hashes;
        leaf \<leftarrow> vec_index hashes index;
        siblings \<leftarrow> collect_siblings padded index;
        Some (Some \<lparr>mp_index = index, mp_leaf = leaf, mp_siblings = siblings\<rparr>) })"

declare siblings_loop.simps [simp del]


section \<open>Array sizes\<close>

lemma wf_Hash_new [simp, wf_intros]: "wf_hash (Hash_new bytes)"
  by (simp add: wf_hash_def Hash_new_def)

lemma wf_Hash_zero [simp, wf_intros]: "wf_hash Hash_zero"
  by (simp add: wf_hash_def Hash_zero_def)

lemma wf_combine_hashes [simp, wf_intros]: "wf_hash (combine_hashes sha3 l r)"
  by (simp add: combine_hashes_def sha3_256_def)

lemma wf_proof_loop [wf_intros]: "wf_hash x \<Longrightarrow> wf_hash (proof_loop sha3 x i ss)"
  by (induction sha3 x i ss rule: proof_loop.induct) auto

section \<open>The doubling loop\<close>

declare double_until.simps [code]

text \<open>Once the top bit is gone the loop variable stays zero: the loop does not return.\<close>

lemma double_until_zero: "0 < n \<Longrightarrow> double_until n 0 = None"
proof (rule ccontr)
  assume n: "0 < n" and "double_until n 0 \<noteq> None"
  then obtain r where "double_until n 0 = Some r" by auto
  then have "0 < n \<longrightarrow> (0 :: usize) \<noteq> 0"
    by (rule double_until.raw_induct [where P = "\<lambda>n p r. 0 < n \<longrightarrow> p \<noteq> 0", rotated])
      (fastforce split: if_splits)
  with n show False by simp
qed

lemma unat_two_pow:
  assumes "j < 64"
  shows "unat (2 ^ j :: usize) = 2 ^ j"
proof -
  from assms have "(2::nat) ^ j < 2 ^ 64" by (intro power_strict_increasing) auto
  then show ?thesis using unat_of_nat [of "2 ^ j", where 'a = 64] by simp
qed

lemma two_pow_less_iff: "j < 64 \<Longrightarrow> (2 ^ j :: usize) < n \<longleftrightarrow> 2 ^ j < unat n"
  by (simp add: word_less_nat_alt unat_two_pow)

lemma double_until_exponent:
  assumes "j \<le> 63" and "j \<le> k" and "k \<le> 63" and "unat n \<le> 2 ^ k" and "\<forall>i. j \<le> i \<and> i < k \<longrightarrow> 2 ^ i < unat n"
  shows "double_until n (2 ^ j) = Some (2 ^ k)"
  using assms
proof (induction "k - j" arbitrary: j)
  case 0
  then have "j = k" by simp
  with 0 have "\<not> (2 ^ j :: usize) < n" by (simp add: two_pow_less_iff)
  then show ?case using \<open>j = k\<close> by (subst double_until.simps) simp
next
  case (Suc d)
  then have "j < k" "2 ^ j < unat n" by auto
  with Suc.prems have "(2 ^ j :: usize) < n" by (simp add: two_pow_less_iff)
  then have "double_until n (2 ^ j) = double_until n (2 ^ Suc j)"
    by (subst double_until.simps) (simp add: push_bit_eq_mult mult.commute)
  also have "\<dots> = Some (2 ^ k)" using Suc.hyps(2) Suc.prems \<open>j < k\<close> by (intro Suc.hyps(1)) auto
  finally show ?case .
qed

lemma double_until_too_big:
  assumes "2 ^ 63 < unat n" and "j \<le> 63"
  shows "double_until n (2 ^ j) = None"
  using assms
proof (induction "63 - j" arbitrary: j)
  case 0
  then have "j = 63" by simp
  with 0 have less: "(2 ^ j :: usize) < n" by (subst two_pow_less_iff) simp_all
  have shift: "push_bit 1 (2 ^ j :: usize) = 0" using \<open>j = 63\<close> by (simp add: push_bit_eq_mult)
  from less have "0 < n" by (metis word_coorder.not_eq_extremum word_not_simps(1))
  then show ?case using less shift by (subst double_until.simps) (simp add: double_until_zero)
next
  case (Suc d)
  then have "j < 63" by simp
  then have "(2::nat) ^ j < 2 ^ 63" by (intro power_strict_increasing) auto
  with Suc.prems have less: "(2 ^ j :: usize) < n" by (simp add: two_pow_less_iff)
  then have "double_until n (2 ^ j) = double_until n (2 ^ Suc j)"
    by (subst double_until.simps) (simp add: push_bit_eq_mult mult.commute)
  also have "\<dots> = None" using Suc.hyps(2) Suc.prems \<open>j < 63\<close> by (intro Suc.hyps(1)) auto
  finally show ?case .
qed


lemma next_power_of_two_exponent:
  assumes "unat n \<le> 2 ^ 63"
  obtains k where "k \<le> 63" and "next_power_of_two n = Some (2 ^ k)"
    and "unat n \<le> 2 ^ k" and "\<forall>i<k. 2 ^ i < unat n"
proof (cases "n \<le> 1")
  case True
  then have "next_power_of_two n = Some (2 ^ 0)" by (simp add: next_power_of_two_def)
  moreover from True have "unat n \<le> 2 ^ 0" by (simp add: word_le_nat_alt)
  ultimately show ?thesis using that [of 0] by simp
next
  case False
  define k where "k = (LEAST k. unat n \<le> 2 ^ k)"
  have le: "unat n \<le> 2 ^ k" unfolding k_def using assms by (rule LeastI)
  have k: "k \<le> 63" unfolding k_def using assms by (rule Least_le)
  have less: "\<forall>i<k. 2 ^ i < unat n" unfolding k_def using not_less_Least not_le by blast
  have "double_until n (2 ^ 0) = Some (2 ^ k)"
    using k le less by (intro double_until_exponent) auto
  with False have "next_power_of_two n = Some (2 ^ k)" by (simp add: next_power_of_two_def)
  with k show ?thesis using le less by (rule that)
qed

section \<open>Padding\<close>

text \<open>
  A slice holds at most \<open>isize::MAX\<close> bytes, so a list of 32-byte hashes has fewer than
  \<open>2 ^ 58\<close> elements; the weaker bound below is all the code needs.
\<close>

abbreviation slice_len :: "hash list \<Rightarrow> bool" where
  "slice_len hs \<equiv> length hs \<le> 2 ^ 63"

lemma unat_slice_len: "slice_len hs \<Longrightarrow> unat (word_of_nat (length hs) :: usize) = length hs"
  by (simp add: unat_of_nat)

lemma pad_exponent:
  assumes "slice_len hs"
  obtains k where "k \<le> 63" and "length hs \<le> 2 ^ k" and "\<forall>i<k. 2 ^ i < length hs"
    and "pad_to_power_of_two hs = Some (hs @ replicate (2 ^ k - length hs) Hash_zero)"
proof (cases "hs = []")
  case True
  then show ?thesis using that [of 0] by (simp add: pad_to_power_of_two_def)
next
  case False
  from assms have "unat (word_of_nat (length hs) :: usize) \<le> 2 ^ 63" by (simp only: unat_slice_len)
  then obtain k where k: "k \<le> 63" "next_power_of_two (word_of_nat (length hs)) = Some (2 ^ k)"
    "unat (word_of_nat (length hs) :: usize) \<le> 2 ^ k"
    "\<forall>i<k. 2 ^ i < unat (word_of_nat (length hs) :: usize)"
    by (rule next_power_of_two_exponent)
  then have len: "length hs \<le> 2 ^ k" "\<forall>i<k. 2 ^ i < length hs"
    using assms by (simp_all only: unat_slice_len)
  have "(word_of_nat (length hs) :: usize) = 2 ^ k \<longleftrightarrow> length hs = 2 ^ k"
    using assms k(1) unat_two_pow [of k] by (simp only: word_unat_eq_iff unat_slice_len)
  then have "pad_to_power_of_two hs = Some (hs @ replicate (2 ^ k - length hs) Hash_zero)"
    using False k len by (simp add: pad_to_power_of_two_def unat_two_pow vec_resize_def)
  with k(1) len show ?thesis by (rule that)
qed


section \<open>Building the tree\<close>

fun leaves :: "MerkleTree \<Rightarrow> hash list" where
  "leaves (Leaf h) = [h]"
| "leaves (Node h l r) = leaves l @ leaves r"

text \<open>Every inner node carries the combined hash of its children.\<close>

fun authentic :: "digest \<Rightarrow> MerkleTree \<Rightarrow> bool" where
  "authentic sha3 (Leaf h) = True"
| "authentic sha3 (Node h l r) \<longleftrightarrow>
     h = combine_hashes sha3 (root_hash l) (root_hash r) \<and> authentic sha3 l \<and> authentic sha3 r"

fun perfect :: "nat \<Rightarrow> MerkleTree \<Rightarrow> bool" where
  "perfect 0 t = (\<exists>h. t = Leaf h)"
| "perfect (Suc n) t = (\<exists>h l r. t = Node h l r \<and> perfect n l \<and> perfect n r)"

lemma depth_perfect: "perfect n t \<Longrightarrow> depth t = n + 1"
  by (induction n t rule: perfect.induct) auto

lemma build_tree_leaf [simp]: "build_tree sha3 [h] = Some (Leaf h)"
  by (subst build_tree.simps) simp

lemma build_tree_split:
  "length hs \<noteq> 1 \<Longrightarrow> build_tree sha3 hs = do {
     left \<leftarrow> build_tree sha3 (take (length hs div 2) hs);
     right \<leftarrow> build_tree sha3 (drop (length hs div 2) hs);
     Some (Node (combine_hashes sha3 (root_hash left) (root_hash right)) left right) }"
  by (subst build_tree.simps) (simp add: Let_def)

text \<open>An empty slice is halved into empty slices for ever.\<close>

lemma build_tree_Nil: "build_tree sha3 [] = None"
proof (rule ccontr)
  assume "build_tree sha3 [] \<noteq> None"
  then obtain t where "build_tree sha3 [] = Some t" by auto
  then have "[] \<noteq> ([] :: hash list)"
    by (rule build_tree.raw_induct [where P = "\<lambda>sha3 hs t. hs \<noteq> []", rotated])
      (fastforce simp: Let_def bind_eq_Some_conv split: if_splits)
  then show False by simp
qed

lemma build_tree_nonempty:
  "hs \<noteq> [] \<Longrightarrow> \<exists>t. build_tree sha3 hs = Some t \<and> leaves t = hs \<and> authentic sha3 t"
proof (induction hs rule: length_induct)
  case (1 hs)
  show ?case
  proof (cases "length hs = 1")
    case True
    then obtain h where "hs = [h]" by (auto simp: length_Suc_conv)
    then show ?thesis by simp
  next
    case False
    let ?l = "take (length hs div 2) hs" and ?r = "drop (length hs div 2) hs"
    from False "1.prems" have "1 < length hs" by (cases hs) auto
    then have "length ?l < length hs" "?l \<noteq> []" "length ?r < length hs" "?r \<noteq> []" by auto
    with "1.IH" obtain l r where
      "build_tree sha3 ?l = Some l" "leaves l = ?l" "authentic sha3 l"
      "build_tree sha3 ?r = Some r" "leaves r = ?r" "authentic sha3 r" by metis
    with build_tree_split [OF False] show ?thesis by simp
  qed
qed

lemma build_tree_append:
  assumes "xs \<noteq> []" and "length xs = length ys"
  shows "build_tree sha3 (xs @ ys) = do { left \<leftarrow> build_tree sha3 xs; right \<leftarrow> build_tree sha3 ys;
     Some (Node (combine_hashes sha3 (root_hash left) (root_hash right)) left right) }"
proof -
  have "length (xs @ ys) \<noteq> 1" using assms by (cases xs) auto
  moreover have "length (xs @ ys) div 2 = length xs" using assms by simp
  ultimately show ?thesis using build_tree_split [of "xs @ ys" sha3] by simp
qed

lemma build_tree_perfect:
  "length hs = 2 ^ k \<Longrightarrow> build_tree sha3 hs = Some t \<Longrightarrow> perfect k t"
proof (induction k arbitrary: hs t)
  case 0
  then show ?case by (auto simp: length_Suc_conv)
next
  case (Suc k)
  let ?l = "take (2 ^ k) hs" and ?r = "drop (2 ^ k) hs"
  have "?l \<noteq> []" "length ?l = length ?r" using Suc.prems(1) by auto
  from build_tree_append [OF this, of sha3] Suc.prems(2) obtain l r where
    "build_tree sha3 ?l = Some l" "build_tree sha3 ?r = Some r"
    "t = Node (combine_hashes sha3 (root_hash l) (root_hash r)) l r"
    by (cases "build_tree sha3 ?l"; cases "build_tree sha3 ?r") simp_all
  with Suc.IH [of ?l l] Suc.IH [of ?r r] Suc.prems(1) show ?case by simp
qed

text \<open>The crate's tree builder and verifier implement the interface, for every digest.\<close>

definition tree_root :: "digest \<Rightarrow> hash list \<Rightarrow> hash exec" where
  "tree_root sha3 hs = map_option root_hash (build_tree sha3 hs)"

interpretation mk: merkle_scheme "combine_hashes sha3" "proof_loop sha3" "tree_root sha3"
  for sha3 :: digest
proof unfold_locales
  fix x s :: hash and xs ys ss :: "hash list" and i :: nat
  show "proof_loop sha3 x i [] = x" by simp
  show "proof_loop sha3 x i (s # ss) =
      proof_loop sha3 (if even i then combine_hashes sha3 x s else combine_hashes sha3 s x) (i div 2) ss"
    by (simp add: even_iff_mod_2_eq_zero)
  show "tree_root sha3 [x] = Some x" by (simp add: tree_root_def)
  show "xs \<noteq> [] \<Longrightarrow> length xs = length ys \<Longrightarrow>
      tree_root sha3 (xs @ ys) =
        do { a \<leftarrow> tree_root sha3 xs; b \<leftarrow> tree_root sha3 ys; Some (combine_hashes sha3 a b) }"
    by (cases "build_tree sha3 xs"; cases "build_tree sha3 ys")
      (simp_all add: tree_root_def build_tree_append)
qed


section \<open>What the proof generator collects\<close>

text \<open>The position across the tree at distance \<open>2 ^ m\<close>: bit \<open>m\<close> is flipped.\<close>

definition across :: "nat \<Rightarrow> nat \<Rightarrow> nat" where
  "across m i = (if even (i div 2 ^ m) then i + 2 ^ m else i - 2 ^ m)"

lemma across_top:
  fixes i :: nat
  assumes "i < 2 ^ k"
  shows "across k i = 2 ^ k + i" and "across k (2 ^ k + i) = i"
  using assms by (simp_all add: across_def div_add_self1)

lemma across_low:
  assumes "m < k" and "i < 2 ^ k"
  shows "across m i < 2 ^ k" and "across m (2 ^ k + i) = 2 ^ k + across m i"
proof -
  from assms(1) obtain d where k: "k = m + Suc d" by (metis add_Suc_right less_imp_Suc_add)
  have odd_ge: "2 ^ m \<le> i" if "odd (i div 2 ^ m)"
    using that by (cases "i < 2 ^ m") auto
  have even_lt: "i + 2 ^ m < 2 ^ k" if "even (i div 2 ^ m)"
  proof -
    have "i div 2 ^ m < 2 * 2 ^ d"
      using assms(2) by (simp add: k power_add less_mult_imp_div_less ac_simps)
    with that have "i div 2 ^ m + 1 < 2 * 2 ^ d" by (auto elim!: evenE)
    then have "(i + 2 ^ m) div 2 ^ m < 2 * 2 ^ d" by simp
    then have "i + 2 ^ m < 2 * 2 ^ d * 2 ^ m" by (subst (asm) div_less_iff_less_mult) simp_all
    then show ?thesis by (simp add: k power_add ac_simps)
  qed
  have "2 ^ k + i = i + 2 * 2 ^ d * 2 ^ m" by (simp add: k power_add)
  then have par: "even ((2 ^ k + i) div 2 ^ m) = even (i div 2 ^ m)"
    by (simp only: div_mult_self1 even_add) simp
  show "across m i < 2 ^ k" using assms(2) even_lt by (auto simp: across_def)
  show "across m (2 ^ k + i) = 2 ^ k + across m i"
    using odd_ge by (auto simp: across_def par)
qed

text \<open>
  The loop pushes raw leaves, the one at each distance \<open>2 ^ j\<close> from the leaf, farthest
  first.
\<close>

definition across_leaves :: "nat \<Rightarrow> hash list \<Rightarrow> nat \<Rightarrow> hash list" where
  "across_leaves k hs i = map (\<lambda>j. hs ! across j i) (rev [0..<k])"

lemma across_leaves_halves:
  assumes "length hs = 2 ^ Suc k" and "i < 2 ^ k"
  shows "across_leaves (Suc k) hs i = hs ! (2 ^ k + i) # across_leaves k (take (2 ^ k) hs) i"
    and "across_leaves (Suc k) hs (2 ^ k + i) = hs ! i # across_leaves k (drop (2 ^ k) hs) i"
  using assms by (auto simp: across_leaves_def across_top across_low)

lemma siblings_loop_across:
  "length hs = 2 ^ k \<Longrightarrow> i < 2 ^ k \<Longrightarrow> siblings_loop acc hs i = Some (acc @ across_leaves k hs i)"
proof (induction k arbitrary: acc hs i)
  case 0
  then show ?case by (simp add: siblings_loop.simps across_leaves_def)
next
  case (Suc k)
  have half: "length hs div 2 = 2 ^ k" "1 < length hs"
    unfolding Suc.prems(1) by (simp, rule one_less_power) simp_all
  have "i mod 2 ^ k < 2 ^ k" by simp
  then have less: "2 ^ k + i mod 2 ^ k < length hs" "i mod 2 ^ k < length hs"
    unfolding Suc.prems(1) power_Suc by linarith+
  show ?case
  proof (cases "i < 2 ^ k")
    case True
    have "siblings_loop acc hs i =
        siblings_loop (acc @ [hs ! (2 ^ k + i)]) (take (2 ^ k) hs) i"
      using half less True by (subst siblings_loop.simps) (simp add: Let_def)
    also have "\<dots> = Some ((acc @ [hs ! (2 ^ k + i)]) @ across_leaves k (take (2 ^ k) hs) i)"
      using Suc.prems(1) True by (intro Suc.IH) simp_all
    finally show ?thesis using Suc.prems(1) True by (simp add: across_leaves_halves)
  next
    case False
    then obtain j where i: "i = 2 ^ k + j" by (metis le_Suc_ex not_less)
    with Suc.prems(2) have j: "j < 2 ^ k" by simp
    have "siblings_loop acc hs i = siblings_loop (acc @ [hs ! j]) (drop (2 ^ k) hs) j"
      using half less i j by (subst siblings_loop.simps) (simp add: Let_def)
    also have "\<dots> = Some ((acc @ [hs ! j]) @ across_leaves k (drop (2 ^ k) hs) j)"
      using Suc.prems(1) j by (intro Suc.IH) simp_all
    finally show ?thesis using Suc.prems(1) i j by (simp add: across_leaves_halves)
  qed
qed


lemma generate_proof_across:
  assumes "slice_len hs" and "i < length hs"
  obtains k where "k \<le> 63" and "length hs \<le> 2 ^ k" and "\<forall>j<k. 2 ^ j < length hs"
    and "pad_to_power_of_two hs = Some (hs @ replicate (2 ^ k - length hs) Hash_zero)"
    and "generate_proof hs i = Some (Some \<lparr>mp_index = i, mp_leaf = hs ! i,
      mp_siblings = across_leaves k (hs @ replicate (2 ^ k - length hs) Hash_zero) i\<rparr>)"
proof -
  obtain k where k: "k \<le> 63" "length hs \<le> 2 ^ k" "\<forall>j<k. 2 ^ j < length hs"
    "pad_to_power_of_two hs = Some (hs @ replicate (2 ^ k - length hs) Hash_zero)"
    using assms(1) by (rule pad_exponent)
  let ?ps = "hs @ replicate (2 ^ k - length hs) Hash_zero"
  have len: "length ?ps = 2 ^ k" and i: "i < 2 ^ k" using k(2) assms(2) by simp_all
  have "collect_siblings ?ps i = Some (across_leaves k ?ps i)"
  proof (cases "k = 0")
    case True
    then show ?thesis using len by (simp add: collect_siblings_def across_leaves_def)
  next
    case False
    then have "1 < length ?ps" unfolding len by (intro one_less_power) simp_all
    then show ?thesis
      using siblings_loop_across [OF len i, of "[]"] by (simp add: collect_siblings_def)
  qed
  then have "generate_proof hs i = Some (Some \<lparr>mp_index = i, mp_leaf = hs ! i,
      mp_siblings = across_leaves k ?ps i\<rparr>)"
    using assms(2) k(4) by (cases "hs = []") (simp_all add: generate_proof_def)
  with k show ?thesis by (rule that)
qed

lemma compute_root_mroot:
  assumes "hs \<noteq> []" and "pad_to_power_of_two hs = Some ps" and "length ps = 2 ^ k"
  shows "compute_root sha3 hs = Some (mroot (combine_hashes sha3) k ps)"
proof -
  have "tree_root sha3 ps = Some (mroot (combine_hashes sha3) k ps)"
    using assms(3) by (rule mk.root_mroot)
  with assms show ?thesis
    by (cases "build_tree sha3 ps") (simp_all add: compute_root_def tree_root_def)
qed

lemma pad_power_of_two:
  assumes "length hs = 2 ^ k" and "k \<le> 63"
  shows "pad_to_power_of_two hs = Some hs"
proof -
  have "slice_len hs" unfolding assms(1) using assms(2) by (rule power_increasing) simp
  then obtain j where j: "length hs \<le> 2 ^ j" "\<forall>i<j. 2 ^ i < length hs"
    "pad_to_power_of_two hs = Some (hs @ replicate (2 ^ j - length hs) Hash_zero)"
    by (rule pad_exponent)
  have "j = k"
  proof (rule antisym)
    show "j \<le> k" using j(2) assms(1) by (metis less_irrefl not_le)
    show "k \<le> j" using j(1) assms(1) by (simp add: power_increasing_iff)
  qed
  with j(3) assms(1) show ?thesis by simp
qed

lemma compute_root_power_of_two:
  assumes "length hs = 2 ^ k" and "k \<le> 63"
  shows "compute_root sha3 hs = Some (mroot (combine_hashes sha3) k hs)"
  using assms compute_root_mroot [OF _ pad_power_of_two [OF assms] assms(1)]
  by (cases "hs = []") simp_all


lemma generate_proof_power_of_two:
  assumes "length hs = 2 ^ k" and "k \<le> 63" and "i < length hs"
  shows "generate_proof hs i =
    Some (Some \<lparr>mp_index = i, mp_leaf = hs ! i, mp_siblings = across_leaves k hs i\<rparr>)"
proof -
  have "slice_len hs" unfolding assms(1) using assms(2) by (rule power_increasing) simp
  then obtain j where j: "pad_to_power_of_two hs = Some (hs @ replicate (2 ^ j - length hs) Hash_zero)"
    "length hs \<le> 2 ^ j" "generate_proof hs i = Some (Some \<lparr>mp_index = i, mp_leaf = hs ! i,
      mp_siblings = across_leaves j (hs @ replicate (2 ^ j - length hs) Hash_zero) i\<rparr>)"
    using assms(3) by (rule generate_proof_across)
  then have pad: "hs @ replicate (2 ^ j - length hs) Hash_zero = hs"
    using pad_power_of_two [OF assms(1,2)] by simp
  then have "length hs = 2 ^ j" using j(2) by simp
  then have "j = k" using assms(1) by simp
  with j(3) pad show ?thesis by simp
qed

lemma four_leaves_proof:
  "generate_proof [a, b, c, d] 0 =
     Some (Some \<lparr>mp_index = 0, mp_leaf = a, mp_siblings = [c, b]\<rparr>)"
  using generate_proof_power_of_two [of "[a, b, c, d]" 2 0]
  by (simp add: across_leaves_def across_def upt_rec)

lemma four_leaves_root:
  "compute_root sha3 [a, b, c, d] =
     Some (combine_hashes sha3 (combine_hashes sha3 a b) (combine_hashes sha3 c d))"
  using compute_root_power_of_two [of "[a, b, c, d]" 2 sha3] by (simp add: numeral_2_eq_2)

text \<open>The root of a single leaf is the leaf itself, not its hash.\<close>

lemma compute_root_single: "compute_root sha3 [h] = Some h"
  using compute_root_power_of_two [of "[h]" 0 sha3] by simp

lemma tree_depth_exponent:
  assumes "hs \<noteq> []" and "slice_len hs"
    and "k \<le> 63" and "length hs \<le> 2 ^ k" and "\<forall>i<k. 2 ^ i < length hs"
  shows "tree_depth (word_of_nat (length hs)) = Some (k + 1)"
proof (cases "length hs = 1")
  case True
  with assms(5) have "k = 0" by (metis less_irrefl not_gr_zero power_0)
  with True show ?thesis by (simp add: tree_depth_def)
next
  case False
  let ?n = "word_of_nat (length hs) :: usize"
  have n: "unat ?n = length hs" using assms(2) by (rule unat_slice_len)
  have "1 < length hs" using False assms(1) by (cases hs) auto
  then have big: "\<not> ?n \<le> 1" by (simp add: word_le_nat_alt n)
  have "double_until ?n (2 ^ 0) = Some (2 ^ k)"
    using assms(3-5) by (intro double_until_exponent) (auto simp: n)
  then have "next_power_of_two ?n = Some (2 ^ k)" using big by (simp add: next_power_of_two_def)
  then show ?thesis using big assms(3) by (simp add: tree_depth_def unat_two_pow)
qed

section \<open>Properties\<close>

text \<open>A concrete digest and four leaves on which the instances below are evaluated.\<close>

definition mix_digest :: digest where
  "mix_digest data = [foldl (\<lambda>a b. 3 * a + b + 1) 0 data]"

definition leaf4 :: "hash list" where
  "leaf4 = map (\<lambda>b. Hash_new [b]) [1, 2, 3, 4]"

text \<open>
  \<open>next_power_of_two\<close> returns exactly for arguments up to \<open>2 ^ 63\<close>, and then the
  least power of two that is at least its argument; above, the loop variable is shifted to
  zero and the loop never ends.
\<close>

lemma next_power_of_two_exact:
  "if unat n \<le> 2 ^ 63
   then \<exists>p k. next_power_of_two n = Some p \<and> unat p = 2 ^ k \<and> unat n \<le> unat p \<and>
     {j. unat n \<le> 2 ^ j} = {k..}
   else next_power_of_two n = None"
proof (cases "unat n \<le> 2 ^ 63")
  case True
  then obtain k where k: "k \<le> 63" "next_power_of_two n = Some (2 ^ k)" "unat n \<le> 2 ^ k"
    "\<forall>i<k. 2 ^ i < unat n"
    by (rule next_power_of_two_exponent)
  have "unat n \<le> 2 ^ j" if "k \<le> j" for j
    using k(3) power_increasing [OF that, of "2::nat"] by linarith
  with k(4) have "{j. unat n \<le> 2 ^ j} = {k..}" by (auto simp: not_less intro: leI)
  with True k show ?thesis by (auto simp: unat_two_pow)
next
  case False
  then have "\<not> n \<le> 1" by (auto simp: word_le_nat_alt)
  moreover have "double_until n (2 ^ 0) = None" using False by (intro double_until_too_big) simp_all
  ultimately show ?thesis using False by (simp add: next_power_of_two_def)
qed

text \<open>
  \<open>build_tree\<close> returns exactly on non-empty slices; on the empty slice it recurses
  for ever.
\<close>

lemma build_tree_returns_iff: "(\<exists>t. build_tree sha3 hs = Some t) \<longleftrightarrow> hs \<noteq> []"
  using build_tree_nonempty [of hs sha3] by (auto simp: build_tree_Nil)

text \<open>
  A tree that \<open>build_tree\<close> returns has the input as its leaves, in order, and every
  inner node carries the combined hash of its two children.
\<close>

lemma build_tree_authentic:
  assumes "build_tree sha3 hs = Some t"
  shows "leaves t = hs \<and> authentic sha3 t"
proof -
  have "hs \<noteq> []" using assms by (auto simp: build_tree_Nil)
  then show ?thesis using build_tree_nonempty [of hs sha3] assms by auto
qed

lemma build_tree_authentic_witness:
  "\<exists>t. build_tree mix_digest (take 2 leaf4) = Some t \<and>
     leaves t = take 2 leaf4 \<and> authentic mix_digest t"
proof -
  have "take 2 leaf4 \<noteq> []" by (simp add: leaf4_def)
  then obtain t where "build_tree mix_digest (take 2 leaf4) = Some t"
    using build_tree_nonempty by blast
  with build_tree_authentic [OF this] show ?thesis by blast
qed

text \<open>
  The depth that \<open>tree_depth\<close> predicts from the number of leaves is the depth of the
  tree built from the padded leaves.
\<close>

lemma tree_depth_correct:
  assumes "hs \<noteq> []" and "length hs \<le> 2 ^ 63"
  shows "\<exists>ps t. pad_to_power_of_two hs = Some ps \<and> build_tree sha3 ps = Some t \<and>
    tree_depth (word_of_nat (length hs)) = Some (depth t)"
proof -
  obtain k where k: "k \<le> 63" "length hs \<le> 2 ^ k" "\<forall>i<k. 2 ^ i < length hs"
    "pad_to_power_of_two hs = Some (hs @ replicate (2 ^ k - length hs) Hash_zero)"
    using assms(2) by (rule pad_exponent)
  let ?ps = "hs @ replicate (2 ^ k - length hs) Hash_zero"
  obtain t where t: "build_tree sha3 ?ps = Some t"
    using build_tree_nonempty [of ?ps sha3] assms(1) by auto
  have "depth t = k + 1"
    using build_tree_perfect [OF _ t, of k] k(2) by (simp add: depth_perfect)
  moreover have "tree_depth (word_of_nat (length hs)) = Some (k + 1)"
    using assms k(1-3) by (rule tree_depth_exponent)
  ultimately show ?thesis using k(4) t by simp
qed

lemma tree_depth_correct_witness:
  "\<exists>ps t. pad_to_power_of_two (take 3 leaf4) = Some ps \<and> build_tree mix_digest ps = Some t \<and>
    tree_depth (word_of_nat (length (take 3 leaf4))) = Some (depth t)"
  by (rule tree_depth_correct) (simp_all add: leaf4_def)


text \<open>
  C3: \<open>compute_root\<close> implements the abstract hash tree: it returns the specified root
  of the input padded with zero hashes, for every digest.
\<close>

theorem compute_root_refines:
  assumes "hs \<noteq> []" and "length hs \<le> 2 ^ 63"
  shows "\<exists>k. length hs \<le> 2 ^ k \<and> (\<forall>i<k. 2 ^ i < length hs) \<and>
    compute_root sha3 hs =
      Some (mroot (combine_hashes sha3) k (hs @ replicate (2 ^ k - length hs) Hash_zero))"
proof -
  obtain k where k: "length hs \<le> 2 ^ k" "\<forall>i<k. 2 ^ i < length hs"
    "pad_to_power_of_two hs = Some (hs @ replicate (2 ^ k - length hs) Hash_zero)"
    using assms(2) by (rule pad_exponent)
  have "compute_root sha3 hs =
      Some (mroot (combine_hashes sha3) k (hs @ replicate (2 ^ k - length hs) Hash_zero))"
    using assms(1) k by (intro compute_root_mroot) simp_all
  with k show ?thesis by blast
qed

theorem compute_root_refines_witness:
  "\<exists>k. length (take 3 leaf4) \<le> 2 ^ k \<and> (\<forall>i<k. 2 ^ i < length (take 3 leaf4)) \<and>
    compute_root mix_digest (take 3 leaf4) = Some (mroot (combine_hashes mix_digest) k
      (take 3 leaf4 @ replicate (2 ^ k - length (take 3 leaf4)) Hash_zero))"
  by (rule compute_root_refines) (simp_all add: leaf4_def)

text \<open>
  C2: The verifier is complete: the authentication path of a leaf verifies against the
  computed root.
\<close>

theorem verify_complete:
  assumes "length hs = 2 ^ k" and "k \<le> 63" and "i < length hs"
  shows "\<exists>r. compute_root sha3 hs = Some r \<and>
    verify sha3 \<lparr>mp_index = i, mp_leaf = hs ! i,
      mp_siblings = mpath (combine_hashes sha3) k hs i\<rparr> r"
  using assms mk.climb_mpath [of hs k i sha3]
  by (simp add: compute_root_power_of_two verify_def proof_compute_root_def)

theorem verify_complete_witness:
  "\<exists>r. compute_root mix_digest leaf4 = Some r \<and>
    verify mix_digest \<lparr>mp_index = 2, mp_leaf = leaf4 ! 2,
      mp_siblings = mpath (combine_hashes mix_digest) 2 leaf4 2\<rparr> r"
  by (rule verify_complete) (simp_all add: leaf4_def)

text \<open>
  C1: The verifier binds: two accepted proofs for the same position and the same root,
  with sibling paths of equal length and different leaves, let \<open>find_collision\<close> compute two different pairs of
  hashes with the same combined hash.
\<close>

theorem verify_binding:
  assumes "verify sha3 p rt" and "verify sha3 q rt" and "mp_index p = mp_index q"
    and "length (mp_siblings p) = length (mp_siblings q)" and "mp_leaf p \<noteq> mp_leaf q"
  shows "\<exists>pq. find_collision (combine_hashes sha3) (mp_index p)
      (mp_leaf p) (mp_siblings p) (mp_leaf q) (mp_siblings q) = Some pq \<and>
    is_collision (combine_hashes sha3) pq"
  using assms by (intro mk.climb_conflict) (simp_all add: verify_def proof_compute_root_def)

definition zero_digest :: digest where
  "zero_digest data = []"

theorem verify_binding_witness:
  "\<exists>pq. find_collision (combine_hashes zero_digest) 0
      (Hash_new [1]) [Hash_zero] (Hash_new [2]) [Hash_zero] = Some pq \<and>
    is_collision (combine_hashes zero_digest) pq"
proof -
  let ?p = "\<lambda>b. \<lparr>mp_index = 0, mp_leaf = Hash_new [b], mp_siblings = [Hash_zero]\<rparr>"
  let ?rt = "combine_hashes zero_digest Hash_zero Hash_zero"
  have "verify zero_digest (?p b) ?rt" for b
    by (simp add: verify_def proof_compute_root_def combine_hashes_def sha3_256_def zero_digest_def)
  moreover have "Hash_new [1] \<noteq> Hash_new [2]" by (simp add: Hash_new_def copy_prefix_def)
  ultimately show ?thesis using verify_binding [of zero_digest "?p 1" ?rt "?p 2"] by simp
qed

text \<open>
  What \<open>generate_proof\<close> returns: in range, and never panicking, the proof of leaf
  \<open>i\<close> lists the raw leaves at distances \<open>2 ^ (k - 1), \<dots>, 1\<close> from it, no inner hash.
\<close>

lemma generate_proof_collects_leaves:
  assumes "length hs \<le> 2 ^ 63" and "i < length hs"
  shows "\<exists>k ps. pad_to_power_of_two hs = Some ps \<and> length ps = 2 ^ k \<and>
    generate_proof hs i = Some (Some \<lparr>mp_index = i, mp_leaf = hs ! i,
      mp_siblings = map (\<lambda>j. ps ! across j i) (rev [0..<k])\<rparr>)"
proof -
  obtain k where k: "length hs \<le> 2 ^ k"
    "pad_to_power_of_two hs = Some (hs @ replicate (2 ^ k - length hs) Hash_zero)"
    "generate_proof hs i = Some (Some \<lparr>mp_index = i, mp_leaf = hs ! i,
      mp_siblings = across_leaves k (hs @ replicate (2 ^ k - length hs) Hash_zero) i\<rparr>)"
    using assms by (rule generate_proof_across)
  then show ?thesis
    by (intro exI [of _ k] exI [of _ "hs @ replicate (2 ^ k - length hs) Hash_zero"])
      (simp add: across_leaves_def)
qed

lemma generate_proof_collects_leaves_witness:
  "\<exists>k ps. pad_to_power_of_two leaf4 = Some ps \<and> length ps = 2 ^ k \<and>
    generate_proof leaf4 1 = Some (Some \<lparr>mp_index = 1, mp_leaf = leaf4 ! 1,
      mp_siblings = map (\<lambda>j. ps ! across j 1) (rev [0..<k])\<rparr>)"
  by (rule generate_proof_collects_leaves) (simp_all add: leaf4_def)

text \<open>
  For one or two leaves the generated proof of every leaf verifies against the
  computed root.
\<close>

lemma generate_proof_small_verifies:
  assumes "length hs \<le> 2" and "i < length hs"
  shows "\<exists>p r. generate_proof hs i = Some (Some p) \<and> compute_root sha3 hs = Some r \<and>
    verify sha3 p r"
proof -
  have "\<exists>k\<le>1. length hs = 2 ^ k"
    using assms by (cases "length hs = 1") (auto intro: exI [of _ 0] exI [of _ 1])
  then obtain k where k: "k \<le> 1" "length hs = 2 ^ k" by blast
  then have "across_leaves k hs i = mpath (combine_hashes sha3) k hs i"
    using assms by (cases k) (auto simp: across_leaves_def across_def nth_drop)
  moreover have "generate_proof hs i = Some (Some \<lparr>mp_index = i, mp_leaf = hs ! i,
      mp_siblings = across_leaves k hs i\<rparr>)"
    using k assms(2) by (intro generate_proof_power_of_two) simp_all
  ultimately show ?thesis
    using k assms(2) mk.climb_mpath [of hs k i sha3]
    by (simp add: compute_root_power_of_two verify_def proof_compute_root_def)
qed

text \<open>
  For four leaves the proof generated for leaf 0 verifies exactly when
  \<open>(a \<cdot> c) \<cdot> b\<close> and \<open>(a \<cdot> b) \<cdot> (c \<cdot> d)\<close> have one hash, where
  \<open>\<cdot>\<close> is \<open>combine_hashes\<close>: the siblings are raw leaves, in the order from the root
  down, while the verifier climbs from the leaf up over inner hashes.
\<close>

lemma generate_proof_four_leaves:
  "\<exists>p r. generate_proof [a, b, c, d] 0 = Some (Some p) \<and>
     compute_root sha3 [a, b, c, d] = Some r \<and>
     (verify sha3 p r \<longleftrightarrow>
        combine_hashes sha3 (combine_hashes sha3 a c) b =
        combine_hashes sha3 (combine_hashes sha3 a b) (combine_hashes sha3 c d))"
  by (simp add: four_leaves_proof four_leaves_root verify_def proof_compute_root_def)

text \<open>
  The verifier accepts inner nodes as leaves: cutting the first \<open>j\<close> siblings off a
  valid path and starting from the node above them gives a proof that still verifies, for a
  value that is no leaf. Leaves are not hashed before they are combined (\<open>hash_leaf\<close> is
  never called).
\<close>

lemma verify_accepts_inner_nodes:
  assumes "length hs = 2 ^ k" and "k \<le> 63" and "i < length hs" and "j \<le> k"
  shows "\<exists>r. compute_root sha3 hs = Some r \<and>
    verify sha3 \<lparr>mp_index = i div 2 ^ j,
      mp_leaf = proof_loop sha3 (hs ! i) i (take j (mpath (combine_hashes sha3) k hs i)),
      mp_siblings = drop j (mpath (combine_hashes sha3) k hs i)\<rparr> r"
proof -
  let ?path = "mpath (combine_hashes sha3) k hs i"
  have "proof_loop sha3 (hs ! i) i (take j ?path @ drop j ?path) =
      proof_loop sha3 (proof_loop sha3 (hs ! i) i (take j ?path)) (i div 2 ^ j) (drop j ?path)"
    using assms(4) by (subst mk.climb_append) (simp add: min_absorb2)
  then show ?thesis
    using assms mk.climb_mpath [of hs k i sha3]
    by (simp add: compute_root_power_of_two verify_def proof_compute_root_def)
qed

lemma verify_accepts_inner_nodes_witness:
  "\<exists>r. compute_root mix_digest leaf4 = Some r \<and>
    verify mix_digest \<lparr>mp_index = 3 div 2 ^ 1,
      mp_leaf = proof_loop mix_digest (leaf4 ! 3) 3
        (take 1 (mpath (combine_hashes mix_digest) 2 leaf4 3)),
      mp_siblings = drop 1 (mpath (combine_hashes mix_digest) 2 leaf4 3)\<rparr> r"
  by (rule verify_accepts_inner_nodes) (simp_all add: leaf4_def)

text \<open>The generated proof of leaf 0 of four leaves is rejected, on a concrete digest.\<close>

lemma generated_proof_rejected:
  "\<exists>p r. generate_proof leaf4 0 = Some (Some p) \<and> compute_root mix_digest leaf4 = Some r \<and>
     \<not> verify mix_digest p r"
proof -
  let ?h = "\<lambda>b. Hash_new [b]"
  have "combine_hashes mix_digest (combine_hashes mix_digest (?h 1) (?h 3)) (?h 2) \<noteq>
      combine_hashes mix_digest (combine_hashes mix_digest (?h 1) (?h 2))
        (combine_hashes mix_digest (?h 3) (?h 4))"
    by code_simp
  then show ?thesis
    by (simp add: leaf4_def four_leaves_proof four_leaves_root verify_def proof_compute_root_def)
qed

end
