(* ===== verification/Signatures.thy ===== *)
theory Signatures
  imports Rust_Prelude
begin

text \<open>
  The crate \<open>crypto/signatures\<close>: keys, signatures, addresses, the simplified verifiable
  random function and the hash commitments. The third-party crates (\<open>ed25519_dalek\<close>,
  \<open>sha2\<close>, \<open>blake2\<close>, \<open>hkdf\<close>, \<open>hex\<close>) are the fields of the record
  \<open>crypto\<close>, and \<open>crypto_laws\<close> states what their documentation promises.
\<close>

section \<open>Third-party functions\<close>

text \<open>
  \<open>c_public sk\<close> is \<open>SigningKey::from_bytes(sk).verifying_key().to_bytes()\<close> and
  \<open>c_sign sk d\<close> is \<open>SigningKey::from_bytes(sk).sign(d).to_bytes()\<close>; \<open>c_vk\<close> and
  \<open>c_sig\<close> are the fallible \<open>from_bytes\<close> of a verifying key and of a signature.
  \<open>c_blake2b n\<close> is \<open>None\<close> where \<open>Blake2bVar::new(n)\<close> refuses the output size,
  \<open>c_hkdf salt ikm info n\<close> where \<open>expand\<close> refuses the length.
\<close>

record ('vk, 's) crypto =
  c_sha256 :: "u8 list \<Rightarrow> u8 list"
  c_blake2b :: "nat \<Rightarrow> (u8 list \<Rightarrow> u8 list) option"
  c_blake2s :: "u8 list \<Rightarrow> u8 list"
  c_hkdf :: "u8 list \<Rightarrow> u8 list \<Rightarrow> u8 list \<Rightarrow> nat \<Rightarrow> u8 list option"
  c_public :: "u8 list \<Rightarrow> u8 list"
  c_sign :: "u8 list \<Rightarrow> u8 list \<Rightarrow> u8 list"
  c_vk :: "u8 list \<Rightarrow> 'vk option"
  c_sig :: "u8 list \<Rightarrow> 's option"
  c_check :: "'vk \<Rightarrow> u8 list \<Rightarrow> 's \<Rightarrow> bool"
  c_hex :: "u8 list \<Rightarrow> string"

section \<open>Constants and types\<close>

definition SIGNATURE_LENGTH :: nat where "SIGNATURE_LENGTH = 64"
definition PUBLIC_KEY_LENGTH :: nat where "PUBLIC_KEY_LENGTH = 32"
definition PRIVATE_KEY_LENGTH :: nat where "PRIVATE_KEY_LENGTH = 32"
definition ADDRESS_LENGTH :: nat where "ADDRESS_LENGTH = 20"
definition HASH_LENGTH :: nat where "HASH_LENGTH = 32"

lemmas key_sizes = SIGNATURE_LENGTH_def PUBLIC_KEY_LENGTH_def PRIVATE_KEY_LENGTH_def
  ADDRESS_LENGTH_def HASH_LENGTH_def

datatype sig_hash = SigHash (sh_bytes: "u8 list")
datatype Signature = Signature (sig_bytes: "u8 list")
datatype PublicKey = PublicKey (pk_bytes: "u8 list")
datatype SecretKey = SecretKey (sk_bytes: "u8 list")
datatype Address = Address (addr_bytes: "u8 list")

record KeyPair =
  kp_secret :: SecretKey
  kp_public :: PublicKey

definition sig_hash_to_string :: "('vk, 's) crypto \<Rightarrow> sig_hash \<Rightarrow> string" where
  "sig_hash_to_string env h = ''0x'' @ c_hex env (take 8 (sh_bytes h))"

definition Address_to_string :: "('vk, 's) crypto \<Rightarrow> Address \<Rightarrow> string" where
  "Address_to_string env a = ''addr_'' @ c_hex env (take 8 (addr_bytes a))"

section \<open>Hashing\<close>

definition sig_sha3_256 :: "('vk, 's) crypto \<Rightarrow> u8 list \<Rightarrow> sig_hash exec" where
  "sig_sha3_256 env data =
     do { arr \<leftarrow> copy_from_slice (replicate 32 0) (c_sha256 env data); Some (SigHash arr) }"

definition blake2b :: "('vk, 's) crypto \<Rightarrow> nat \<Rightarrow> u8 list \<Rightarrow> u8 list exec" where
  "blake2b env n data = do { hasher \<leftarrow> c_blake2b env n; Some (hasher data) }"

definition blake2b_160 :: "('vk, 's) crypto \<Rightarrow> u8 list \<Rightarrow> Address exec" where
  "blake2b_160 env data = do { h \<leftarrow> blake2b env 20 data; Some (Address h) }"

definition SigHash_new :: "u8 list \<Rightarrow> sig_hash" where
  "SigHash_new bytes = SigHash (copy_prefix (replicate 32 0) bytes)"

definition SigHash_zero :: sig_hash where
  "SigHash_zero = SigHash (replicate 32 0)"

definition SigHash_as_bytes :: "sig_hash \<Rightarrow> u8 list" where
  "SigHash_as_bytes h = sh_bytes h"

definition blake2s_256 :: "('vk, 's) crypto \<Rightarrow> u8 list \<Rightarrow> sig_hash" where
  "blake2s_256 env data = SigHash_new (c_blake2s env data)"

section \<open>Keys\<close>

text \<open>The bytes drawn from \<open>OsRng\<close> are the argument \<open>random\<close>.\<close>

definition keypair_of :: "('vk, 's) crypto \<Rightarrow> u8 list \<Rightarrow> KeyPair" where
  "keypair_of env signing_key =
     \<lparr>kp_secret = SecretKey signing_key, kp_public = PublicKey (c_public env signing_key)\<rparr>"

definition generate_keypair :: "('vk, 's) crypto \<Rightarrow> u8 list \<Rightarrow> KeyPair" where
  "generate_keypair env random = keypair_of env random"

definition expand_to_32 :: "('vk, 's) crypto \<Rightarrow> u8 list \<Rightarrow> u8 list exec" where
  "expand_to_32 env data = copy_from_slice (replicate 32 0) (c_sha256 env data)"

definition generate_keypair_from_seed :: "('vk, 's) crypto \<Rightarrow> u8 list \<Rightarrow> KeyPair exec" where
  "generate_keypair_from_seed env seed = do { arr \<leftarrow> expand_to_32 env seed; Some (keypair_of env arr) }"

definition derive_public_key :: "('vk, 's) crypto \<Rightarrow> SecretKey \<Rightarrow> PublicKey" where
  "derive_public_key env secret = PublicKey (c_public env (sk_bytes secret))"

definition ascii_bytes :: "string \<Rightarrow> u8 list" where
  "ascii_bytes s = map of_char s"

definition keygen_deterministic :: "('vk, 's) crypto \<Rightarrow> u8 list \<Rightarrow> u8 list \<Rightarrow> KeyPair exec" where
  "keygen_deterministic env master_seed derivation_path =
     do { okm \<leftarrow> c_hkdf env master_seed derivation_path (ascii_bytes ''crypto-coin-key'') 32;
          generate_keypair_from_seed env okm }"

section \<open>Signing\<close>

definition sign :: "('vk, 's) crypto \<Rightarrow> SecretKey \<Rightarrow> u8 list \<Rightarrow> Signature" where
  "sign env secret data = Signature (c_sign env (sk_bytes secret) data)"

definition sig_verify :: "('vk, 's) crypto \<Rightarrow> PublicKey \<Rightarrow> Signature \<Rightarrow> u8 list \<Rightarrow> bool" where
  "sig_verify env public signature data =
     (case c_vk env (pk_bytes public) of
        None \<Rightarrow> False
      | Some verifying_key \<Rightarrow>
          (case c_sig env (sig_bytes signature) of
             None \<Rightarrow> False
           | Some sig \<Rightarrow> c_check env verifying_key data sig))"

definition Signature_new :: "u8 list \<Rightarrow> Signature" where
  "Signature_new bytes = Signature (copy_prefix (replicate 64 0) bytes)"

definition Signature_as_bytes :: "Signature \<Rightarrow> u8 list" where
  "Signature_as_bytes s = sig_bytes s"

section \<open>Addresses\<close>

definition derive_address :: "('vk, 's) crypto \<Rightarrow> PublicKey \<Rightarrow> Address exec" where
  "derive_address env public = blake2b_160 env (pk_bytes public)"

definition verify_address :: "('vk, 's) crypto \<Rightarrow> Address \<Rightarrow> PublicKey \<Rightarrow> bool exec" where
  "verify_address env address public = do { a \<leftarrow> derive_address env public; Some (a = address) }"

section \<open>Verifiable random function\<close>

definition vrf_prove :: "('vk, 's) crypto \<Rightarrow> SecretKey \<Rightarrow> u8 list \<Rightarrow> u8 list exec" where
  "vrf_prove env secret input =
     do { h \<leftarrow> sig_sha3_256 env (sk_bytes secret @ input);
          Some (sh_bytes h @ sig_bytes (sign env secret (sh_bytes h))) }"

definition vrf_verify ::
  "('vk, 's) crypto \<Rightarrow> PublicKey \<Rightarrow> u8 list \<Rightarrow> u8 list \<Rightarrow> sig_hash option" where
  "vrf_verify env public input proof_bytes =
     (if length proof_bytes < 64 then None
      else let h = SigHash_new (take 32 proof_bytes);
               sig = Signature_new (drop 32 proof_bytes)
           in if sig_verify env public sig (sh_bytes h) then Some h else None)"

section \<open>Commitments\<close>

definition commit :: "('vk, 's) crypto \<Rightarrow> u8 list \<Rightarrow> u8 list \<Rightarrow> sig_hash exec" where
  "commit env value blinding = sig_sha3_256 env (value @ blinding)"

definition open_commitment ::
  "('vk, 's) crypto \<Rightarrow> sig_hash \<Rightarrow> u8 list \<Rightarrow> u8 list \<Rightarrow> bool exec" where
  "open_commitment env commitment value blinding =
     do { c \<leftarrow> commit env value blinding; Some (c = commitment) }"

section \<open>What the third-party functions promise\<close>

definition signature_laws :: "('vk, 's) crypto \<Rightarrow> bool" where
  "signature_laws env \<longleftrightarrow> (\<forall>sk data. length sk = 32 \<longrightarrow>
     length (c_public env sk) = 32 \<and> length (c_sign env sk data) = 64 \<and>
     (\<exists>vk sig. c_vk env (c_public env sk) = Some vk \<and> c_sig env (c_sign env sk data) = Some sig \<and>
        c_check env vk data sig))"

definition digest_laws :: "('vk, 's) crypto \<Rightarrow> bool" where
  "digest_laws env \<longleftrightarrow> (\<forall>data. length (c_sha256 env data) = 32) \<and>
     (\<exists>h. c_blake2b env 20 = Some h \<and> (\<forall>data. length (h data) = 20))"

definition hkdf_laws :: "('vk, 's) crypto \<Rightarrow> bool" where
  "hkdf_laws env \<longleftrightarrow> (\<forall>salt ikm info n. n \<le> 255 * 32 \<longrightarrow>
     (\<exists>okm. c_hkdf env salt ikm info n = Some okm \<and> length okm = n))"

definition wf_secret :: "SecretKey \<Rightarrow> bool" where
  "wf_secret sk \<longleftrightarrow> length (sk_bytes sk) = PRIVATE_KEY_LENGTH"

definition wf_keypair :: "('vk, 's) crypto \<Rightarrow> KeyPair \<Rightarrow> bool" where
  "wf_keypair env kp \<longleftrightarrow> wf_secret (kp_secret kp) \<and>
     length (pk_bytes (kp_public kp)) = PUBLIC_KEY_LENGTH \<and>
     kp_public kp = derive_public_key env (kp_secret kp)"

lemma sig_sha3_256_returns [simp]:
  "digest_laws env \<Longrightarrow> sig_sha3_256 env data = Some (SigHash (c_sha256 env data))"
  by (simp add: digest_laws_def sig_sha3_256_def copy_from_slice_def)

lemma expand_to_32_returns [simp]: "digest_laws env \<Longrightarrow> expand_to_32 env data = Some (c_sha256 env data)"
  by (simp add: digest_laws_def expand_to_32_def copy_from_slice_def)

lemma length_sha256 [simp]: "digest_laws env \<Longrightarrow> length (c_sha256 env data) = 32"
  by (simp add: digest_laws_def)

lemma hkdf_returns:
  "hkdf_laws env \<Longrightarrow> n \<le> 255 * 32 \<Longrightarrow> \<exists>okm. c_hkdf env salt ikm info n = Some okm"
  unfolding hkdf_laws_def by blast

lemma wf_keypair_of [wf_intros]:
  "signature_laws env \<Longrightarrow> length k = 32 \<Longrightarrow> wf_keypair env (keypair_of env k)"
  by (simp add: wf_keypair_def wf_secret_def keypair_of_def derive_public_key_def key_sizes
      signature_laws_def)

text \<open>Addresses: a derived address verifies, and no other address does.\<close>

lemma verify_address_iff:
  assumes "digest_laws env"
  shows "\<exists>a. derive_address env pk = Some a \<and> length (addr_bytes a) = ADDRESS_LENGTH \<and>
    (\<forall>b. verify_address env b pk = Some (b = a))"
  using assms
  by (auto simp: digest_laws_def derive_address_def verify_address_def blake2b_160_def blake2b_def
      key_sizes)

section \<open>Interfaces\<close>

text \<open>
  A signature scheme: what the key owner signs verifies under the derived public key.
\<close>

locale signature_scheme =
  fixes valid :: "'sk \<Rightarrow> bool"
    and derive :: "'sk \<Rightarrow> 'pk"
    and sgn :: "'sk \<Rightarrow> 'm \<Rightarrow> 's"
    and vfy :: "'pk \<Rightarrow> 's \<Rightarrow> 'm \<Rightarrow> bool"
  assumes correct: "valid sk \<Longrightarrow> vfy (derive sk) (sgn sk m) m"

text \<open>
  A signed value: a checker that unpacks a value and a signature from a proof and answers
  with the value when the signature verifies, whatever the question was.
\<close>

locale signed_value = signature_scheme valid derive sgn vfy
  for valid :: "'sk \<Rightarrow> bool" and derive :: "'sk \<Rightarrow> 'pk"
    and sgn :: "'sk \<Rightarrow> 'm \<Rightarrow> 's" and vfy :: "'pk \<Rightarrow> 's \<Rightarrow> 'm \<Rightarrow> bool" +
  fixes wf_value :: "'o \<Rightarrow> bool"
    and message :: "'o \<Rightarrow> 'm"
    and pack :: "'o \<Rightarrow> 's \<Rightarrow> 'p"
    and check :: "'pk \<Rightarrow> 'x \<Rightarrow> 'p \<Rightarrow> 'o option"
  assumes check_pack: "valid sk \<Longrightarrow> wf_value v \<Longrightarrow>
      check pk x (pack v (sgn sk (message v))) =
        (if vfy pk (sgn sk (message v)) (message v) then Some v else None)"
begin

lemma owner_chooses:
  "valid sk \<Longrightarrow> wf_value v \<Longrightarrow> check (derive sk) x (pack v (sgn sk (message v))) = Some v"
  by (simp add: check_pack correct)

end

interpretation ed: signature_scheme
  "\<lambda>sk. signature_laws env \<and> wf_secret sk" "derive_public_key env" "sign env" "sig_verify env"
proof unfold_locales
  fix sk m assume "signature_laws env \<and> wf_secret sk"
  then obtain vk sig where "c_vk env (c_public env (sk_bytes sk)) = Some vk"
    "c_sig env (c_sign env (sk_bytes sk) m) = Some sig" "c_check env vk m sig"
    unfolding signature_laws_def wf_secret_def key_sizes by blast
  then show "sig_verify env (derive_public_key env sk) (sign env sk m) m"
    by (simp add: sig_verify_def derive_public_key_def sign_def)
qed

lemma length_sign:
  "signature_laws env \<Longrightarrow> wf_secret sk \<Longrightarrow> length (sig_bytes (sign env sk m)) = SIGNATURE_LENGTH"
  by (simp add: signature_laws_def wf_secret_def sign_def key_sizes)

interpretation vrf: signed_value
  "\<lambda>sk. signature_laws env \<and> wf_secret sk" "derive_public_key env" "sign env" "sig_verify env"
  "\<lambda>h. length (sh_bytes h) = HASH_LENGTH" sh_bytes "\<lambda>h s. sh_bytes h @ sig_bytes s" "vrf_verify env"
proof unfold_locales
  fix sk h pk x
  assume "signature_laws env \<and> wf_secret sk" and "length (sh_bytes h) = HASH_LENGTH"
  then show "vrf_verify env pk x (sh_bytes h @ sig_bytes (sign env sk (sh_bytes h))) =
      (if sig_verify env pk (sign env sk (sh_bytes h)) (sh_bytes h) then Some h else None)"
    using length_sign [of env sk "sh_bytes h"]
    by (simp add: vrf_verify_def SigHash_new_def Signature_new_def key_sizes Let_def)
qed

section \<open>A concrete instance for the witnesses\<close>

definition fit :: "nat \<Rightarrow> u8 list \<Rightarrow> u8 list" where
  "fit n data = copy_prefix (replicate n 0) data"

definition toy_crypto :: "(u8 list, u8 list) crypto" where
  "toy_crypto = \<lparr>c_sha256 = fit 32, c_blake2b = (\<lambda>n. Some (fit n)), c_blake2s = fit 32,
     c_hkdf = (\<lambda>salt ikm info n. Some (fit n (salt @ ikm @ info))), c_public = fit 32,
     c_sign = (\<lambda>sk data. fit 64 (sk @ data)), c_vk = Some, c_sig = Some,
     c_check = (\<lambda>vk data sig. sig = fit 64 (vk @ data)), c_hex = (\<lambda>_. [])\<rparr>"

lemma toy_laws: "signature_laws toy_crypto" "digest_laws toy_crypto" "hkdf_laws toy_crypto"
  by (simp_all add: signature_laws_def digest_laws_def hkdf_laws_def toy_crypto_def fit_def)

section \<open>Properties\<close>

text \<open>
  C38: Every way of making a key pair (random bytes, a seed of any length, a master seed with a
  derivation path) returns a pair of 32-byte keys whose public key is the one derived from the
  secret key, and what the secret key signs verifies under the public key.
\<close>

theorem keypair_signs:
  assumes "signature_laws env" and "digest_laws env" and "hkdf_laws env" and "length random = 32"
    and "made \<in> {Some (generate_keypair env random), generate_keypair_from_seed env seed,
      keygen_deterministic env seed path}"
  shows "\<exists>kp. made = Some kp \<and> wf_keypair env kp \<and>
    sig_verify env (kp_public kp) (sign env (kp_secret kp) data) data"
proof -
  obtain okm where "c_hkdf env seed path (ascii_bytes ''crypto-coin-key'') 32 = Some okm"
    using hkdf_returns [OF assms(3), of 32 seed path "ascii_bytes ''crypto-coin-key''"] by auto
  then have "made \<in> Some ` keypair_of env ` {random, c_sha256 env seed, c_sha256 env okm}"
    using assms(2,5)
    by (auto simp: generate_keypair_def generate_keypair_from_seed_def keygen_deterministic_def)
  then obtain k where "k \<in> {random, c_sha256 env seed, c_sha256 env okm}"
    and made: "made = Some (keypair_of env k)" by blast
  with assms(2,4) have "length k = 32" by auto
  with assms(1) have "wf_keypair env (keypair_of env k)" by (simp add: wf_keypair_of)
  with made ed.correct [of env "kp_secret (keypair_of env k)" data] assms(1) show ?thesis
    by (auto simp: wf_keypair_def)
qed

theorem keypair_signs_witness:
  "\<exists>kp. keygen_deterministic toy_crypto [1] [2] = Some kp \<and> wf_keypair toy_crypto kp \<and>
    sig_verify toy_crypto (kp_public kp) (sign toy_crypto (kp_secret kp) [7]) [7]"
  by (rule keypair_signs [where random = "replicate 32 0" and seed = "[1]" and path = "[2]"])
    (simp_all add: toy_laws)

text \<open>
  C37: An honest VRF proof has 96 bytes and verifies under the prover's public key, and the
  verifier's output is the hash of the secret key followed by the input.
\<close>

theorem vrf_roundtrip:
  assumes "signature_laws env" and "digest_laws env" and "wf_secret sk"
  shows "\<exists>p. vrf_prove env sk input = Some p \<and> length p = 96 \<and>
    vrf_verify env (derive_public_key env sk) input p = sig_sha3_256 env (sk_bytes sk @ input)"
  using vrf.owner_chooses [of env sk "SigHash (c_sha256 env (sk_bytes sk @ input))" input] assms
  by (simp add: vrf_prove_def key_sizes length_sign)

theorem vrf_roundtrip_witness:
  "\<exists>p. vrf_prove toy_crypto (SecretKey (replicate 32 5)) [1] = Some p \<and> length p = 96 \<and>
    vrf_verify toy_crypto (derive_public_key toy_crypto (SecretKey (replicate 32 5))) [1] p =
      sig_sha3_256 toy_crypto (replicate 32 5 @ [1])"
  using vrf_roundtrip [OF toy_laws(1,2), of "SecretKey (replicate 32 5)" "[1]"]
  by (simp add: wf_secret_def key_sizes)

text \<open>
  The output of the VRF is not tied to the input: for every 32-byte value \<open>h\<close> the owner
  of a secret key has one proof that the verifier accepts with output \<open>h\<close> for every input.
\<close>

lemma vrf_owner_picks_output:
  assumes "signature_laws env" and "wf_secret sk" and "length h = HASH_LENGTH"
  shows "\<exists>p. \<forall>input. vrf_verify env (derive_public_key env sk) input p = Some (SigHash h)"
  using vrf.owner_chooses [of env sk "SigHash h"] assms by auto

lemma vrf_owner_picks_output_witness:
  "\<exists>p. \<forall>input. vrf_verify toy_crypto (derive_public_key toy_crypto (SecretKey (replicate 32 5))) input p
     = Some (SigHash (replicate 32 9))"
  by (rule vrf_owner_picks_output) (simp_all add: toy_laws wf_secret_def key_sizes)

text \<open>
  The verifier reads every proof of at least 64 bytes as if it had been cut or filled with
  zero bytes to 96: proofs of 64 to 95 bytes are not refused, bytes past the 96th do not
  count, and the input plays no part.
\<close>

lemma vrf_verify_resizes:
  assumes "64 \<le> length p"
  shows "vrf_verify env pk input p = vrf_verify env pk input' (vec_resize 96 0 p)"
proof -
  have "copy_prefix (replicate 64 0) (drop 32 p) = drop 32 (vec_resize 96 0 p)"
    using assms by (auto simp: copy_prefix_def vec_resize_def Let_def min_def drop_take)
  moreover have "take 32 (vec_resize 96 0 p) = take 32 p"
    using assms by (simp add: vec_resize_def)
  ultimately show ?thesis
    using assms by (simp add: vrf_verify_def Signature_new_def)
qed

lemma vrf_verify_resizes_witness:
  "vrf_verify toy_crypto (PublicKey (replicate 32 0)) [1] (replicate 64 0) =
   vrf_verify toy_crypto (PublicKey (replicate 32 0)) [2] (replicate 96 0)"
  using vrf_verify_resizes [of "replicate 64 0" toy_crypto "PublicKey (replicate 32 0)" "[1]" "[2]"]
  by (simp add: vec_resize_def replicate_add [symmetric])

text \<open>
  A commitment opens to the committed pair. It binds the concatenation of value and
  blinding only: it opens to every other way of cutting the same bytes, and a pair it opens to
  with other bytes is a collision of SHA-256.
\<close>

lemma commit_binds_concatenation:
  assumes "digest_laws env"
  shows "\<exists>c. commit env v b = Some c \<and> open_commitment env c v b = Some True \<and>
    (\<forall>n. let vb = v @ b in open_commitment env c (take n vb) (drop n vb) = Some True) \<and>
    (\<forall>v' b'. open_commitment env c v' b' = Some True \<longrightarrow> v' @ b' \<noteq> v @ b \<longrightarrow>
       c_sha256 env (v' @ b') = c_sha256 env (v @ b))"
  using assms by (auto simp: commit_def open_commitment_def Let_def simp del: take_append drop_append)

lemma commit_binds_concatenation_witness:
  "\<exists>c. commit toy_crypto [1, 2] [3] = Some c \<and> open_commitment toy_crypto c [1] [2, 3] = Some True"
proof -
  from commit_binds_concatenation [OF toy_laws(2), of "[1, 2]" "[3]"] obtain c where
    "commit toy_crypto [1, 2] [3] = Some c"
    and "\<forall>n. let vb = [1, 2] @ [3] in open_commitment toy_crypto c (take n vb) (drop n vb) = Some True"
    by blast
  then show ?thesis by (auto dest: spec [where x = 1])
qed

end
