(* ===== verification/F64.thy ===== *)
theory F64
  imports Net_Addr Complex_Main "HOL-Library.Log_Nat"
begin

text \<open>
  What the Rust workspace computes with \<open>f64\<close>: conversion of unsigned integers, division,
  multiplication, and printing with one digit after the point. A finite non-negative \<open>f64\<close>
  is its value, a rational number, and an operation rounds the exact result to 53 significant
  bits, to nearest with ties to even. Results stay far from the ends of the exponent range
  (\<open>2 ^ - 64\<close> to \<open>2 ^ 71\<close>), so there is neither overflow nor underflow.
\<close>

section \<open>Rounding\<close>

definition round_even :: "rat \<Rightarrow> int" where
  "round_even x =
     (let n = \<lfloor>x\<rfloor>; f = x - of_int n
      in if f < 1 / 2 then n else if 1 / 2 < f then n + 1 else if even n then n else n + 1)"

text \<open>The exponent \<open>e\<close> with \<open>2 ^ e \<le> x < 2 ^ (e + 1)\<close>, for positive \<open>x\<close>.\<close>

definition f64_exp :: "rat \<Rightarrow> int" where
  "f64_exp x =
     (case quotient_of x of (p, q) \<Rightarrow>
        let e = bitlen p - bitlen q in if 2 powi e \<le> x then e else e - 1)"

definition f64_round :: "rat \<Rightarrow> rat" where
  "f64_round x = (if x = 0 then 0 else let u = 2 powi (f64_exp x - 52) in of_int (round_even (x / u)) * u)"

definition f64_of :: "'a::len word \<Rightarrow> rat" where
  "f64_of w = f64_round (of_nat (unat w))"

definition f64_div :: "rat \<Rightarrow> rat \<Rightarrow> rat" where
  "f64_div x y = f64_round (x / y)"

definition f64_mul :: "rat \<Rightarrow> rat \<Rightarrow> rat" where
  "f64_mul x y = f64_round (x * y)"

text \<open>The format \<open>{:.1}\<close>: the exact value rounded to tenths, ties to even.\<close>

definition tenths :: "rat \<Rightarrow> nat" where
  "tenths x = nat (round_even (x * 10))"

definition show_f64_1 :: "rat \<Rightarrow> string" where
  "show_f64_1 x = show_nat (tenths x div 10) @ ''.'' @ show_nat (tenths x mod 10)"

section \<open>Rounding to an integer\<close>

lemma round_even_of_int [simp]: "round_even (of_int n) = n"
  by (simp add: round_even_def)

lemma round_even_error: "\<bar>of_int (round_even x) - x\<bar> \<le> 1 / 2"
proof -
  have "of_int \<lfloor>x\<rfloor> \<le> x" "x < of_int \<lfloor>x\<rfloor> + 1" by (rule of_int_floor_le, linarith)
  then show ?thesis by (auto simp: round_even_def Let_def abs_le_iff)
qed

lemma round_even_mono: "x \<le> y \<Longrightarrow> round_even x \<le> round_even y"
proof -
  assume le: "x \<le> y"
  then have fl: "\<lfloor>x\<rfloor> \<le> \<lfloor>y\<rfloor>" by (rule floor_mono)
  show ?thesis
  proof (cases "\<lfloor>x\<rfloor> = \<lfloor>y\<rfloor>")
    case True
    with le show ?thesis by (auto simp: round_even_def Let_def)
  next
    case False
    with fl have "\<lfloor>x\<rfloor> + 1 \<le> \<lfloor>y\<rfloor>" by linarith
    moreover have "round_even x \<le> \<lfloor>x\<rfloor> + 1" "\<lfloor>y\<rfloor> \<le> round_even y" by (auto simp: round_even_def Let_def)
    ultimately show ?thesis by linarith
  qed
qed

lemma round_even_le: "x \<le> of_int n \<Longrightarrow> round_even x \<le> n"
  using round_even_mono [of x "of_int n"] by simp

lemma round_even_ge: "of_int n \<le> x \<Longrightarrow> n \<le> round_even x"
  using round_even_mono [of "of_int n" x] by simp

section \<open>The exponent\<close>

lemma bitlen_powi:
  assumes "0 < (n :: int)"
  shows "2 powi (bitlen n - 1) \<le> (of_int n :: rat)" and "(of_int n :: rat) < 2 powi bitlen n"
proof -
  have b: "2 ^ nat (bitlen n - 1) \<le> n" "n < 2 ^ nat (bitlen n)" using bitlen_bounds [OF assms] by auto
  have "1 \<le> bitlen n" using assms bitlen_eq_zero_iff [of n] bitlen_nonneg [of n] by linarith
  then have "(2 :: rat) powi (bitlen n - 1) = of_int (2 ^ nat (bitlen n - 1))"
    "(2 :: rat) powi bitlen n = of_int (2 ^ nat (bitlen n))"
    by (simp_all add: power_int_nonneg_exp)
  with b show "2 powi (bitlen n - 1) \<le> (of_int n :: rat)" "(of_int n :: rat) < 2 powi bitlen n"
    by (simp_all only: of_int_le_iff of_int_less_iff)
qed

lemma f64_exp_bounds:
  assumes "0 < x"
  shows "2 powi f64_exp x \<le> x" and "x < 2 powi (f64_exp x + 1)"
proof -
  obtain p q where pq: "quotient_of x = (p, q)" by (cases "quotient_of x")
  then have q: "0 < q" and x: "x = of_int p / of_int q" by (rule quotient_of_denom_pos, rule quotient_of_div)
  with assms have p: "0 < p" by (simp add: zero_less_divide_iff)
  let ?e = "bitlen p - bitlen q"
  note bp = bitlen_powi [OF p] and bq = bitlen_powi [OF q]
  have pos: "(0 :: rat) < of_int q" "(0 :: rat) < of_int p" using p q by simp_all
  have "2 powi (?e - 1) = 2 powi (bitlen p - 1) / (2 powi bitlen q :: rat)"
    by (simp add: power_int_diff)
  also have "\<dots> \<le> of_int p / of_int q"
    using bp(1) bq(2) pos by (intro frac_le) simp_all
  finally have lo: "2 powi (?e - 1) \<le> x" by (simp add: x)
  have "of_int p / of_int q < 2 powi bitlen p / (2 powi (bitlen q - 1) :: rat)"
    using bp(2) bq(1) pos by (intro frac_less) simp_all
  also have "\<dots> = 2 powi (?e + 1)"
    by (simp add: power_int_diff power_int_add)
  finally have hi: "x < 2 powi (?e + 1)" by (simp add: x)
  show "2 powi f64_exp x \<le> x" "x < 2 powi (f64_exp x + 1)"
    using lo hi by (auto simp: f64_exp_def pq Let_def)
qed

lemma f64_exp_mono:
  assumes "0 < x" and "x \<le> y"
  shows "f64_exp x \<le> f64_exp y"
proof (rule ccontr)
  assume "\<not> f64_exp x \<le> f64_exp y"
  then have "(2 :: rat) powi (f64_exp y + 1) \<le> 2 powi f64_exp x" by (intro power_int_increasing) simp_all
  with f64_exp_bounds(1) [OF assms(1)] f64_exp_bounds(2) [of y] assms show False by linarith
qed

section \<open>Rounding to 53 bits\<close>

lemma f64_round_0 [simp]: "f64_round 0 = 0"
  by (simp add: f64_round_def)

lemma scaled_bounds:
  assumes "0 < x"
  shows "of_int (2 ^ 52) \<le> x / 2 powi (f64_exp x - 52)" and "x / 2 powi (f64_exp x - 52) \<le> of_int (2 ^ 53)"
proof -
  have "(2 :: rat) powi (f64_exp x - 52) = 2 powi f64_exp x / 2 ^ 52" by (simp add: power_int_diff)
  moreover have "(2 :: rat) powi (f64_exp x + 1) = 2 powi f64_exp x * 2" by (simp add: power_int_add)
  ultimately show "of_int (2 ^ 52) \<le> x / 2 powi (f64_exp x - 52)" "x / 2 powi (f64_exp x - 52) \<le> of_int (2 ^ 53)"
    using f64_exp_bounds [OF assms] by (simp_all add: field_simps)
qed

lemma f64_round_bounds:
  assumes "0 < x"
  shows "2 powi f64_exp x \<le> f64_round x" and "f64_round x \<le> 2 powi (f64_exp x + 1)"
proof -
  let ?u = "2 powi (f64_exp x - 52) :: rat" and ?n = "round_even (x / 2 powi (f64_exp x - 52))"
  have n: "2 ^ 52 \<le> ?n" "?n \<le> 2 ^ 53"
    using round_even_ge [OF scaled_bounds(1) [OF assms]] round_even_le [OF scaled_bounds(2) [OF assms]] .
  have r: "f64_round x = of_int ?n * ?u" using assms by (simp add: f64_round_def Let_def)
  have "of_int (2 ^ 52) * ?u \<le> of_int ?n * ?u" "of_int ?n * ?u \<le> of_int (2 ^ 53) * ?u"
    using n by (intro mult_right_mono; simp only: of_int_le_iff; simp)+
  moreover have "of_int (2 ^ 52) * ?u = 2 powi f64_exp x" "of_int (2 ^ 53) * ?u = 2 powi (f64_exp x + 1)"
    by (simp_all add: power_int_diff power_int_add)
  ultimately show "2 powi f64_exp x \<le> f64_round x" "f64_round x \<le> 2 powi (f64_exp x + 1)"
    unfolding r by (simp_all only:)
qed

lemma f64_round_pos: "0 < x \<Longrightarrow> 0 < f64_round x"
  by (rule order_less_le_trans [OF zero_less_power_int f64_round_bounds(1)]) simp_all

lemma f64_round_nonneg: "0 \<le> x \<Longrightarrow> 0 \<le> f64_round x"
  using f64_round_pos [of x] by (cases "x = 0") auto

lemma f64_round_mono:
  assumes "0 \<le> x" and "x \<le> y"
  shows "f64_round x \<le> f64_round y"
proof (cases "x = 0")
  case True
  with assms show ?thesis by (simp add: f64_round_nonneg)
next
  case False
  with assms have pos: "0 < x" "0 < y" by simp_all
  show ?thesis
  proof (cases "f64_exp x = f64_exp y")
    case True
    let ?u = "2 powi (f64_exp x - 52) :: rat"
    have "round_even (x / ?u) \<le> round_even (y / ?u)" using assms(2) by (intro round_even_mono divide_right_mono) simp_all
    then show ?thesis using pos True by (simp add: f64_round_def Let_def)
  next
    case False
    with f64_exp_mono [OF pos(1) assms(2)] have "(2 :: rat) powi (f64_exp x + 1) \<le> 2 powi f64_exp y"
      by (intro power_int_increasing) simp_all
    with f64_round_bounds(2) [OF pos(1)] f64_round_bounds(1) [OF pos(2)] show ?thesis by linarith
  qed
qed

lemma f64_round_error:
  assumes "0 \<le> x"
  shows "\<bar>f64_round x - x\<bar> \<le> x / 2 ^ 53"
proof (cases "x = 0")
  case False
  with assms have x: "0 < x" by simp
  let ?u = "2 powi (f64_exp x - 52) :: rat"
  have "f64_round x - x = (of_int (round_even (x / ?u)) - x / ?u) * ?u"
    using False by (simp add: f64_round_def Let_def field_simps)
  then have "\<bar>f64_round x - x\<bar> = \<bar>of_int (round_even (x / ?u)) - x / ?u\<bar> * ?u" by (simp add: abs_mult)
  also have "\<dots> \<le> 1 / 2 * ?u" using round_even_error by (rule mult_right_mono) simp
  also have "1 / 2 * ?u = 2 powi f64_exp x / 2 ^ 53" by (simp add: power_int_diff)
  also have "\<dots> \<le> x / 2 ^ 53" using f64_exp_bounds(1) [OF x] by (rule divide_right_mono) simp
  finally show ?thesis .
qed simp

text \<open>Integers below \<open>2 ^ 53\<close> are exact.\<close>

lemma f64_round_nat:
  assumes "n < 2 ^ 53"
  shows "f64_round (of_nat n) = of_nat n"
proof (cases "n = 0")
  case False
  then have "0 < (of_nat n :: rat)" by simp
  note e = f64_exp_bounds(1) [OF this]
  have "f64_exp (of_nat n) \<le> 52"
  proof (rule ccontr)
    assume "\<not> f64_exp (of_nat n) \<le> 52"
    then have "(2 :: rat) powi 53 \<le> 2 powi f64_exp (of_nat n)" by (intro power_int_increasing) simp_all
    with e have "of_nat (2 ^ 53) \<le> (of_nat n :: rat)" by simp
    with assms show False by (simp only: of_nat_le_iff)
  qed
  then obtain k where k: "f64_exp (of_nat n) - 52 = - int k" by (metis diff_le_0_iff_le minus_minus neg_0_le_iff_le zero_le_imp_eq_int)
  have "of_nat n / (2 powi (- int k) :: rat) = of_int (int n * 2 ^ k)" by (simp add: power_int_minus_divide)
  then show ?thesis
    using False unfolding f64_round_def Let_def k by (simp only: round_even_of_int) (simp add: power_int_minus_divide)
qed simp

lemma f64_round_numeral [simp]: "numeral n < (2 ^ 53 :: nat) \<Longrightarrow> f64_round (numeral n) = numeral n"
  using f64_round_nat [of "numeral n"] by simp

lemma f64_round_1 [simp]: "f64_round 1 = 1"
  using f64_round_nat [of 1] by simp

lemma f64_of_nonneg: "0 \<le> f64_of w"
  unfolding f64_of_def by (rule f64_round_nonneg, rule of_nat_0_le_iff)

lemma f64_of_pos: "0 < unat w \<Longrightarrow> 0 < f64_of w"
  unfolding f64_of_def by (rule f64_round_pos) (simp del: of_nat_unat)

lemma f64_of_mono: "unat v \<le> unat w \<Longrightarrow> f64_of v \<le> f64_of w"
  unfolding f64_of_def by (intro f64_round_mono) (simp_all del: of_nat_unat)

lemma f64_of_exact: "unat w < 2 ^ 53 \<Longrightarrow> f64_of w = of_nat (unat w)"
  unfolding f64_of_def by (rule f64_round_nat)

section \<open>Printing\<close>

lemma tenths_bounds:
  assumes "0 \<le> x"
  shows "\<bar>of_nat (tenths x) - x * 10\<bar> \<le> 1 / 2"
proof -
  have "0 \<le> round_even (x * 10)" using assms by (intro round_even_ge) simp
  then show ?thesis using round_even_error [of "x * 10"] by (simp add: tenths_def)
qed

lemma tenths_le: "x * 10 \<le> of_nat n \<Longrightarrow> tenths x \<le> n"
  using round_even_le [of "x * 10" "int n"] by (simp add: tenths_def nat_le_iff)

lemma show_f64_1_nat: "show_f64_1 (of_nat n) = show_nat n @ ''.0''"
proof -
  have "tenths (of_nat n) = n * 10"
    using round_even_of_int [of "int n * 10"] by (simp add: tenths_def nat_mult_distrib)
  then show ?thesis by (simp add: show_f64_1_def show_nat.simps [of 0] digit_char_def char_of_def bit_0)
qed

end
