(* ===== verification/Test_Network.thy ===== *)
theory Test_Network
  imports F64
begin

text \<open>
  \<open>tests/integration/mod.rs\<close>: the simulated validator network. The nodes of a network are
  kept in one map and visited in its iteration order; a node's shared state is part of the
  node. \<open>node.start_blocking()\<close> is an empty hook, and sleeping and logging leave the state as
  it is.
\<close>

section \<open>State\<close>

record TestNodeConfig =
  tn_node_id :: u32
  tn_listen_port :: u16
  tn_is_validator :: bool
  tn_is_faulty :: bool
  tn_initial_peers :: "SocketAddr list"

record TestNodeState =
  ts_height :: u64
  ts_last_block_hash :: bytes32
  ts_blocks_committed :: "u64 list"
  ts_rounds_participated :: u64
  ts_is_running :: bool
  ts_fault_injected :: bool

record TestNode =
  tn_config :: TestNodeConfig
  tn_state :: TestNodeState

definition TestNodeState_default :: TestNodeState where
  "TestNodeState_default = \<lparr>ts_height = 0, ts_last_block_hash = replicate 32 0, ts_blocks_committed = [],
     ts_rounds_participated = 0, ts_is_running = False, ts_fault_injected = False\<rparr>"

definition TestNode_new :: "TestNodeConfig \<Rightarrow> TestNode" where
  "TestNode_new config = \<lparr>tn_config = config, tn_state = TestNodeState_default\<rparr>"

definition node_start :: "TestNode \<Rightarrow> TestNode" where
  "node_start node = node\<lparr>tn_state := (tn_state node)\<lparr>ts_is_running := True\<rparr>\<rparr>"

record TestNetwork =
  nw_nodes :: "(u32, TestNode) hashmap"
  nw_total_validators :: u32
  nw_faulty_count :: u32

record TestResult =
  tr_total_rounds :: u64
  tr_rounds_with_consensus :: u64
  tr_total_commits :: u64
  tr_total_validators :: u32
  tr_faulty_count :: u32

section \<open>Operations\<close>

definition run_consensus_round :: "profile \<Rightarrow> u64 \<Rightarrow> TestNode \<Rightarrow> (bool \<times> TestNode) exec" where
  "run_consensus_round pr round_nr node =
     (if tn_is_faulty (tn_config node) then Some (False, node)
      else do {
        p \<leftarrow> add_uint pr (ts_rounds_participated (tn_state node)) 1;
        Some (True, node\<lparr>tn_state := (tn_state node)\<lparr>ts_rounds_participated := p, ts_height := round_nr,
          ts_blocks_committed := ts_blocks_committed (tn_state node) @ [round_nr]\<rparr>\<rparr>) })"

definition current_height :: "TestNode \<Rightarrow> u64" where
  "current_height node = ts_height (tn_state node)"

definition validator_config :: "profile \<Rightarrow> u32 \<Rightarrow> u32 \<Rightarrow> TestNodeConfig exec" where
  "validator_config pr f i = do {
     port \<leftarrow> add_uint pr 26656 i;
     Some \<lparr>tn_node_id = i, tn_listen_port = ucast port, tn_is_validator = True,
       tn_is_faulty = (i < f), tn_initial_peers = []\<rparr> }"

fun add_validators :: "profile \<Rightarrow> u32 \<Rightarrow> u32 list \<Rightarrow> (u32, TestNode) hashmap \<Rightarrow> (u32, TestNode) hashmap exec" where
  "add_validators pr f [] nodes = Some nodes"
| "add_validators pr f (i # is) nodes = do {
     config \<leftarrow> validator_config pr f i;
     add_validators pr f is (hm_insert i (TestNode_new config) nodes) }"

definition TestNetwork_new :: "profile \<Rightarrow> u32 \<Rightarrow> u32 \<Rightarrow> TestNetwork exec" where
  "TestNetwork_new pr n f = do {
     nodes \<leftarrow> add_validators pr f (map word_of_nat [0..<unat n]) hm_new;
     port \<leftarrow> add_uint pr 26656 n;
     let client_config = \<lparr>tn_node_id = n, tn_listen_port = ucast port, tn_is_validator = False,
       tn_is_faulty = False, tn_initial_peers = []\<rparr>;
     Some \<lparr>nw_nodes = hm_insert n (TestNode_new client_config) nodes, nw_total_validators = n,
       nw_faulty_count = f\<rparr> }"

fun run_nodes ::
  "profile \<Rightarrow> u64 \<Rightarrow> (u32, TestNode) hashmap \<Rightarrow> u64 \<Rightarrow> (u64 \<times> (u32, TestNode) hashmap) exec" where
  "run_nodes pr round_nr [] round_commits = Some (round_commits, [])"
| "run_nodes pr round_nr ((i, node) # nodes) round_commits =
     (if tn_is_validator (tn_config node)
      then do {
        (committed, node') \<leftarrow> run_consensus_round pr round_nr node;
        c \<leftarrow> (if committed then add_uint pr round_commits 1 else Some round_commits);
        (c', nodes') \<leftarrow> run_nodes pr round_nr nodes c;
        Some (c', (i, node') # nodes') }
      else do {
        (c', nodes') \<leftarrow> run_nodes pr round_nr nodes round_commits;
        Some (c', (i, node) # nodes') })"

fun run_rounds ::
  "profile \<Rightarrow> u32 \<Rightarrow> u64 list \<Rightarrow> u64 \<times> u64 \<times> (u32, TestNode) hashmap \<Rightarrow>
   (u64 \<times> u64 \<times> (u32, TestNode) hashmap) exec" where
  "run_rounds pr validators [] s = Some s"
| "run_rounds pr validators (round_nr # rounds) (total_commits, with_consensus, nodes) = do {
     (round_commits, nodes') \<leftarrow> run_nodes pr round_nr nodes 0;
     twice \<leftarrow> mul_uint pr validators 2;
     w \<leftarrow> (if unat round_commits > unat twice div 3 then add_uint pr with_consensus 1
           else Some with_consensus);
     t \<leftarrow> add_uint pr total_commits round_commits;
     run_rounds pr validators rounds (t, w, nodes') }"

definition run_consensus :: "profile \<Rightarrow> u64 \<Rightarrow> TestNetwork \<Rightarrow> (TestResult \<times> TestNetwork) exec" where
  "run_consensus pr rounds net = do {
     (total_commits, with_consensus, nodes) \<leftarrow>
       run_rounds pr (nw_total_validators net) (map word_of_nat [0..<unat rounds]) (0, 0, nw_nodes net);
     Some (\<lparr>tr_total_rounds = rounds, tr_rounds_with_consensus = with_consensus,
       tr_total_commits = total_commits, tr_total_validators = nw_total_validators net,
       tr_faulty_count = nw_faulty_count net\<rparr>, net\<lparr>nw_nodes := nodes\<rparr>) }"

definition start_blocking :: "TestNetwork \<Rightarrow> TestNetwork" where
  "start_blocking net = net"

definition simulate_partition :: "u32 \<Rightarrow> TestNetwork \<Rightarrow> TestNetwork" where
  "simulate_partition partition_size net = net"

definition simulate_message_delay :: "u64 \<Rightarrow> TestNetwork \<Rightarrow> TestNetwork" where
  "simulate_message_delay delay_ms net = net"

definition verify_consistency :: "TestNetwork \<Rightarrow> bool" where
  "verify_consistency net =
     (let heights = map (\<lambda>(i, node). (i, current_height node))
            (filter (\<lambda>(_, node). \<not> tn_is_faulty (tn_config node) \<and> tn_is_validator (tn_config node))
               (nw_nodes net))
      in case heights of
           [] \<Rightarrow> True
         | (_, first_height) # _ \<Rightarrow> list_all (\<lambda>(_, h). h = first_height) heights)"

definition consensus_rate :: "TestResult \<Rightarrow> rat" where
  "consensus_rate r =
     (if tr_total_rounds r > 0
      then f64_mul (f64_div (f64_of (tr_rounds_with_consensus r)) (f64_of (tr_total_rounds r))) 100
      else 100)"

definition TestResult_to_string :: "TestResult \<Rightarrow> string" where
  "TestResult_to_string r =
     ''Rounds: '' @ show_nat (unat (tr_rounds_with_consensus r)) @ ''/'' @ show_nat (unat (tr_total_rounds r)) @
     '' with consensus ('' @ show_f64_1 (consensus_rate r) @ ''%), Validators: '' @
     show_nat (unat (tr_total_validators r)) @ '' ('' @ show_nat (unat (tr_faulty_count r)) @
     '' faulty), Total commits: '' @ show_nat (unat (tr_total_commits r))"

section \<open>One round, and many\<close>

definition honest :: "TestNode \<Rightarrow> bool" where
  "honest node \<longleftrightarrow> tn_is_validator (tn_config node) \<and> \<not> tn_is_faulty (tn_config node)"

definition commits :: "(u32, TestNode) hashmap \<Rightarrow> nat" where
  "commits nodes = length (filter (\<lambda>(_, node). honest node) nodes)"

definition advance :: "u64 \<Rightarrow> TestNode \<Rightarrow> TestNode" where
  "advance r node =
     (if honest node
      then node\<lparr>tn_state := (tn_state node)\<lparr>ts_rounds_participated := ts_rounds_participated (tn_state node) + 1,
        ts_height := r, ts_blocks_committed := ts_blocks_committed (tn_state node) @ [r]\<rparr>\<rparr>
      else node)"

text \<open>No honest node has more than \<open>k\<close> rounds left before its counter wraps.\<close>

definition room :: "nat \<Rightarrow> (u32, TestNode) hashmap \<Rightarrow> bool" where
  "room k nodes \<longleftrightarrow> (\<forall>(_, node) \<in> set nodes.
     honest node \<longrightarrow> unat (ts_rounds_participated (tn_state node)) + k < 2 ^ 64)"

lemma commits_Cons [simp]:
  "commits [] = 0" "commits ((i, node) # nodes) = (if honest node then Suc (commits nodes) else commits nodes)"
  by (simp_all add: commits_def)

lemma honest_advance [simp]: "honest (advance r node) = honest node"
  by (simp add: advance_def honest_def)

lemma commits_advance [simp]: "commits (map (apsnd (advance r)) nodes) = commits nodes"
  by (induction nodes) auto

lemma room_Cons [simp]:
  "room k []"
  "room k ((i, node) # nodes) \<longleftrightarrow>
     (honest node \<longrightarrow> unat (ts_rounds_participated (tn_state node)) + k < 2 ^ 64) \<and> room k nodes"
  by (auto simp: room_def)

lemma add_uint_Suc: "unat a + 1 < 2 ^ LENGTH('a) \<Longrightarrow>
    add_uint pr a 1 = Some (a + 1) \<and> unat (a + 1 :: 'a::len word) = Suc (unat a)"
  using add_uint_exact [of a 1 pr] by (simp add: add_overflows_def)

lemma room_advance: "room (Suc k) nodes \<Longrightarrow> room k (map (apsnd (advance r)) nodes)"
proof (induction nodes)
  case (Cons x nodes)
  obtain i node where x: "x = (i, node)" by (cases x)
  show ?case
    using Cons add_uint_Suc [of "ts_rounds_participated (tn_state node)" Dev]
    by (auto simp: x advance_def)
qed simp

lemma run_nodes_step:
  assumes "honest node \<longrightarrow> unat c + 1 < 2 ^ 64"
    and "honest node \<longrightarrow> unat (ts_rounds_participated (tn_state node)) + 1 < 2 ^ 64"
  shows "run_nodes pr r ((i, node) # nodes) c =
    map_option (apsnd (Cons (i, advance r node))) (run_nodes pr r nodes (if honest node then c + 1 else c))"
proof (cases "honest node")
  case True
  with assms add_uint_Suc [of c pr] add_uint_Suc [of "ts_rounds_participated (tn_state node)" pr]
  show ?thesis
    by (cases "run_nodes pr r nodes (c + 1)")
      (auto simp: run_consensus_round_def advance_def honest_def)
next
  case False
  then show ?thesis
    by (cases "run_nodes pr r nodes c") (auto simp: run_consensus_round_def advance_def honest_def)
qed

lemma run_nodes_advances:
  assumes "room 1 nodes" and "unat c + commits nodes < 2 ^ 64"
  shows "\<exists>c'. run_nodes pr r nodes c = Some (c', map (apsnd (advance r)) nodes) \<and>
    unat c' = unat c + commits nodes"
  using assms
proof (induction nodes arbitrary: c)
  case (Cons x nodes)
  obtain i node where x: "x = (i, node)" by (cases x)
  let ?c = "if honest node then c + 1 else c"
  have "unat ?c = (if honest node then Suc (unat c) else unat c)"
    using Cons.prems(2) add_uint_Suc [of c Dev] by (simp add: x split: if_splits)
  then have "unat ?c + commits nodes = unat c + commits (x # nodes)" by (simp add: x)
  with Cons.IH [of ?c] Cons.prems obtain c' where
    "run_nodes pr r nodes ?c = Some (c', map (apsnd (advance r)) nodes)"
    "unat c' = unat c + commits (x # nodes)" by (auto simp: x)
  with Cons.prems show ?case by (simp add: x run_nodes_step split: if_splits del: run_nodes.simps)
qed simp

lemma run_rounds_advances:
  assumes "room (length rs) nodes" and "unat n < 2 ^ 31"
    and "unat t + length rs * commits nodes < 2 ^ 64" and "unat w + length rs < 2 ^ 64"
    and "commits nodes < 2 ^ 64"
  shows "\<exists>t' w'. run_rounds pr n rs (t, w, nodes) = Some (t', w', map (apsnd (fold advance rs)) nodes) \<and>
    unat t' = unat t + length rs * commits nodes \<and>
    unat w' = unat w + (if 2 * unat n < 3 * commits nodes then length rs else 0)"
  using assms
proof (induction rs arbitrary: t w nodes)
  case Nil
  show ?case by (simp add: apsnd_def map_prod_def)
next
  case (Cons r rs)
  let ?nodes = "map (apsnd (advance r)) nodes" and ?won = "2 * unat n < 3 * commits nodes"
  have room1: "room 1 nodes" using Cons.prems(1) by (auto simp: room_def)
  obtain c where c: "run_nodes pr r nodes 0 = Some (c, ?nodes)" "unat c = commits nodes"
    using run_nodes_advances [OF room1, of 0 pr r] Cons.prems(5) by auto
  have twice: "mul_uint pr n 2 = Some (n * 2)" "unat (n * 2) = unat n * 2"
    using mul_uint_exact [of n 2 pr] Cons.prems(2) by simp_all
  have won: "unat n * 2 div 3 < commits nodes \<longleftrightarrow> ?won" by (auto simp: div_less_iff_less_mult)
  have t: "add_uint pr t c = Some (t + c)" "unat (t + c) = unat t + commits nodes"
    using add_uint_exact [of t c pr] Cons.prems(3) c(2) by (simp_all add: add_overflows_def)
  let ?w = "if ?won then w + 1 else w"
  have w: "(if unat n * 2 div 3 < commits nodes then add_uint pr w 1 else Some w) = Some ?w"
    "unat ?w = unat w + (if ?won then 1 else 0)"
    using add_uint_Suc [of w pr] Cons.prems(4) won by simp_all
  have "\<exists>t' w'. run_rounds pr n rs (t + c, ?w, ?nodes) =
      Some (t', w', map (apsnd (fold advance rs)) ?nodes) \<and>
    unat t' = unat (t + c) + length rs * commits ?nodes \<and>
    unat w' = unat ?w + (if 2 * unat n < 3 * commits ?nodes then length rs else 0)"
    by (rule Cons.IH) (use Cons.prems t w room_advance [of "length rs" nodes r] in auto)
  then show ?case
    using c twice t w by (cases ?won) (auto simp: o_def)
qed

section \<open>A new network\<close>

definition new_validator :: "u32 \<Rightarrow> u32 \<Rightarrow> TestNode" where
  "new_validator f i = TestNode_new \<lparr>tn_node_id = i, tn_listen_port = ucast (26656 + i),
     tn_is_validator = True, tn_is_faulty = (i < f), tn_initial_peers = []\<rparr>"

definition new_client :: "u32 \<Rightarrow> TestNode" where
  "new_client n = TestNode_new \<lparr>tn_node_id = n, tn_listen_port = ucast (26656 + n),
     tn_is_validator = False, tn_is_faulty = False, tn_initial_peers = []\<rparr>"

definition new_nodes :: "u32 \<Rightarrow> u32 \<Rightarrow> (u32, TestNode) hashmap" where
  "new_nodes n f = map (\<lambda>i. (i, new_validator f i)) (map word_of_nat [0..<unat n]) @ [(n, new_client n)]"

lemma add_port: "unat i < 2 ^ 31 \<Longrightarrow> add_uint pr (26656 :: u32) i = Some (26656 + i)"
  using add_uint_exact [of "26656 :: u32" i pr] by (simp add: add_overflows_def)

lemma add_validators_fresh:
  "distinct (map fst nodes @ is) \<Longrightarrow> \<forall>i\<in>set is. unat i < 2 ^ 31 \<Longrightarrow>
   add_validators pr f is nodes = Some (nodes @ map (\<lambda>i. (i, new_validator f i)) is)"
  by (induction "is" arbitrary: nodes)
    (auto simp: validator_config_def add_port new_validator_def hm_insert_fresh)

lemma word_of_nat_below: "i < unat (n :: u32) \<Longrightarrow> unat (word_of_nat i :: u32) = i"
  using unsigned_less [where ?'a = nat, of n] by (simp add: unat_of_nat)

lemma TestNetwork_new_nodes:
  assumes "unat n < 2 ^ 31"
  shows "TestNetwork_new pr n f =
    Some \<lparr>nw_nodes = new_nodes n f, nw_total_validators = n, nw_faulty_count = f\<rparr>"
proof -
  let ?is = "map word_of_nat [0..<unat n] :: u32 list"
  have ids: "unat i < unat n" if "i \<in> set ?is" for i
    using that word_of_nat_below [of _ n] by auto
  have "distinct ?is"
    using word_of_nat_below [of _ n] by (auto simp: distinct_map inj_on_def) metis
  moreover have "\<forall>i\<in>set ?is. unat i < 2 ^ 31" using ids assms by fastforce
  ultimately have "add_validators pr f ?is hm_new = Some (map (\<lambda>i. (i, new_validator f i)) ?is)"
    using add_validators_fresh [of hm_new ?is pr f] by (simp add: hm_new_def)
  moreover have "n \<notin> fst ` set (map (\<lambda>i. (i, new_validator f i)) ?is)"
    using ids by (auto simp: image_image)
  ultimately show ?thesis
    using assms by (simp add: TestNetwork_new_def add_port hm_insert_fresh new_nodes_def new_client_def Let_def)
qed

lemma commits_new_nodes: "commits (new_nodes n f) = unat n - unat f"
proof -
  have "commits (new_nodes n f) = length (filter (\<lambda>i. \<not> (word_of_nat i :: u32) < f) [0..<unat n])"
    by (simp add: commits_def new_nodes_def new_validator_def new_client_def TestNode_new_def
        honest_def filter_map o_def)
  also have "filter (\<lambda>i. \<not> (word_of_nat i :: u32) < f) [0..<unat n] =
      filter (\<lambda>i. unat f \<le> i) [0..<unat n]"
    using word_of_nat_below [of _ n] by (intro filter_cong) (auto simp: word_less_nat_alt)
  also have "length (filter (\<lambda>i. unat f \<le> i) [0..<unat n]) = card ({0..<unat n} \<inter> {i. unat f \<le> i})"
    by (simp add: distinct_length_filter Int_commute)
  also have "{0..<unat n} \<inter> {i. unat f \<le> i} = {unat f..<unat n}" by auto
  finally show ?thesis by simp
qed

lemma room_new_nodes: "k < 2 ^ 64 \<Longrightarrow> room k (new_nodes n f)"
  by (auto simp: room_def new_nodes_def new_validator_def new_client_def TestNode_new_def
      TestNodeState_default_def)

lemma honest_fold_advance [simp]: "honest (fold advance rs node) = honest node"
  by (induction rs arbitrary: node) simp_all

lemma current_height_fold:
  "honest node \<Longrightarrow> current_height (fold advance rs node) = (if rs = [] then current_height node else last rs)"
proof (induction rs rule: rev_induct)
  case (snoc r rs)
  then show ?case by (simp add: current_height_def advance_def [of r])
qed simp

lemma consistent_if_same:
  assumes "\<forall>(_, node)\<in>set (nw_nodes net). honest node \<longrightarrow> current_height node = h"
  shows "verify_consistency net"
proof -
  define hs where "hs = map (\<lambda>(i, node). (i, current_height node))
    (filter (\<lambda>(_, node). \<not> tn_is_faulty (tn_config node) \<and> tn_is_validator (tn_config node)) (nw_nodes net))"
  have "\<forall>(i, k)\<in>set hs. k = h" using assms by (auto simp: hs_def honest_def)
  then show ?thesis
    unfolding verify_consistency_def hs_def [symmetric]
    by (fastforce simp: Let_def list_all_iff split: list.split)
qed

lemma new_nodes_height: "\<forall>(i, node)\<in>set (new_nodes n f). current_height node = 0"
  by (auto simp: new_nodes_def new_validator_def new_client_def TestNode_new_def
      TestNodeState_default_def current_height_def)

lemma run_consensus_new:
  assumes "unat n < 2 ^ 31" and "unat rounds * unat n < 2 ^ 64"
    and "net = \<lparr>nw_nodes = new_nodes n f, nw_total_validators = n, nw_faulty_count = f\<rparr>"
  shows "\<exists>res net'. run_consensus pr rounds net = Some (res, net') \<and>
    unat (tr_rounds_with_consensus res) = (if 3 * unat f < unat n then unat rounds else 0) \<and>
    unat (tr_total_commits res) = unat rounds * (unat n - unat f) \<and> verify_consistency net'"
proof -
  let ?rs = "map word_of_nat [0..<unat rounds] :: u64 list" and ?nodes = "new_nodes n f"
  have rounds: "unat rounds < 2 ^ 64" using unsigned_less [where ?'a = nat, of rounds] by simp
  have "unat rounds * (unat n - unat f) \<le> unat rounds * unat n" by simp
  with assms(2) have "unat rounds * (unat n - unat f) < 2 ^ 64" by linarith
  moreover have "unat n - unat f < 2 ^ 64" using assms(1) by simp
  ultimately obtain t w where
    run: "run_rounds pr n ?rs (0, 0, ?nodes) = Some (t, w, map (apsnd (fold advance ?rs)) ?nodes)"
    and t: "unat t = unat rounds * (unat n - unat f)"
    and w: "unat w = (if 2 * unat n < 3 * (unat n - unat f) then unat rounds else 0)"
    using run_rounds_advances [of ?rs ?nodes n 0 0 pr] assms(1) rounds
    by (auto simp: commits_new_nodes room_new_nodes)
  have "verify_consistency (net\<lparr>nw_nodes := map (apsnd (fold advance ?rs)) ?nodes\<rparr>)"
    using new_nodes_height [of n f]
    by (intro consistent_if_same [where h = "if ?rs = [] then 0 else last ?rs"])
      (fastforce simp: current_height_fold)
  moreover have "2 * unat n < 3 * (unat n - unat f) \<longleftrightarrow> 3 * unat f < unat n" by linarith
  ultimately show ?thesis using run t w by (simp add: run_consensus_def assms(3))
qed

section \<open>The printed rate\<close>

lemma consensus_rate_all: "tr_rounds_with_consensus r = tr_total_rounds r \<Longrightarrow> consensus_rate r = 100"
  using f64_of_pos [of "tr_total_rounds r"]
  by (cases "unat (tr_total_rounds r) = 0")
    (simp_all add: consensus_rate_def f64_div_def f64_mul_def word_less_nat_alt)

lemma consensus_rate_none: "tr_rounds_with_consensus r = 0 \<Longrightarrow> tr_total_rounds r \<noteq> 0 \<Longrightarrow> consensus_rate r = 0"
  by (simp add: consensus_rate_def f64_div_def f64_mul_def f64_of_def word_neq_0_conv)

lemma consensus_rate_le:
  assumes "unat (tr_rounds_with_consensus r) \<le> unat (tr_total_rounds r)"
  shows "0 \<le> consensus_rate r \<and> consensus_rate r \<le> 100"
proof (cases "tr_total_rounds r > 0")
  case True
  let ?q = "f64_of (tr_rounds_with_consensus r) / f64_of (tr_total_rounds r)"
  have t: "0 < f64_of (tr_total_rounds r)" using True by (intro f64_of_pos) (simp add: word_less_nat_alt)
  then have q: "0 \<le> ?q" "?q \<le> 1" using f64_of_mono [OF assms] f64_of_nonneg [of "tr_rounds_with_consensus r"] by simp_all
  then have d: "0 \<le> f64_round ?q" "f64_round ?q \<le> 1"
    using f64_round_nonneg f64_round_mono [OF q] by simp_all
  then have "f64_round (f64_round ?q * 100) \<le> f64_round 100" by (intro f64_round_mono) simp_all
  then show ?thesis using True d by (simp add: consensus_rate_def f64_div_def f64_mul_def f64_round_nonneg)
qed (simp add: consensus_rate_def)

lemma run_consensus_fields:
  assumes "run_consensus pr rounds net = Some (res, net')"
  shows "tr_total_rounds res = rounds" and "tr_total_validators res = nw_total_validators net"
    and "tr_faulty_count res = nw_faulty_count net"
  using assms by (auto simp: run_consensus_def bind_eq_Some_conv)

lemma show_100: "show_nat 100 = ''100''" and show_0: "show_nat 0 = ''0''"
  by (simp_all add: show_nat.simps digit_char_def char_of_def bit_0 bit_simps)

lemma relative_error_twice:
  fixes x y z :: rat
  assumes "0 \<le> x" and "x \<le> 1" and "\<bar>y - x\<bar> \<le> x / 2 ^ 53" and "\<bar>z - y * 100\<bar> \<le> y * 100 / 2 ^ 53"
  shows "\<bar>z - x * 100\<bar> \<le> 1 / 1000"
proof -
  have "x / 2 ^ 53 \<le> 1 / 2 ^ 53" using assms(2) by (rule divide_right_mono) simp
  with assms(3) have "\<bar>y - x\<bar> \<le> 1 / 2 ^ 53" by (rule order_trans)
  then have y: "y - x \<le> 1 / 2 ^ 53" "x - y \<le> 1 / 2 ^ 53" by (simp_all only: abs_le_iff minus_diff_eq)
  then have "y * 100 \<le> 200" using assms(2) by simp
  then have "y * 100 / 2 ^ 53 \<le> 200 / 2 ^ 53" by (rule divide_right_mono) simp
  with assms(4) have "\<bar>z - y * 100\<bar> \<le> 200 / 2 ^ 53" by (rule order_trans)
  then have "z - y * 100 \<le> 200 / 2 ^ 53" "y * 100 - z \<le> 200 / 2 ^ 53" by (simp_all only: abs_le_iff minus_diff_eq)
  with y show ?thesis by (intro abs_leI) simp_all
qed

lemma consensus_rate_error:
  assumes "unat (tr_rounds_with_consensus r) \<le> unat (tr_total_rounds r)"
    and "0 < unat (tr_total_rounds r)" and "unat (tr_total_rounds r) < 2 ^ 53"
  shows "\<bar>consensus_rate r - of_nat (unat (tr_rounds_with_consensus r)) / of_nat (unat (tr_total_rounds r)) * 100\<bar>
    \<le> 1 / 1000"
proof -
  let ?w = "of_nat (unat (tr_rounds_with_consensus r)) :: rat" and ?t = "of_nat (unat (tr_total_rounds r)) :: rat"
  have wt: "f64_of (tr_rounds_with_consensus r) = ?w" "f64_of (tr_total_rounds r) = ?t"
    using assms by (intro f64_of_exact; simp)+
  have t: "0 < ?t" using assms(2) by (simp del: of_nat_unat)
  have le: "?w \<le> ?t" using assms(1) by (simp only: of_nat_le_iff)
  have w: "0 \<le> ?w" by (rule of_nat_0_le_iff)
  have x: "0 \<le> ?w / ?t" "?w / ?t \<le> 1" using t le w by (simp_all del: of_nat_unat)
  have rate: "consensus_rate r = f64_round (f64_round (?w / ?t) * 100)"
    using assms(2) wt by (simp add: consensus_rate_def f64_div_def f64_mul_def word_less_nat_alt del: of_nat_unat)
  show ?thesis unfolding rate
  proof (rule relative_error_twice [OF x])
    show "\<bar>f64_round (?w / ?t) - ?w / ?t\<bar> \<le> ?w / ?t / 2 ^ 53" using x(1) by (rule f64_round_error)
    show "\<bar>f64_round (f64_round (?w / ?t) * 100) - f64_round (?w / ?t) * 100\<bar> \<le> f64_round (?w / ?t) * 100 / 2 ^ 53"
      using f64_round_nonneg [OF x(1)] by (intro f64_round_error) simp
  qed
qed

section \<open>Properties\<close>

text \<open>
  C15: A network of \<open>n\<close> validators of which the first \<open>f\<close> are faulty, run for any number of
  rounds, reaches consensus in every round when \<open>3 * f < n\<close> and in none otherwise; every
  round has one commit per correct validator, and afterwards the correct validators agree on
  the height. The bounds keep the harness's own counters from overflowing, so both build
  profiles agree.
\<close>

theorem consensus_iff_third:
  assumes "unat n < 2 ^ 31" and "unat rounds * unat n < 2 ^ 64"
  shows "\<exists>net res net'. TestNetwork_new pr n f = Some net \<and>
    run_consensus pr rounds net = Some (res, net') \<and>
    unat (tr_rounds_with_consensus res) = (if 3 * unat f < unat n then unat rounds else 0) \<and>
    unat (tr_total_commits res) = unat rounds * (unat n - unat f) \<and> verify_consistency net'"
  using run_consensus_new [OF assms refl, of pr f] by (simp add: TestNetwork_new_nodes [OF assms(1)])

theorem consensus_iff_third_witness:
  "\<exists>net res net'. TestNetwork_new Dev 7 2 = Some net \<and> run_consensus Dev 10 net = Some (res, net') \<and>
    unat (tr_rounds_with_consensus res) = 10 \<and> unat (tr_total_commits res) = 50 \<and> verify_consistency net'"
  using consensus_iff_third [of 7 10 Dev 2] by simp

text \<open>
  What a run reports: a network that is created and run prints all its rounds with
  consensus at 100.0 per cent when \<open>3 * f < n\<close>, and otherwise none at 0.0 per cent; a run
  of no rounds prints 100.0 per cent as well.
\<close>

lemma run_report:
  assumes "unat n < 2 ^ 31" and "unat rounds * unat n < 2 ^ 64"
  shows "\<exists>net res net'. TestNetwork_new pr n f = Some net \<and> run_consensus pr rounds net = Some (res, net') \<and>
    TestResult_to_string res =
      ''Rounds: '' @ show_nat (if 3 * unat f < unat n then unat rounds else 0) @ ''/'' @ show_nat (unat rounds) @
      '' with consensus ('' @ (if 3 * unat f < unat n \<or> rounds = 0 then ''100.0'' else ''0.0'') @
      ''%), Validators: '' @ show_nat (unat n) @ '' ('' @ show_nat (unat f) @
      '' faulty), Total commits: '' @ show_nat (unat rounds * (unat n - unat f))"
proof -
  let ?net = "\<lparr>nw_nodes = new_nodes n f, nw_total_validators = n, nw_faulty_count = f\<rparr>"
  obtain res net' where run: "run_consensus pr rounds ?net = Some (res, net')"
    and w: "unat (tr_rounds_with_consensus res) = (if 3 * unat f < unat n then unat rounds else 0)"
    and c: "unat (tr_total_commits res) = unat rounds * (unat n - unat f)"
    using run_consensus_new [OF assms refl, of pr f] by auto
  note fields = run_consensus_fields [OF run]
  have "show_f64_1 (consensus_rate res) = (if 3 * unat f < unat n \<or> rounds = 0 then ''100.0'' else ''0.0'')"
    using w fields(1) consensus_rate_all [of res] consensus_rate_none [of res] show_f64_1_nat [of 100] show_f64_1_nat [of 0]
    by (auto simp: show_100 show_0 word_unat_eq_iff)
  with run w c fields have "TestResult_to_string res = ''Rounds: '' @ show_nat (if 3 * unat f < unat n then unat rounds else 0) @
      ''/'' @ show_nat (unat rounds) @
      '' with consensus ('' @ (if 3 * unat f < unat n \<or> rounds = 0 then ''100.0'' else ''0.0'') @
      ''%), Validators: '' @ show_nat (unat n) @ '' ('' @ show_nat (unat f) @
      '' faulty), Total commits: '' @ show_nat (unat rounds * (unat n - unat f))"
    by (simp add: TestResult_to_string_def)
  with run show ?thesis using TestNetwork_new_nodes [OF assms(1), of pr f] by blast
qed

lemma run_report_witness:
  "\<exists>net res net'. TestNetwork_new Dev 4 2 = Some net \<and> run_consensus Dev 0 net = Some (res, net') \<and>
    TestResult_to_string res =
      ''Rounds: 0/0 with consensus (100.0%), Validators: 4 (2 faulty), Total commits: 0''"
  using run_report [of 4 0 Dev 2] by (simp add: show_nat.simps digit_char_def char_of_def bit_0 bit_simps)

text \<open>
  C18: The printed percentage is right to the digit shown: for fewer than \<open>2 ^ 53\<close> rounds,
  floating-point division, multiplication and printing together are off by at most 0.051 from
  the exact rate, and never print more than 100.0.
\<close>

theorem printed_rate_accurate:
  assumes "unat (tr_rounds_with_consensus r) \<le> unat (tr_total_rounds r)"
    and "0 < unat (tr_total_rounds r)" and "unat (tr_total_rounds r) < 2 ^ 53"
  shows "tenths (consensus_rate r) \<le> 1000 \<and>
    \<bar>(of_nat (tenths (consensus_rate r)) / 10 :: rat)
      - of_nat (unat (tr_rounds_with_consensus r)) / of_nat (unat (tr_total_rounds r)) * 100\<bar> \<le> 51 / 1000"
proof -
  have "0 \<le> consensus_rate r" "consensus_rate r \<le> 100" using consensus_rate_le [OF assms(1)] by simp_all
  then have "tenths (consensus_rate r) \<le> 1000" and t: "\<bar>of_nat (tenths (consensus_rate r)) - consensus_rate r * 10\<bar> \<le> 1 / 2"
    using tenths_le [of "consensus_rate r" 1000] tenths_bounds [of "consensus_rate r"] by simp_all
  moreover note abs_le_D1 [OF t] abs_le_D2 [OF t] abs_le_D1 [OF consensus_rate_error [OF assms]]
    abs_le_D2 [OF consensus_rate_error [OF assms]]
  ultimately show ?thesis by (intro conjI abs_leI) (simp_all del: of_nat_unat)
qed

theorem printed_rate_accurate_witness:
  "\<bar>of_nat (tenths (consensus_rate \<lparr>tr_total_rounds = 3, tr_rounds_with_consensus = 2, tr_total_commits = 6,
      tr_total_validators = 3, tr_faulty_count = 0\<rparr>)) / 10 - 2 / 3 * 100\<bar> \<le> (51 / 1000 :: rat)"
  using printed_rate_accurate [of "\<lparr>tr_total_rounds = 3, tr_rounds_with_consensus = 2, tr_total_commits = 6,
      tr_total_validators = 3, tr_faulty_count = 0\<rparr>"] by simp

text \<open>
  Partitioning three of four validators away does not stop consensus: all five rounds
  still reach it, because a partition changes nothing.
\<close>

lemma partition_changes_nothing:
  "\<exists>net res net'. TestNetwork_new pr 4 0 = Some net \<and>
    run_consensus pr 5 (simulate_partition 3 net) = Some (res, net') \<and>
    unat (tr_rounds_with_consensus res) = 5"
  using run_consensus_new [OF _ _ refl, of 4 5 pr 0]
  by (auto simp: simulate_partition_def TestNetwork_new_nodes)

end
