(* ===== verification/Unit_Tests.thy ===== *)
theory Unit_Tests
  imports Merkle Signatures Protocol Test_Network
begin

text \<open>
  The test functions of the Rust workspace (the modules \<open>tests\<close> of \<open>crypto/merkle\<close>,
  \<open>crypto/signatures\<close>, \<open>node/p2p/src/protocol.rs\<close> and \<open>tests/integration/mod.rs\<close>), run on
  the models. A test is a value of type \<open>unit exec\<close>: it passes when it is \<open>Some ()\<close>, and a
  failed assertion panics, which is \<open>None\<close>. The functions of third-party crates and the bytes
  of the random generator are arguments, as in the theories of the crates.
\<close>

definition assert_that :: "bool \<Rightarrow> unit exec" where
  "assert_that b = (if b then Some () else None)"

lemma assert_that_iff [simp]: "assert_that b = Some () \<longleftrightarrow> b" "assert_that b = None \<longleftrightarrow> \<not> b"
  by (simp_all add: assert_that_def)

lemma assert_that_bind [simp]:
  "(do { _ \<leftarrow> assert_that a; f }) = Some () \<longleftrightarrow> a \<and> f = Some ()"
  by (simp add: assert_that_def)

section \<open>Tests of the Merkle crate\<close>

definition test_hashes :: "digest \<Rightarrow> hash list" where
  "test_hashes sha3 =
     [sha3_256 sha3 (ascii_bytes ''tx1''), sha3_256 sha3 (ascii_bytes ''tx2''),
      sha3_256 sha3 (ascii_bytes ''tx3''), sha3_256 sha3 (ascii_bytes ''tx4'')]"

definition test_single_leaf :: "digest \<Rightarrow> unit exec" where
  "test_single_leaf sha3 = do {
     let h = sha3_256 sha3 (ascii_bytes ''single'');
     root \<leftarrow> compute_root sha3 [h];
     assert_that (root = hash_leaf sha3 h) }"

definition test_two_leaves :: "digest \<Rightarrow> unit exec" where
  "test_two_leaves sha3 = do {
     let hashes = test_hashes sha3;
     root \<leftarrow> compute_root sha3 (take 2 hashes);
     let expected = combine_hashes sha3 (hash_leaf sha3 (hashes ! 0)) (hash_leaf sha3 (hashes ! 1));
     assert_that (root = expected) }"

definition test_four_leaves :: "digest \<Rightarrow> unit exec" where
  "test_four_leaves sha3 = do {
     let hashes = test_hashes sha3;
     root \<leftarrow> compute_root sha3 hashes;
     let leaf1 = hash_leaf sha3 (hashes ! 0);
     let leaf2 = hash_leaf sha3 (hashes ! 1);
     let leaf3 = hash_leaf sha3 (hashes ! 2);
     let leaf4 = hash_leaf sha3 (hashes ! 3);
     let left = combine_hashes sha3 leaf1 leaf2;
     let right = combine_hashes sha3 leaf3 leaf4;
     let expected = combine_hashes sha3 left right;
     assert_that (root = expected) }"

definition test_proof_generation :: "digest \<Rightarrow> unit exec" where
  "test_proof_generation sha3 = do {
     let hashes = test_hashes sha3;
     root \<leftarrow> compute_root sha3 hashes;
     generated \<leftarrow> generate_proof hashes 0;
     proof \<leftarrow> generated;
     _ \<leftarrow> assert_that (verify sha3 proof root);
     _ \<leftarrow> assert_that (mp_index proof = 0);
     assert_that (mp_leaf proof = hashes ! 0) }"

fun proofs_verify :: "digest \<Rightarrow> hash list \<Rightarrow> hash \<Rightarrow> nat list \<Rightarrow> unit exec" where
  "proofs_verify sha3 hashes rt [] = Some ()"
| "proofs_verify sha3 hashes rt (i # is) = do {
     generated \<leftarrow> generate_proof hashes i;
     proof \<leftarrow> generated;
     _ \<leftarrow> assert_that (verify sha3 proof rt);
     proofs_verify sha3 hashes rt is }"

definition test_proof_verification :: "digest \<Rightarrow> unit exec" where
  "test_proof_verification sha3 = do {
     let hashes = test_hashes sha3;
     root \<leftarrow> compute_root sha3 hashes;
     proofs_verify sha3 hashes root [0..<length hashes] }"

definition test_invalid_proof :: "digest \<Rightarrow> unit exec" where
  "test_invalid_proof sha3 = do {
     let hashes = test_hashes sha3;
     root \<leftarrow> compute_root sha3 hashes;
     generated \<leftarrow> generate_proof hashes 0;
     proof \<leftarrow> generated;
     let tampered = proof\<lparr>mp_leaf := sha3_256 sha3 (ascii_bytes ''tampered'')\<rparr>;
     assert_that (\<not> verify sha3 tampered root) }"

definition test_empty_tree :: "digest \<Rightarrow> unit exec" where
  "test_empty_tree sha3 = do { root \<leftarrow> compute_root sha3 []; assert_that (root = Hash_zero) }"

definition test_three_leaves_padding :: "digest \<Rightarrow> unit exec" where
  "test_three_leaves_padding sha3 = do {
     let hashes = take 3 (test_hashes sha3);
     padded \<leftarrow> pad_to_power_of_two hashes;
     _ \<leftarrow> assert_that (length padded = 4);
     last \<leftarrow> vec_index padded 3;
     assert_that (last = Hash_zero) }"

definition assert_power :: "usize \<Rightarrow> usize \<Rightarrow> unit exec" where
  "assert_power n p = do { q \<leftarrow> next_power_of_two n; assert_that (q = p) }"

definition test_power_of_two :: "unit exec" where
  "test_power_of_two = do {
     _ \<leftarrow> assert_power 1 1;
     _ \<leftarrow> assert_power 2 2;
     _ \<leftarrow> assert_power 3 4;
     _ \<leftarrow> assert_power 4 4;
     _ \<leftarrow> assert_power 5 8;
     assert_power 100 128 }"

definition test_build_tree_depth :: "digest \<Rightarrow> unit exec" where
  "test_build_tree_depth sha3 = do {
     let hashes = test_hashes sha3;
     padded \<leftarrow> pad_to_power_of_two hashes;
     tree \<leftarrow> build_tree sha3 padded;
     assert_that (depth tree = 3) }"

section \<open>Tests of the signature crate\<close>

definition test_keypair_generation :: "('vk, 's) crypto \<Rightarrow> u8 list \<Rightarrow> unit exec" where
  "test_keypair_generation env random = do {
     let kp = generate_keypair env random;
     _ \<leftarrow> assert_that (sk_bytes (kp_secret kp) \<noteq> replicate 32 0);
     assert_that (pk_bytes (kp_public kp) \<noteq> replicate 32 0) }"

definition test_sign_and_verify :: "('vk, 's) crypto \<Rightarrow> u8 list \<Rightarrow> unit exec" where
  "test_sign_and_verify env random = do {
     let kp = generate_keypair env random;
     let data = ascii_bytes ''hello crypto-coin'';
     let signature = sign env (kp_secret kp) data;
     assert_that (sig_verify env (kp_public kp) signature data) }"

definition test_invalid_signature :: "('vk, 's) crypto \<Rightarrow> u8 list \<Rightarrow> u8 list \<Rightarrow> unit exec" where
  "test_invalid_signature env random1 random2 = do {
     let kp1 = generate_keypair env random1;
     let kp2 = generate_keypair env random2;
     let data = ascii_bytes ''test data'';
     let signature = sign env (kp_secret kp1) data;
     assert_that (\<not> sig_verify env (kp_public kp2) signature data) }"

definition test_deterministic_keygen :: "('vk, 's) crypto \<Rightarrow> unit exec" where
  "test_deterministic_keygen env = do {
     kp1 \<leftarrow> keygen_deterministic env (ascii_bytes ''master'') (ascii_bytes ''path/0'');
     kp2 \<leftarrow> keygen_deterministic env (ascii_bytes ''master'') (ascii_bytes ''path/0'');
     _ \<leftarrow> assert_that (sk_bytes (kp_secret kp1) = sk_bytes (kp_secret kp2));
     assert_that (pk_bytes (kp_public kp1) = pk_bytes (kp_public kp2)) }"

definition test_address_derivation :: "('vk, 's) crypto \<Rightarrow> u8 list \<Rightarrow> unit exec" where
  "test_address_derivation env random = do {
     let kp = generate_keypair env random;
     addr \<leftarrow> derive_address env (kp_public kp);
     good \<leftarrow> verify_address env addr (kp_public kp);
     _ \<leftarrow> assert_that good;
     bad \<leftarrow> verify_address env (Address (replicate 20 0)) (kp_public kp);
     assert_that (\<not> bad) }"

definition test_commitment :: "('vk, 's) crypto \<Rightarrow> unit exec" where
  "test_commitment env = do {
     let value = ascii_bytes ''secret value'';
     let blinding = ascii_bytes ''random blinding'';
     commitment \<leftarrow> commit env value blinding;
     good \<leftarrow> open_commitment env commitment value blinding;
     _ \<leftarrow> assert_that good;
     bad \<leftarrow> open_commitment env commitment (ascii_bytes ''wrong value'') blinding;
     assert_that (\<not> bad) }"

definition test_vrf :: "('vk, 's) crypto \<Rightarrow> u8 list \<Rightarrow> unit exec" where
  "test_vrf env random = do {
     let kp = generate_keypair env random;
     let input = ascii_bytes ''randomness input'';
     proof \<leftarrow> vrf_prove env (kp_secret kp) input;
     let result = vrf_verify env (kp_public kp) input proof;
     assert_that (result \<noteq> None) }"

definition test_seed_based_keypair :: "('vk, 's) crypto \<Rightarrow> unit exec" where
  "test_seed_based_keypair env = do {
     let seed = ascii_bytes ''my test seed 1234567890abcdef'';
     kp1 \<leftarrow> generate_keypair_from_seed env seed;
     kp2 \<leftarrow> generate_keypair_from_seed env seed;
     _ \<leftarrow> assert_that (sk_bytes (kp_secret kp1) = sk_bytes (kp_secret kp2));
     _ \<leftarrow> assert_that (pk_bytes (kp_public kp1) = pk_bytes (kp_public kp2));
     let data = ascii_bytes ''test data'';
     let sig = sign env (kp_secret kp1) data;
     assert_that (sig_verify env (kp_public kp1) sig data) }"

section \<open>Tests of the wire protocol\<close>

definition test_wire_frame_roundtrip :: "(u8 list \<Rightarrow> u8 list) \<Rightarrow> unit exec" where
  "test_wire_frame_roundtrip sha256 = do {
     let payload = ascii_bytes ''hello crypto-coin p2p'';
     frame \<leftarrow> WireFrame_new sha256 payload;
     checked \<leftarrow> validate_frame sha256 frame;
     _ \<leftarrow> assert_that (isl checked = False);
     let bytes = to_bytes frame;
     decoded \<leftarrow> (case from_bytes bytes of Err _ \<Rightarrow> None | Ok f \<Rightarrow> Some f);
     assert_that (fr_payload decoded = payload) }"

text \<open>\<open>bincode::serialize\<close> and \<open>bincode::deserialize\<close> at peer records are arguments.\<close>

definition test_peer_record ::
  "(PeerRecord \<Rightarrow> u8 list option) \<Rightarrow> (u8 list \<Rightarrow> PeerRecord option) \<Rightarrow> unit exec" where
  "test_peer_record serialize deserialize = do {
     let peer = \<lparr>pr_peer_id = replicate 32 1, pr_addr = ''127.0.0.1:26656'', pr_public_key = replicate 32 2,
       pr_capabilities = Capabilities_default, pr_score = 1\<rparr>;
     serialized \<leftarrow> serialize peer;
     deserialized \<leftarrow> deserialize serialized;
     _ \<leftarrow> assert_that (pr_peer_id deserialized = pr_peer_id peer);
     assert_that (pr_addr deserialized = pr_addr peer) }"

definition test_protocol_version :: "unit exec" where
  "test_protocol_version = do {
     _ \<leftarrow> assert_that (PROTOCOL_VERSION = 1);
     assert_that (MAGIC_BYTES = ascii_bytes ''CCP1'') }"

section \<open>Tests of the simulated network\<close>

definition test_happy_path_4_validators_no_faults :: "profile \<Rightarrow> unit exec" where
  "test_happy_path_4_validators_no_faults pr = do {
     network \<leftarrow> TestNetwork_new pr 4 0;
     (result, network) \<leftarrow> run_consensus pr 10 network;
     _ \<leftarrow> assert_that (tr_rounds_with_consensus result \<ge> 9);
     assert_that (verify_consistency network) }"

definition test_bft_threshold_4_validators_1_faulty :: "profile \<Rightarrow> unit exec" where
  "test_bft_threshold_4_validators_1_faulty pr = do {
     network \<leftarrow> TestNetwork_new pr 4 1;
     (result, network) \<leftarrow> run_consensus pr 10 network;
     assert_that (tr_rounds_with_consensus result \<ge> 8) }"

definition test_bft_threshold_7_validators_2_faulty :: "profile \<Rightarrow> unit exec" where
  "test_bft_threshold_7_validators_2_faulty pr = do {
     network \<leftarrow> TestNetwork_new pr 7 2;
     (result, network) \<leftarrow> run_consensus pr 10 network;
     assert_that (tr_rounds_with_consensus result \<ge> 7) }"

definition test_bft_threshold_exceeded :: "profile \<Rightarrow> unit exec" where
  "test_bft_threshold_exceeded pr = do {
     network \<leftarrow> TestNetwork_new pr 4 2;
     (result, network) \<leftarrow> run_consensus pr 10 network;
     assert_that (tr_rounds_with_consensus result < 5) }"

definition test_network_partition_recovery :: "profile \<Rightarrow> unit exec" where
  "test_network_partition_recovery pr = do {
     network \<leftarrow> TestNetwork_new pr 4 0;
     let network = simulate_partition 1 network;
     (result, network) \<leftarrow> run_consensus pr 5 network;
     assert_that (tr_rounds_with_consensus result \<ge> 3) }"

definition test_consistency_after_message_delays :: "profile \<Rightarrow> unit exec" where
  "test_consistency_after_message_delays pr = do {
     network \<leftarrow> TestNetwork_new pr 4 0;
     let network = simulate_message_delay 100 network;
     (result, network) \<leftarrow> run_consensus pr 5 network;
     _ \<leftarrow> assert_that (tr_rounds_with_consensus result \<ge> 3);
     assert_that (verify_consistency network) }"

definition test_7_validators_no_faults_all_rounds_consensus :: "profile \<Rightarrow> unit exec" where
  "test_7_validators_no_faults_all_rounds_consensus pr = do {
     network \<leftarrow> TestNetwork_new pr 7 0;
     (result, network) \<leftarrow> run_consensus pr 20 network;
     _ \<leftarrow> assert_that (tr_rounds_with_consensus result = 20);
     assert_that (verify_consistency network) }"

definition test_majority_partition_should_fail :: "profile \<Rightarrow> unit exec" where
  "test_majority_partition_should_fail pr = do {
     network \<leftarrow> TestNetwork_new pr 4 0;
     let network = simulate_partition 3 network;
     (result, network) \<leftarrow> run_consensus pr 5 network;
     assert_that (tr_rounds_with_consensus result \<le> 2) }"

section \<open>Running the network tests\<close>

lemma network_run:
  assumes "unat n < 2 ^ 31" and "unat r * unat n < 2 ^ 64"
  obtains res net' where
    "run_consensus pr r \<lparr>nw_nodes = new_nodes n f, nw_total_validators = n, nw_faulty_count = f\<rparr> = Some (res, net')"
    "tr_rounds_with_consensus res = (if 3 * unat f < unat n then r else 0)" "verify_consistency net'"
  using run_consensus_new [OF assms refl, of pr f] by (auto simp: word_unat_eq_iff split: if_splits)

lemmas network_tests = test_happy_path_4_validators_no_faults_def test_bft_threshold_4_validators_1_faulty_def
  test_bft_threshold_7_validators_2_faulty_def test_bft_threshold_exceeded_def
  test_network_partition_recovery_def test_consistency_after_message_delays_def
  test_7_validators_no_faults_all_rounds_consensus_def test_majority_partition_should_fail_def
  simulate_partition_def simulate_message_delay_def

section \<open>Running the Merkle tests\<close>

lemma four_leaves_proofs:
  "generate_proof [a, b, c, d] 1 = Some (Some \<lparr>mp_index = 1, mp_leaf = b, mp_siblings = [d, a]\<rparr>)"
  "generate_proof [a, b, c, d] 2 = Some (Some \<lparr>mp_index = 2, mp_leaf = c, mp_siblings = [a, d]\<rparr>)"
  "generate_proof [a, b, c, d] 3 = Some (Some \<lparr>mp_index = 3, mp_leaf = d, mp_siblings = [b, c]\<rparr>)"
  using generate_proof_power_of_two [of "[a, b, c, d]" 2 1] generate_proof_power_of_two [of "[a, b, c, d]" 2 2]
    generate_proof_power_of_two [of "[a, b, c, d]" 2 3]
  by (simp_all add: across_leaves_def across_def upt_rec)

lemma proofs_verify_four:
  "proofs_verify sha3 [a, b, c, d] rt [0, 1, 2, 3] = Some () \<longleftrightarrow>
     (let H = combine_hashes sha3
      in H (H a c) b = rt \<and> H (H d b) a = rt \<and> H d (H c a) = rt \<and> H c (H b d) = rt)"
  by (simp add: four_leaves_proof four_leaves_proofs verify_def proof_compute_root_def Let_def del: One_nat_def)

lemma four_indices: "[0..<length (test_hashes sha3)] = [0, 1, 2, 3]"
  by (simp add: test_hashes_def upt_rec)

lemma two_leaves_root: "compute_root sha3 [a, b] = Some (combine_hashes sha3 a b)"
  using compute_root_power_of_two [of "[a, b]" 1 sha3] by simp

lemma root_tests_iff:
  fixes sha3 :: digest
  defines "H \<equiv> combine_hashes sha3" and "leaf \<equiv> \<lambda>text. sha3_256 sha3 (ascii_bytes text)"
  shows "test_single_leaf sha3 = Some () \<longleftrightarrow> leaf ''single'' = H (leaf ''single'') (leaf ''single'')"
    and "test_two_leaves sha3 = Some () \<longleftrightarrow> H (leaf ''tx1'') (leaf ''tx2'')
      = H (H (leaf ''tx1'') (leaf ''tx1'')) (H (leaf ''tx2'') (leaf ''tx2''))"
    and "test_four_leaves sha3 = Some () \<longleftrightarrow> H (H (leaf ''tx1'') (leaf ''tx2'')) (H (leaf ''tx3'') (leaf ''tx4''))
      = H (H (H (leaf ''tx1'') (leaf ''tx1'')) (H (leaf ''tx2'') (leaf ''tx2'')))
          (H (H (leaf ''tx3'') (leaf ''tx3'')) (H (leaf ''tx4'') (leaf ''tx4'')))"
  unfolding H_def leaf_def
  by (simp_all add: test_single_leaf_def test_two_leaves_def test_four_leaves_def test_hashes_def hash_leaf_def
      compute_root_single two_leaves_root four_leaves_root Let_def)

lemma proof_tests_iff:
  fixes sha3 :: digest
  defines "H \<equiv> combine_hashes sha3" and "leaf \<equiv> \<lambda>text. sha3_256 sha3 (ascii_bytes text)"
  defines "a \<equiv> leaf ''tx1''" and "b \<equiv> leaf ''tx2''" and "c \<equiv> leaf ''tx3''" and "d \<equiv> leaf ''tx4''"
  shows "test_proof_generation sha3 = Some () \<longleftrightarrow> H (H a c) b = H (H a b) (H c d)"
    and "test_proof_verification sha3 = Some () \<longleftrightarrow>
      H (H a c) b = H (H a b) (H c d) \<and> H (H d b) a = H (H a b) (H c d) \<and>
      H d (H c a) = H (H a b) (H c d) \<and> H c (H b d) = H (H a b) (H c d)"
    and "test_invalid_proof sha3 = Some () \<longleftrightarrow> H (H (leaf ''tampered'') c) b \<noteq> H (H a b) (H c d)"
  unfolding H_def leaf_def a_def b_def c_def d_def
  using proofs_verify_four [of sha3 "leaf ''tx1''" "leaf ''tx2''" "leaf ''tx3''" "leaf ''tx4''"]
  by (simp_all only: test_proof_generation_def test_proof_verification_def test_invalid_proof_def Let_def four_indices)
    (simp_all add: test_hashes_def leaf_def four_leaves_proof four_leaves_root verify_def proof_compute_root_def Let_def
      del: proofs_verify.simps)

lemma empty_tree_passes: "test_empty_tree sha3 = Some ()"
  by (simp add: test_empty_tree_def compute_root_def)

lemma power_of_two_passes: "test_power_of_two = Some ()"
  by (simp add: test_power_of_two_def assert_power_def next_power_of_two_def double_until.simps word_le_nat_alt)

lemma three_leaves_passes: "test_three_leaves_padding sha3 = Some ()"
  by (simp add: test_three_leaves_padding_def test_hashes_def pad_to_power_of_two_def next_power_of_two_def
      double_until.simps word_le_nat_alt vec_resize_def vec_index_def Let_def)

lemma tree_depth_passes: "test_build_tree_depth sha3 = Some ()"
  using pad_power_of_two [of "test_hashes sha3" 2]
  by (simp add: test_build_tree_depth_def test_hashes_def build_tree.simps Let_def)

section \<open>Properties\<close>

text \<open>
  Under both build profiles seven of the eight integration tests pass; the last one,
  which expects a partition of three validators out of four to stop consensus, always panics.
\<close>
lemma integration_tests_outcome:
  "test_happy_path_4_validators_no_faults pr = Some () \<and>
   test_bft_threshold_4_validators_1_faulty pr = Some () \<and>
   test_bft_threshold_7_validators_2_faulty pr = Some () \<and>
   test_bft_threshold_exceeded pr = Some () \<and>
   test_network_partition_recovery pr = Some () \<and>
   test_consistency_after_message_delays pr = Some () \<and>
   test_7_validators_no_faults_all_rounds_consensus pr = Some () \<and>
   test_majority_partition_should_fail pr = None"
proof (intro conjI)
  show "test_happy_path_4_validators_no_faults pr = Some ()"
    by (rule network_run [of 4 10 pr 0]) (simp_all add: network_tests TestNetwork_new_nodes)
  show "test_bft_threshold_4_validators_1_faulty pr = Some ()"
    by (rule network_run [of 4 10 pr 1]) (simp_all add: network_tests TestNetwork_new_nodes)
  show "test_bft_threshold_7_validators_2_faulty pr = Some ()"
    by (rule network_run [of 7 10 pr 2]) (simp_all add: network_tests TestNetwork_new_nodes)
  show "test_bft_threshold_exceeded pr = Some ()"
    by (rule network_run [of 4 10 pr 2]) (simp_all add: network_tests TestNetwork_new_nodes)
  show "test_network_partition_recovery pr = Some ()"
    by (rule network_run [of 4 5 pr 0]) (simp_all add: network_tests TestNetwork_new_nodes)
  show "test_consistency_after_message_delays pr = Some ()"
    by (rule network_run [of 4 5 pr 0]) (simp_all add: network_tests TestNetwork_new_nodes)
  show "test_7_validators_no_faults_all_rounds_consensus pr = Some ()"
    by (rule network_run [of 7 20 pr 0]) (simp_all add: network_tests TestNetwork_new_nodes)
  show "test_majority_partition_should_fail pr = None"
    by (rule network_run [of 4 5 pr 0]) (simp_all add: network_tests TestNetwork_new_nodes)
qed

text \<open>
  Which Merkle tests pass, for every digest. Four of them, on empty input, padding and
  depth, always pass. The others pass exactly when the digest has a coincidence: the tests of
  roots expect leaves to be hashed, which they are not, so the digest would have to give one
  value at two different inputs or have a fixed point; and the proof generated for the
  first of four leaves would have to lead to the root by a wrong path.
\<close>
lemma merkle_tests_outcome:
  "let H = combine_hashes sha3; leaf = (\<lambda>text. sha3_256 sha3 (ascii_bytes text));
       a = leaf ''tx1''; b = leaf ''tx2''; c = leaf ''tx3''; d = leaf ''tx4'';
       s = leaf ''single''; t = leaf ''tampered''; rt = H (H a b) (H c d)
   in test_empty_tree sha3 = Some () \<and> test_three_leaves_padding sha3 = Some () \<and>
      test_power_of_two = Some () \<and> test_build_tree_depth sha3 = Some () \<and>
      (test_single_leaf sha3 = Some () \<longleftrightarrow> s = H s s) \<and>
      (test_two_leaves sha3 = Some () \<longleftrightarrow> H a b = H (H a a) (H b b)) \<and>
      (test_four_leaves sha3 = Some () \<longleftrightarrow> rt = H (H (H a a) (H b b)) (H (H c c) (H d d))) \<and>
      (test_proof_generation sha3 = Some () \<longleftrightarrow> H (H a c) b = rt) \<and>
      (test_proof_verification sha3 = Some () \<longleftrightarrow>
         H (H a c) b = rt \<and> H (H d b) a = rt \<and> H d (H c a) = rt \<and> H c (H b d) = rt) \<and>
      (test_invalid_proof sha3 = Some () \<longleftrightarrow> H (H t c) b \<noteq> rt)"
  unfolding Let_def
  by (intro conjI empty_tree_passes three_leaves_passes power_of_two_passes tree_depth_passes)
    (simp_all add: root_tests_iff proof_tests_iff)

text \<open>
  With the laws of the third-party crates the tests of the signature crate that check honest
  behaviour pass; the four that expect a refusal or a non-zero key pass exactly when the
  primitives do not coincide at the inputs of the test, which no law promises.
\<close>

lemma signature_tests_outcome:
  assumes "signature_laws env" and "digest_laws env" and "hkdf_laws env"
    and "length random = 32" and "length random2 = 32"
  shows "test_sign_and_verify env random = Some ()" and "test_deterministic_keygen env = Some ()"
    and "test_vrf env random = Some ()" and "test_seed_based_keypair env = Some ()"
    and "test_keypair_generation env random = Some () \<longleftrightarrow>
      random \<noteq> replicate 32 0 \<and> c_public env random \<noteq> replicate 32 0"
    and "test_invalid_signature env random random2 = Some () \<longleftrightarrow>
      \<not> sig_verify env (PublicKey (c_public env random2)) (sign env (SecretKey random) (ascii_bytes ''test data''))
        (ascii_bytes ''test data'')"
    and "test_address_derivation env random = Some () \<longleftrightarrow>
      derive_address env (PublicKey (c_public env random)) \<noteq> Some (Address (replicate 20 0))"
    and "test_commitment env = Some () \<longleftrightarrow>
      c_sha256 env (ascii_bytes ''secret value'' @ ascii_bytes ''random blinding'')
        \<noteq> c_sha256 env (ascii_bytes ''wrong value'' @ ascii_bytes ''random blinding'')"
proof -
  have honest: "sig_verify env (PublicKey (c_public env k)) (sign env (SecretKey k) m) m" if "length k = 32" for k m
    using ed.correct [of env "SecretKey k" m] assms(1) that
    by (simp add: wf_secret_def key_sizes derive_public_key_def)
  then show "test_sign_and_verify env random = Some ()"
    using assms(4) by (simp add: test_sign_and_verify_def generate_keypair_def keypair_of_def)
  show "test_seed_based_keypair env = Some ()"
    using assms(2) honest
    by (simp add: test_seed_based_keypair_def generate_keypair_from_seed_def keypair_of_def Let_def)
  obtain okm where "c_hkdf env (ascii_bytes ''master'') (ascii_bytes ''path/0'') (ascii_bytes ''crypto-coin-key'') 32 = Some okm"
    using hkdf_returns [OF assms(3), of 32] by fastforce
  then show "test_deterministic_keygen env = Some ()"
    using assms(2) by (simp add: test_deterministic_keygen_def keygen_deterministic_def generate_keypair_from_seed_def)
  show "test_vrf env random = Some ()"
    using assms vrf.owner_chooses [of env "SecretKey random" "SigHash (c_sha256 env (random @ ascii_bytes ''randomness input''))"]
    by (simp add: test_vrf_def vrf_prove_def generate_keypair_def keypair_of_def wf_secret_def key_sizes
        derive_public_key_def)
  show "test_keypair_generation env random = Some () \<longleftrightarrow>
      random \<noteq> replicate 32 0 \<and> c_public env random \<noteq> replicate 32 0"
    by (simp add: test_keypair_generation_def generate_keypair_def keypair_of_def)
  show "test_invalid_signature env random random2 = Some () \<longleftrightarrow>
      \<not> sig_verify env (PublicKey (c_public env random2)) (sign env (SecretKey random) (ascii_bytes ''test data''))
        (ascii_bytes ''test data'')"
    by (simp add: test_invalid_signature_def generate_keypair_def keypair_of_def Let_def)
  show "test_address_derivation env random = Some () \<longleftrightarrow>
      derive_address env (PublicKey (c_public env random)) \<noteq> Some (Address (replicate 20 0))"
    using verify_address_iff [OF assms(2), of "PublicKey (c_public env random)"]
    by (auto simp: test_address_derivation_def generate_keypair_def keypair_of_def)
  show "test_commitment env = Some () \<longleftrightarrow>
      c_sha256 env (ascii_bytes ''secret value'' @ ascii_bytes ''random blinding'')
        \<noteq> c_sha256 env (ascii_bytes ''wrong value'' @ ascii_bytes ''random blinding'')"
    using assms(2) by (auto simp: test_commitment_def commit_def open_commitment_def)
qed

lemma signature_tests_outcome_witness:
  "test_sign_and_verify toy_crypto (replicate 32 1) = Some () \<and> test_vrf toy_crypto (replicate 32 1) = Some ()"
  using signature_tests_outcome(1,3) [OF toy_laws, of "replicate 32 1" "replicate 32 2"] by simp

text \<open>The tests of the wire protocol pass; the one on records, when the encoding is invertible.\<close>

lemma protocol_tests_pass:
  assumes "returns_32_bytes sha256"
    and "\<And>peer. \<exists>bytes. serialize peer = Some bytes \<and> deserialize bytes = Some peer"
  shows "test_wire_frame_roundtrip sha256 = Some ()" and "test_peer_record serialize deserialize = Some ()"
    and "test_protocol_version = Some ()"
proof -
  let ?payload = "ascii_bytes ''hello crypto-coin p2p''"
  let ?frame = "\<lparr>fr_magic = MAGIC_BYTES, fr_length = len_as_u32 ?payload, fr_checksum = sha256 ?payload, fr_payload = ?payload\<rparr>"
  have "wf_frame ?frame" using assms(1) by (simp add: wf_frame_def MAGIC_BYTES_def returns_32_bytes_def)
  then have "from_bytes (to_bytes ?frame) = Ok ?frame"
    using from_bytes_to_bytes [of ?frame "[]"] by (simp add: len_as_u32_def ascii_bytes_def)
  then show "test_wire_frame_roundtrip sha256 = Some ()"
    using assms(1) by (simp add: test_wire_frame_roundtrip_def WireFrame_new_def validate_frame_def compute_checksum_returns)
  show "test_protocol_version = Some ()"
    by (simp add: test_protocol_version_def PROTOCOL_VERSION_def MAGIC_BYTES_def ascii_bytes_def of_char_def)
  show "test_peer_record serialize deserialize = Some ()"
    using assms(2) [of "\<lparr>pr_peer_id = replicate 32 1, pr_addr = ''127.0.0.1:26656'', pr_public_key = replicate 32 2,
       pr_capabilities = Capabilities_default, pr_score = 1\<rparr>"]
    by (auto simp: test_peer_record_def)
qed

end
