(* ===== verification/Hs_Types.thy ===== *)
theory Hs_Types
  imports Rust_Prelude "HOL-Library.List_Lexorder" "HOL-Library.Product_Lexorder"
begin

text \<open>
  The data types of the Haskell package \<open>crypto-coin-protocol\<close>
  (\<open>CryptoCoin.Protocol.Types\<close>) and what its modules use of the Haskell base library:
  \<open>Int\<close> as a signed 64-bit word, the \<open>succ\<close> that raises at \<open>maxBound\<close>,
  \<open>Data.Map\<close> as an association list with distinct keys and its ascending list.
  A \<open>newtype\<close> is a datatype with one constructor; where the Rust crates use the same
  name, the Haskell one carries the prefix \<open>Hs\<close>. The orders that the sources derive are
  instances of \<open>linorder\<close>.
\<close>

section \<open>The base library\<close>

text \<open>\<open>Int\<close> and the length of a list as an \<open>Int\<close>.\<close>

type_synonym hs_Int = "64 word"

definition hs_length :: "'a list \<Rightarrow> hs_Int" where
  "hs_length xs = word_of_nat (length xs)"

text \<open>\<open>replicate\<close> gives no element for a negative count.\<close>

definition hs_replicate :: "hs_Int \<Rightarrow> 'a \<Rightarrow> 'a list" where
  "hs_replicate n x = replicate (nat (sint n)) x"

text \<open>The derived \<open>succ\<close> of a \<open>newtype\<close> over \<open>Word64\<close>.\<close>

definition hs_succ :: "u64 \<Rightarrow> u64 exec" where
  "hs_succ w = (if w = - 1 then None else Some (w + 1))"

lemma unat_hs_succ: "hs_succ w = Some v \<Longrightarrow> unat v = unat w + 1"
proof -
  assume "hs_succ w = Some v"
  then have v: "v = w + 1" "w \<noteq> - 1" by (auto simp: hs_succ_def split: if_splits)
  then have "1 + w \<noteq> 0" by (metis add.commute add_eq_0_iff2)
  with v show ?thesis by (simp add: unatSuc add.commute [of w])
qed

text \<open>\<open>Map.toAscList\<close>.\<close>

definition toAscList :: "('k::linorder, 'v) hashmap \<Rightarrow> ('k \<times> 'v) list" where
  "toAscList m = sort_key fst m"

text \<open>\<open>round\<close> on a time with picosecond resolution goes to the nearest even second.\<close>

definition round_pico :: "int \<Rightarrow> int" where
  "round_pico t =
     (let q = t div 10 ^ 12; r = t mod 10 ^ 12 in
      if 2 * r < 10 ^ 12 then q else if 2 * r > 10 ^ 12 then q + 1
      else if even q then q else q + 1)"

section \<open>Cryptographic types\<close>

datatype HsHash = HsHash (unHash: "u8 list")
datatype HsSignature = HsSignature (unSignature: "u8 list")
datatype HsPublicKey = HsPublicKey (unPublicKey: "u8 list")
datatype HsPrivateKey = HsPrivateKey (unPrivateKey: "u8 list")
datatype HsAddress = HsAddress (unAddress: "u8 list")
datatype MerkleRoot = MerkleRoot (unMerkleRoot: HsHash)

instantiation HsHash :: linorder
begin

definition less_eq_HsHash :: "HsHash \<Rightarrow> HsHash \<Rightarrow> bool" where
  "less_eq_HsHash a b \<longleftrightarrow> unHash a \<le> unHash b"

definition less_HsHash :: "HsHash \<Rightarrow> HsHash \<Rightarrow> bool" where
  "less_HsHash a b \<longleftrightarrow> unHash a < unHash b"

instance
  by standard (auto simp: less_eq_HsHash_def less_HsHash_def HsHash.expand)

end

record HsMerkleProof =
  mpLeaf :: HsHash
  mpSiblings :: "HsHash list"
  mpIndex :: u64

section \<open>Validators and votes\<close>

datatype ValidatorId = ValidatorId HsAddress
datatype Stake = Stake u64
datatype VoteType = VotePrepare | VoteCommit

record Vote =
  vValidator :: ValidatorId
  vBlockHash :: HsHash
  vRound :: u64
  vVoteType :: VoteType
  vSignature :: HsSignature

datatype HsValidatorSet = ValidatorSet (unValidatorSet: "(ValidatorId \<times> Stake) list")

section \<open>Transactions\<close>

datatype TxId = TxId (unTxId: HsHash)
datatype UTxOId = UTxOId (unUTxOId: "TxId \<times> u64")
datatype Amount = Amount (unAmount: u64)

instantiation TxId :: linorder
begin

definition less_eq_TxId :: "TxId \<Rightarrow> TxId \<Rightarrow> bool" where
  "less_eq_TxId a b \<longleftrightarrow> unTxId a \<le> unTxId b"

definition less_TxId :: "TxId \<Rightarrow> TxId \<Rightarrow> bool" where
  "less_TxId a b \<longleftrightarrow> unTxId a < unTxId b"

instance
  by standard (auto simp: less_eq_TxId_def less_TxId_def TxId.expand)

end

instantiation UTxOId :: linorder
begin

definition less_eq_UTxOId :: "UTxOId \<Rightarrow> UTxOId \<Rightarrow> bool" where
  "less_eq_UTxOId a b \<longleftrightarrow> unUTxOId a \<le> unUTxOId b"

definition less_UTxOId :: "UTxOId \<Rightarrow> UTxOId \<Rightarrow> bool" where
  "less_UTxOId a b \<longleftrightarrow> unUTxOId a < unUTxOId b"

instance
  by standard (auto simp: less_eq_UTxOId_def less_UTxOId_def UTxOId.expand)

end

instantiation Amount :: linorder
begin

definition less_eq_Amount :: "Amount \<Rightarrow> Amount \<Rightarrow> bool" where
  "less_eq_Amount a b \<longleftrightarrow> unAmount a \<le> unAmount b"

definition less_Amount :: "Amount \<Rightarrow> Amount \<Rightarrow> bool" where
  "less_Amount a b \<longleftrightarrow> unAmount a < unAmount b"

instance
  by standard (auto simp: less_eq_Amount_def less_Amount_def Amount.expand)

end

record TxInput =
  tiUtxoId :: UTxOId
  tiProof :: "HsMerkleProof option"

record TxOutput =
  toAddress :: HsAddress
  toAmount :: Amount
  toData :: "u8 list option"

record HsTransaction =
  txId :: TxId
  txInputs :: "TxInput list"
  txOutputs :: "TxOutput list"
  txSignature :: HsSignature
  txPublicKey :: HsPublicKey
  txNonce :: u64
  txFee :: Amount

record UTxO =
  uId :: UTxOId
  uAddress :: HsAddress
  uAmount :: Amount
  uData :: "u8 list option"

record HsValue =
  vAmount :: Amount
  vDenom :: u8

section \<open>Blocks\<close>

datatype BlockNumber = BlockNumber (unBlockNumber: u64)
datatype SlotNumber = SlotNumber (unSlotNumber: u64)
datatype EpochNumber = EpochNumber (unEpochNumber: u64)

text \<open>\<open>POSIXTime\<close> counts picoseconds.\<close>

type_synonym Timestamp = int
type_synonym Nonce = u64
type_synonym Version = u32
type_synonym BlockHash = HsHash

record BlockHeader =
  bhParentHash :: BlockHash
  bhBlockNumber :: BlockNumber
  bhSlotNumber :: SlotNumber
  bhEpochNumber :: EpochNumber
  bhTimestamp :: Timestamp
  bhValidator :: ValidatorId
  bhMerkleRoot :: MerkleRoot
  bhStateRoot :: HsHash
  bhNonce :: Nonce
  bhVersion :: Version
  bhSignature :: HsSignature

record BlockBody =
  bbTransactions :: "HsTransaction list"
  bbVotes :: "Vote list"

record HsBlock =
  bHeader :: BlockHeader
  bBody :: BlockBody

section \<open>Chain state\<close>

datatype UTxOSet = UTxOSet (unUTxOSet: "(UTxOId, UTxO) hashmap")

record ValidatorState =
  vsStake :: Stake
  vsIsActive :: bool
  vsLastVote :: "SlotNumber option"
  vsMissedSlots :: u64

record ChainConsensusState =
  csCurrentEpoch :: EpochNumber
  csCurrentSlot :: SlotNumber
  csLastFinalizedBlock :: BlockHash
  csChainValidatorSet :: HsValidatorSet
  csPendingProposals :: "(SlotNumber, BlockHash) hashmap"
  csVotes :: "(BlockHash, Vote set) hashmap"

record ChainState =
  csUtxoSet :: UTxOSet
  csConsensus :: ChainConsensusState
  csValidatorStates :: "(ValidatorId, ValidatorState) hashmap"
  csTipHash :: BlockHash
  csTipNumber :: BlockNumber

section \<open>Parameters\<close>

record SecurityParam =
  spK :: u64
  spT :: u8

datatype EpochLength = EpochLength u64
datatype SlotLength = SlotLength u64

record ProtocolParams =
  ppSecurityParam :: SecurityParam
  ppEpochLength :: EpochLength
  ppSlotLength :: SlotLength
  ppMaxBlockSize :: u32
  ppMaxTxSize :: u32
  ppMinStake :: Stake
  ppSlashingRate :: u8
  ppRewardRate :: u8

record GenesisConfig =
  gcInitialValidators :: "(ValidatorId \<times> Stake) list"
  gcInitialUtxos :: "(HsAddress \<times> Amount) list"
  gcGenesisTime :: Timestamp
  gcProtocolParams :: ProtocolParams

section \<open>Errors\<close>

datatype ValidationError =
    VEInvalidBlockStructure string
  | VEInvalidSignature
  | VEInsufficientFunds Amount Amount
  | VEDoubleSpend UTxOId
  | VEInvalidNonce
  | VETransactionTooLarge u32 u32
  | VEBlockTooLarge u32 u32
  | VEMerkleRootMismatch MerkleRoot MerkleRoot
  | VEStateRootMismatch HsHash HsHash

datatype ConsensusError =
    CEInvalidValidator ValidatorId
  | CEInsufficientVotes u64 u64
  | CEDoubleVote ValidatorId
  | CEUnknownBlock BlockHash
  | CEForkNotFinalized
  | CEEpochMismatch EpochNumber EpochNumber
  | CESlotMismatch SlotNumber SlotNumber
  | CELeaderElectionFailed

datatype HsProtocolError =
    PEValidationError ValidationError
  | PEConsensusError ConsensusError
  | PECryptoError string
  | PEInternalError string

end
