(* ===== verification/Hs_Crypto.thy ===== *)
theory Hs_Crypto
  imports Hs_Types
begin

text \<open>
  The module \<open>CryptoCoin.Protocol.Crypto\<close>. The package has no third-party
  cryptography: every primitive is written out in the module as a placeholder and is
  modelled as written. What the lemmas show is how far the placeholders are from the
  algorithms they are named after: the digest keeps the first 32 bytes of each block, a
  public key is the secret seed, a signature can be computed from public data, and an honest
  signature on more than seven bytes is refused.
\<close>

section \<open>Constants\<close>

definition hashLength :: nat where "hashLength = 32"
definition signatureLength :: nat where "signatureLength = 64"
definition publicKeyLength :: nat where "publicKeyLength = 32"
definition privateKeyLength :: nat where "privateKeyLength = 64"
definition addressLength :: nat where "addressLength = 20"

section \<open>The digest\<close>

definition padSHA3 :: "u8 list \<Rightarrow> u8 list" where
  "padSHA3 bs =
     (let rate = 136; paddingLen = rate - int (length bs) mod rate - 2 in
      if paddingLen < 0
      then bs @ [0x06] @ replicate (nat (rate + paddingLen)) 0 @ [0x80]
      else bs @ [0x06] @ replicate (nat paddingLen) 0 @ [0x80])"

text \<open>\<open>chunkSize\<close> is only called with the block size 136.\<close>

function chunkSize :: "u8 list \<Rightarrow> u8 list list" where
  "chunkSize bs = (if bs = [] then [] else take 136 bs # chunkSize (drop 136 bs))"
  by pat_completeness auto
termination
  by (relation "measure length") auto

declare chunkSize.simps [simp del]

definition absorb :: "u8 list \<Rightarrow> u8 list \<Rightarrow> u8 list" where
  "absorb state block = map2 (XOR) state block"

definition xorEnd :: "u8 list \<Rightarrow> u8 list \<Rightarrow> u8 list" where
  "xorEnd state _ = take 32 state"

definition hs_sha3_256 :: "u8 list \<Rightarrow> u8 list" where
  "hs_sha3_256 input =
     xorEnd (foldl absorb (replicate 32 0) (chunkSize (padSHA3 input))) [0x06]"

definition sha3_512 :: "u8 list \<Rightarrow> u8 list" where
  "sha3_512 input =
     (let h = hs_sha3_256 (input @ replicate 32 0); h2 = hs_sha3_256 (h @ input) in h @ h2)"

section \<open>Internal primitives\<close>

definition ed25519_keypair :: "u8 list \<Rightarrow> u8 list \<times> u8 list" where
  "ed25519_keypair seed = (let pubKey = take 32 (sha3_512 seed); privKey = seed @ pubKey in (privKey, pubKey))"

definition ed25519_sign :: "u8 list \<Rightarrow> u8 list \<Rightarrow> u8 list" where
  "ed25519_sign privKey msg =
     (let seed = take 32 privKey;
          r = sha3_512 (seed @ msg);
          R = take 32 r;
          S = take 32 (sha3_512 (R @ privKey @ msg))
      in R @ S)"

definition ed25519_verify :: "u8 list \<Rightarrow> u8 list \<Rightarrow> u8 list \<Rightarrow> bool" where
  "ed25519_verify pubKey sig msg \<longleftrightarrow>
     (let r = take 32 sig; s = drop 32 sig;
          expected = sha3_512 (r @ pubKey @ msg);
          sExpected = take 32 expected
      in s = sExpected)"

definition ed25519_derivePublic :: "u8 list \<Rightarrow> u8 list" where
  "ed25519_derivePublic privKey = (let seed = take 32 privKey in take 32 (sha3_512 seed))"

definition hs_blake2b_160 :: "u8 list \<Rightarrow> u8 list" where
  "hs_blake2b_160 input = take 20 (hs_sha3_256 input)"

definition hs_blake2b_256 :: "u8 list \<Rightarrow> u8 list" where
  "hs_blake2b_256 input = hs_sha3_256 input"

definition hkdf_derive :: "u8 list \<Rightarrow> u8 list \<Rightarrow> int \<Rightarrow> u8 list" where
  "hkdf_derive salt info n =
     (let prk = hs_sha3_256 (salt @ [0x01]);
          okm = hs_sha3_256 (prk @ info @ [0x01])
      in take (nat n) okm)"

definition x25519_sharedSecret :: "u8 list \<Rightarrow> u8 list \<Rightarrow> u8 list" where
  "x25519_sharedSecret privKey pubKey = hs_sha3_256 (privKey @ pubKey)"

text \<open>The first \<open>n\<close> elements of the endless repetition of a non-empty list.\<close>

definition take_cycle :: "nat \<Rightarrow> 'a list \<Rightarrow> 'a list" where
  "take_cycle n xs = map (\<lambda>i. xs ! (i mod length xs)) [0..<n]"

definition chacha20_poly1305_encrypt :: "u8 list \<Rightarrow> u8 list \<Rightarrow> u8 list \<Rightarrow> u8 list" where
  "chacha20_poly1305_encrypt key nonce plaintext =
     (let keyStream = hs_sha3_256 (key @ nonce)
      in map2 (XOR) plaintext (take_cycle (length plaintext) keyStream))"

definition chacha20_poly1305_decrypt :: "u8 list \<Rightarrow> u8 list \<Rightarrow> u8 list \<Rightarrow> u8 list option" where
  "chacha20_poly1305_decrypt key nonce ciphertext =
     Some (chacha20_poly1305_encrypt key nonce ciphertext)"

definition generateRandomBytes :: "int \<Rightarrow> u8 list" where
  "generateRandomBytes n = replicate (nat n) 0"

definition serializeWord32 :: "u32 \<Rightarrow> u8 list" where
  "serializeWord32 w =
     [ucast (drop_bit 24 w), ucast (drop_bit 16 w), ucast (drop_bit 8 w), ucast w]"

definition serializeWord64 :: "u64 \<Rightarrow> u8 list" where
  "serializeWord64 w =
     [ucast (drop_bit 56 w), ucast (drop_bit 48 w), ucast (drop_bit 40 w), ucast (drop_bit 32 w),
      ucast (drop_bit 24 w), ucast (drop_bit 16 w), ucast (drop_bit 8 w), ucast w]"

section \<open>Exported operations\<close>

definition hs_hash :: "u8 list \<Rightarrow> HsHash" where
  "hs_hash input = HsHash (hs_sha3_256 input)"

definition hashToScalar :: "u8 list \<Rightarrow> u8 list" where
  "hashToScalar input = (let h = hs_sha3_256 input in take 32 h)"

definition hashToGroup :: "u8 list \<Rightarrow> u8 list" where
  "hashToGroup input = (let h = hs_sha3_256 input in take 32 h)"

definition hashWithPrefix :: "u8 list \<Rightarrow> u8 list \<Rightarrow> HsHash" where
  "hashWithPrefix pre input = hs_hash (pre @ input)"

fun hs_sign :: "HsPrivateKey \<Rightarrow> u8 list \<Rightarrow> HsSignature option" where
  "hs_sign (HsPrivateKey privKey) data =
     (let signature = ed25519_sign privKey data
      in if signature = [] then None else Some (HsSignature signature))"

fun hs_verify :: "HsPublicKey \<Rightarrow> HsSignature \<Rightarrow> u8 list \<Rightarrow> bool" where
  "hs_verify (HsPublicKey pubKey) (HsSignature signature) data = ed25519_verify pubKey signature data"

definition signDetached :: "HsPrivateKey \<Rightarrow> u8 list \<Rightarrow> HsSignature option" where
  "signDetached = hs_sign"

definition verifyDetached :: "HsPublicKey \<Rightarrow> HsSignature \<Rightarrow> u8 list \<Rightarrow> bool" where
  "verifyDetached = hs_verify"

definition generateKeyPairFromSeed :: "u8 list \<Rightarrow> HsPrivateKey \<times> HsPublicKey" where
  "generateKeyPairFromSeed seed =
     (let (privKey, pubKey) = ed25519_keypair seed in (HsPrivateKey privKey, HsPublicKey pubKey))"

definition generateKeyPair :: "HsPrivateKey \<times> HsPublicKey" where
  "generateKeyPair =
     (let seed = generateRandomBytes 32; (privKey, pubKey) = ed25519_keypair seed
      in (HsPrivateKey privKey, HsPublicKey pubKey))"

fun derivePublicKey :: "HsPrivateKey \<Rightarrow> HsPublicKey" where
  "derivePublicKey (HsPrivateKey privKey) =
     (let pubKey = ed25519_derivePublic privKey in HsPublicKey pubKey)"

definition keyGenDeterministic :: "u8 list \<Rightarrow> u8 list \<Rightarrow> HsPrivateKey \<times> HsPublicKey" where
  "keyGenDeterministic masterSeed derivationPath =
     (let derivedKey = hkdf_derive masterSeed derivationPath 32 in generateKeyPairFromSeed derivedKey)"

fun deriveAddress :: "HsPublicKey \<Rightarrow> HsAddress" where
  "deriveAddress (HsPublicKey pubKey) = HsAddress (hs_blake2b_160 pubKey)"

definition deriveAddressFromPublicKey :: "u8 list \<Rightarrow> HsAddress" where
  "deriveAddressFromPublicKey pubKeyBytes = HsAddress (hs_blake2b_160 pubKeyBytes)"

definition verifyAddress :: "HsAddress \<Rightarrow> HsPublicKey \<Rightarrow> bool" where
  "verifyAddress addr pubKey \<longleftrightarrow> deriveAddress pubKey = addr"

definition deriveKey :: "u8 list \<Rightarrow> u8 list \<Rightarrow> int \<Rightarrow> u8 list" where
  "deriveKey = hkdf_derive"

fun deriveChildKey :: "HsPrivateKey \<Rightarrow> u32 \<Rightarrow> HsPrivateKey \<times> HsPublicKey" where
  "deriveChildKey (HsPrivateKey parentPriv) index =
     (let derivationData = parentPriv @ serializeWord32 index;
          childSeed = hkdf_derive parentPriv derivationData 32
      in generateKeyPairFromSeed childSeed)"

fun generateSharedSecret :: "HsPrivateKey \<Rightarrow> HsPublicKey \<Rightarrow> u8 list" where
  "generateSharedSecret (HsPrivateKey privKey) (HsPublicKey pubKey) = x25519_sharedSecret privKey pubKey"

definition encryptWithSharedSecret :: "u8 list \<Rightarrow> u8 list \<Rightarrow> u8 list \<Rightarrow> u8 list" where
  "encryptWithSharedSecret sharedSecret nonce plaintext =
     chacha20_poly1305_encrypt sharedSecret nonce plaintext"

definition decryptWithSharedSecret :: "u8 list \<Rightarrow> u8 list \<Rightarrow> u8 list \<Rightarrow> u8 list option" where
  "decryptWithSharedSecret sharedSecret nonce ciphertext =
     chacha20_poly1305_decrypt sharedSecret nonce ciphertext"

fun vrfProve :: "HsPrivateKey \<Rightarrow> u8 list \<Rightarrow> u8 list" where
  "vrfProve (HsPrivateKey privKey) input =
     (let h = hs_sha3_256 (privKey @ input); pf = ed25519_sign privKey h in h @ pf)"

fun vrfVerify :: "HsPublicKey \<Rightarrow> u8 list \<Rightarrow> u8 list \<Rightarrow> u8 list option" where
  "vrfVerify (HsPublicKey pubKey) input pf =
     (let h = take 32 pf; signature = drop 32 pf
      in if ed25519_verify pubKey signature h then Some h else None)"

definition vrfProofToHash :: "u8 list \<Rightarrow> HsHash" where
  "vrfProofToHash pf = HsHash (take 32 pf)"

definition hs_commit :: "u8 list \<Rightarrow> u8 list \<Rightarrow> HsHash" where
  "hs_commit val blinding = hs_hash (val @ blinding)"

definition hs_open :: "HsHash \<Rightarrow> u8 list \<Rightarrow> u8 list \<Rightarrow> bool" where
  "hs_open commitment val blinding \<longleftrightarrow> hs_commit val blinding = commitment"

definition generateProof_zk :: "u8 list \<Rightarrow> u8 list \<Rightarrow> u8 list \<Rightarrow> u8 list" where
  "generateProof_zk _ _ _ = replicate 128 0"

definition verifyProof_zk :: "u8 list \<Rightarrow> u8 list \<Rightarrow> u8 list \<Rightarrow> bool" where
  "verifyProof_zk _ _ _ = True"

section \<open>Blocks of the digest\<close>

lemma chunkSize_Nil [simp]: "chunkSize [] = []"
  by (subst chunkSize.simps) simp

lemma chunkSize_block: "bs \<noteq> [] \<Longrightarrow> chunkSize bs = take 136 bs # chunkSize (drop 136 bs)"
  by (subst chunkSize.simps) simp

lemma padSHA3_eq:
  "padSHA3 bs = bs @ [0x06] @
     replicate (if length bs mod 136 = 135 then 135 else 134 - length bs mod 136) 0 @ [0x80]"
proof -
  have "length bs mod 136 < 136" by simp
  then show ?thesis
    using zmod_int [of "length bs" 136] by (auto simp: padSHA3_def Let_def nat_eq_iff)
qed

lemma absorb_cong:
  assumes "length b = length c" and "\<And>i. i < length s \<Longrightarrow> i < length b \<Longrightarrow> b ! i = c ! i"
  shows "absorb s b = absorb s c"
  using assms by (auto simp: absorb_def intro!: nth_equalityI)

lemma absorb_zero: "n \<le> length b \<Longrightarrow> absorb (replicate n 0) b = take n b"
  by (auto simp: absorb_def intro!: nth_equalityI)

lemma absorb_zero_block: "length s \<le> length b \<Longrightarrow> take (length s) b = replicate (length s) 0 \<Longrightarrow> absorb s b = s"
  unfolding absorb_def
  by (rule nth_equalityI) (auto simp: min_def, metis nth_replicate nth_take xor.right_neutral)

lemma length_absorb [simp]: "length (absorb s b) = min (length s) (length b)"
  by (simp add: absorb_def)

lemma padSHA3_blocks: "136 dvd length (padSHA3 bs)" "padSHA3 bs \<noteq> []"
proof -
  define m d where md_def: "m = length bs mod 136" "d = length bs div 136"
  then have md: "length bs = 136 * d + m" "m < 136" "length bs mod 136 = m" by simp_all
  with md have "length (padSHA3 bs) = 136 * (if m = 135 then d + 2 else d + 1)"
    by (simp add: padSHA3_eq)
  then show "136 dvd length (padSHA3 bs)" by simp
  show "padSHA3 bs \<noteq> []" by (simp add: padSHA3_eq)
qed

lemma length_absorb_blocks:
  "136 dvd length p \<Longrightarrow> length s = 32 \<Longrightarrow> length (foldl absorb s (chunkSize p)) = 32"
proof (induction p arbitrary: s rule: chunkSize.induct)
  case (1 p)
  show ?case
  proof (cases "p = []")
    case False
    with 1 have "136 \<le> length p" by (auto dest: dvd_imp_le)
    with 1 False show ?thesis by (simp add: chunkSize_block dvd_diff_nat)
  qed (use 1 in simp)
qed

lemma length_hs_sha3_256 [simp, bytes_simps]: "length (hs_sha3_256 x) = 32"
  by (simp add: hs_sha3_256_def xorEnd_def length_absorb_blocks padSHA3_blocks)

lemma absorb_blocks_cong:
  assumes "length p = length q" and "\<forall>i<length p. i mod 136 < 32 \<longrightarrow> p ! i = q ! i" and "length s \<le> 32"
  shows "foldl absorb s (chunkSize p) = foldl absorb s (chunkSize q)"
  using assms
proof (induction p arbitrary: q s rule: chunkSize.induct)
  case (1 p)
  show ?case
  proof (cases "p = []")
    case False
    have head: "absorb s (take 136 p) = absorb s (take 136 q)"
      using 1(2-4) by (intro absorb_cong) auto
    have "foldl absorb (absorb s (take 136 p)) (chunkSize (drop 136 p))
        = foldl absorb (absorb s (take 136 p)) (chunkSize (drop 136 q))"
      using 1(2-4) False by (intro 1(1)) auto
    moreover have "q \<noteq> []" using False 1(2) by auto
    ultimately show ?thesis using False head by (simp add: chunkSize_block)
  qed (use 1 in simp)
qed

lemma hs_sha3_256_cong:
  assumes "length x = length y" and "\<forall>i<length x. i mod 136 < 32 \<longrightarrow> x ! i = y ! i"
  shows "hs_sha3_256 x = hs_sha3_256 y"
  using assms unfolding hs_sha3_256_def
  by (subst absorb_blocks_cong [where q = "padSHA3 y"]) (auto simp: padSHA3_eq nth_append)

lemma chunkSize_two: "length p = 272 \<Longrightarrow> chunkSize p = [take 136 p, drop 136 p]"
proof -
  assume "length p = 272"
  then have "p \<noteq> []" "drop 136 p \<noteq> []" by auto
  then show ?thesis using \<open>length p = 272\<close> by (simp add: chunkSize_block)
qed

lemma hs_sha3_256_one_block:
  assumes "length x < 135"
  shows "hs_sha3_256 x = take 32 (padSHA3 x)"
proof -
  have "length (padSHA3 x) = 136" using assms by (simp add: padSHA3_eq)
  moreover from this have "padSHA3 x \<noteq> []" by auto
  ultimately show ?thesis by (simp add: hs_sha3_256_def xorEnd_def chunkSize_block absorb_zero)
qed

lemma hs_sha3_256_two_blocks:
  assumes "135 \<le> length x" and "length x < 271"
  shows "hs_sha3_256 x = absorb (take 32 x) (take 32 (drop 136 (padSHA3 x)))"
proof -
  have len: "length (padSHA3 x) = 272"
  proof (cases "length x = 135")
    case False
    then have "length x mod 136 = length x - 136" using assms by (simp add: le_mod_geq)
    with False assms show ?thesis by (simp add: padSHA3_eq)
  qed (simp add: padSHA3_eq)
  then have "hs_sha3_256 x = take 32 (absorb (take 32 (padSHA3 x)) (drop 136 (padSHA3 x)))"
    by (simp add: hs_sha3_256_def xorEnd_def chunkSize_two absorb_zero)
  also have "take 32 (padSHA3 x) = take 32 x" using assms by (simp add: padSHA3_eq)
  also have "take 32 (absorb (take 32 x) (drop 136 (padSHA3 x))) = absorb (take 32 x) (take 32 (drop 136 (padSHA3 x)))"
    by (simp add: absorb_def take_map take_zip)
  finally show ?thesis .
qed

lemma hs_sha3_256_short:
  assumes "32 \<le> length x" and "length x \<le> 135"
  shows "hs_sha3_256 x = take 32 x"
proof (cases "length x = 135")
  case True
  have "take 32 (drop 136 (padSHA3 x)) = replicate 32 0"
    using True by (simp add: padSHA3_eq)
  with True show ?thesis by (simp add: hs_sha3_256_two_blocks absorb_zero_block)
next
  case False
  with assms show ?thesis by (simp add: hs_sha3_256_one_block padSHA3_eq)
qed

text \<open>The digest is linear: a leading block enters by its first 32 bytes.\<close>

lemma absorb_assoc: "absorb (absorb s b) c = absorb s (absorb b c)"
  by (rule nth_equalityI) (simp_all add: absorb_def xor.assoc)

lemma absorb_zero_right: "length s \<le> n \<Longrightarrow> absorb s (replicate n 0) = s"
  by (rule nth_equalityI) (simp_all add: absorb_def)

lemma absorb_take: "length c \<le> n \<Longrightarrow> absorb (take n b) c = absorb b c"
  by (rule nth_equalityI) (simp_all add: absorb_def)

lemma absorb_blocks_linear:
  "136 dvd length p \<Longrightarrow> length s = 32 \<Longrightarrow>
   foldl absorb s (chunkSize p) = absorb s (foldl absorb (replicate 32 0) (chunkSize p))"
proof (induction p arbitrary: s rule: chunkSize.induct)
  case (1 p)
  show ?case
  proof (cases "p = []")
    case True
    with 1 show ?thesis by (simp add: absorb_zero_right)
  next
    case False
    with 1 have len: "136 \<le> length p" "136 dvd length (drop 136 p)" by (auto dest: dvd_imp_le simp: dvd_diff_nat)
    let ?rest = "foldl absorb (replicate 32 0) (chunkSize (drop 136 p))" and ?b = "take 136 p"
    have step: "foldl absorb t (chunkSize p) = absorb (absorb t ?b) ?rest" if "length t = 32" for t
    proof -
      have "foldl absorb t (chunkSize p) = foldl absorb (absorb t ?b) (chunkSize (drop 136 p))"
        by (subst chunkSize_block [OF False]) simp
      also have "\<dots> = absorb (absorb t ?b) ?rest" using that len by (intro 1(1) [OF False len(2)]) simp
      finally show ?thesis .
    qed
    from step [OF 1(3)] have "foldl absorb s (chunkSize p) = absorb (absorb s ?b) ?rest" .
    also have "\<dots> = absorb s (absorb ?b ?rest)" by (rule absorb_assoc)
    also have "absorb ?b ?rest = absorb (absorb (replicate 32 0) ?b) ?rest"
      using len absorb_take [of ?rest 32 ?b] by (simp add: absorb_zero length_absorb_blocks)
    also have "\<dots> = foldl absorb (replicate 32 0) (chunkSize p)" by (simp only: step length_replicate)
    finally show ?thesis .
  qed
qed

lemma hs_sha3_256_block:
  assumes "length p = 136"
  shows "hs_sha3_256 (p @ q) = absorb (take 32 p) (hs_sha3_256 q)"
proof -
  have "padSHA3 (p @ q) = p @ padSHA3 q" using assms by (simp add: padSHA3_eq)
  moreover have "p \<noteq> []" using assms by auto
  ultimately have "foldl absorb (replicate 32 0) (chunkSize (padSHA3 (p @ q)))
      = foldl absorb (take 32 p) (chunkSize (padSHA3 q))"
    using assms by (simp add: chunkSize_block absorb_zero)
  also have "\<dots> = absorb (take 32 p) (foldl absorb (replicate 32 0) (chunkSize (padSHA3 q)))"
    using assms padSHA3_blocks by (intro absorb_blocks_linear) simp_all
  finally show ?thesis
    using assms by (simp add: hs_sha3_256_def xorEnd_def length_absorb_blocks padSHA3_blocks)
qed

text \<open>What lies between the 32nd and the 136th byte does not count.\<close>

lemma hs_sha3_256_middle:
  assumes "length p = 32" and "length x = length y" and "length x \<le> 104"
  shows "hs_sha3_256 (p @ x @ t) = hs_sha3_256 (p @ y @ t)"
proof (rule hs_sha3_256_cong)
  show "\<forall>i<length (p @ x @ t). i mod 136 < 32 \<longrightarrow> (p @ x @ t) ! i = (p @ y @ t) ! i"
  proof (intro allI impI)
    fix i assume "i < length (p @ x @ t)" and m: "i mod 136 < 32"
    then show "(p @ x @ t) ! i = (p @ y @ t) ! i"
      using assms by (cases "i < 136") (auto simp: nth_append)
  qed
qed (use assms in simp)

section \<open>Keys and signatures\<close>

lemma take_sha3_512: "take 32 (sha3_512 x) = hs_sha3_256 (x @ replicate 32 0)"
  by (simp add: sha3_512_def Let_def)

lemma length_sha3_512 [simp, bytes_simps]: "length (sha3_512 x) = 64"
  by (simp add: sha3_512_def Let_def)

lemma length_ed25519_sign [simp, bytes_simps]: "length (ed25519_sign k m) = 64"
  by (simp add: ed25519_sign_def Let_def)

lemma ed25519_sign_nonempty [simp]: "ed25519_sign k m \<noteq> []"
  using length_ed25519_sign [of k m] by fastforce

lemma ed25519_verify_iff:
  "ed25519_verify pub sig msg \<longleftrightarrow> drop 32 sig = hs_sha3_256 (take 32 sig @ pub @ msg @ replicate 32 0)"
  by (simp add: ed25519_verify_def Let_def take_sha3_512)

lemma ed25519_sign_eq:
  "ed25519_sign priv msg =
     (let R = hs_sha3_256 (take 32 priv @ msg @ replicate 32 0)
      in R @ hs_sha3_256 (R @ priv @ msg @ replicate 32 0))"
  by (simp add: ed25519_sign_def Let_def take_sha3_512)

lemma ed25519_keypair_eq: "length seed = 32 \<Longrightarrow> ed25519_keypair seed = (seed @ seed, seed)"
  by (simp add: ed25519_keypair_def Let_def take_sha3_512 hs_sha3_256_short)

lemma absorb_nonzero:
  assumes "i < length s" and "i < length b" and "b ! i \<noteq> 0"
  shows "absorb s b \<noteq> s"
proof
  assume "absorb s b = s"
  moreover have "absorb s b ! i = (s ! i) XOR (b ! i)" using assms by (simp add: absorb_def)
  ultimately have "(s ! i) XOR (b ! i) = s ! i" by simp
  then have "(s ! i) XOR ((s ! i) XOR (b ! i)) = 0" by simp
  then have "b ! i = 0" by (simp flip: xor.assoc)
  with assms(3) show False by simp
qed

lemma ed25519_honest_iff:
  assumes "length seed = 32" and "length msg \<le> 39"
  shows "ed25519_verify seed (ed25519_sign (seed @ seed) msg) msg \<longleftrightarrow> length msg \<le> 7"
proof -
  let ?x = "seed @ seed @ seed @ msg @ replicate 32 0"
  have R: "hs_sha3_256 (seed @ msg @ replicate 32 0) = seed"
    and E: "hs_sha3_256 (seed @ seed @ msg @ replicate 32 0) = seed"
    using assms by (simp_all add: hs_sha3_256_short)
  have iff: "ed25519_verify seed (ed25519_sign (seed @ seed) msg) msg \<longleftrightarrow> hs_sha3_256 ?x = seed"
    using assms R E by (simp add: ed25519_verify_iff ed25519_sign_eq Let_def)
  show ?thesis
  proof (cases "length msg \<le> 7")
    case True
    then show ?thesis using assms iff by (simp add: hs_sha3_256_short)
  next
    case False
    let ?j = "length msg - 8"
    have "replicate 32 (0 :: u8) = replicate (40 - length msg) 0 @ replicate ?j 0"
      using assms False by (simp flip: replicate_add)
    then have "padSHA3 ?x = (seed @ seed @ seed @ msg @ replicate (40 - length msg) 0)
        @ replicate ?j 0 @ 0x06 # drop (length ?x + 1) (padSHA3 ?x)"
      by (simp add: padSHA3_eq)
    moreover have "length (seed @ seed @ seed @ msg @ replicate (40 - length msg) (0 :: u8)) = 136"
      using assms False by simp
    ultimately have "drop 136 (padSHA3 ?x) = replicate ?j 0 @ 0x06 # drop (length ?x + 1) (padSHA3 ?x)"
      by (metis append_eq_conv_conj)
    moreover have "?j < 32" using assms by simp
    ultimately have "absorb seed (take 32 (drop 136 (padSHA3 ?x))) \<noteq> seed"
      using assms(1) by (intro absorb_nonzero [where i = ?j]) (simp_all add: nth_append)
    then have "hs_sha3_256 ?x \<noteq> seed" using assms False by (subst hs_sha3_256_two_blocks) simp_all
    with iff False show ?thesis by simp
  qed
qed

lemma absorb_cancel:
  assumes "length x = length r" and "length y = length r"
  shows "absorb r x = absorb r y \<longleftrightarrow> x = y"
proof
  assume "absorb r x = absorb r y"
  then have "absorb (absorb r r) x = absorb (absorb r r) y" by (simp only: absorb_assoc)
  moreover have "absorb r r = replicate (length r) 0" by (rule nth_equalityI) (simp_all add: absorb_def)
  ultimately show "x = y" using assms by (simp add: absorb_zero)
qed simp

text \<open>
  A 160-byte message, signed with a key pair of this module and verified against a 20-byte
  key: the signer's second and third block meet other bytes of the message than the
  verifier's second block.
\<close>

lemma ed25519_address_iff:
  assumes "length seed = 32" and "length a = 20" and "length msg = 160"
  shows "ed25519_verify a (ed25519_sign (seed @ seed) msg) msg \<longleftrightarrow>
    take 32 (drop 84 msg) = absorb (take 32 (drop 40 msg)) (replicate 16 0 @ 0x06 # replicate 15 0)"
proof -
  let ?z = "replicate 32 0 :: u8 list" and ?z' = "replicate 16 0 :: u8 list"
  define R where "R = hs_sha3_256 (seed @ msg @ ?z)"
  have R: "length R = 32" by (simp add: R_def)
  have z: "?z = ?z' @ ?z'" by (simp flip: replicate_add)
  have "hs_sha3_256 ((R @ seed @ seed @ take 40 msg) @ drop 40 msg @ ?z) = absorb R (hs_sha3_256 (drop 40 msg @ ?z))"
    using assms R by (subst hs_sha3_256_block) simp_all
  moreover have "(R @ seed @ seed @ take 40 msg) @ drop 40 msg @ ?z = R @ (seed @ seed) @ msg @ ?z" by simp
  ultimately have S: "hs_sha3_256 (R @ (seed @ seed) @ msg @ ?z) = absorb R (hs_sha3_256 (drop 40 msg @ ?z))"
    by (simp only:)
  have "hs_sha3_256 ((drop 40 msg @ ?z') @ ?z') = absorb (take 32 (drop 40 msg)) (hs_sha3_256 ?z')"
    using assms by (subst hs_sha3_256_block) simp_all
  moreover have "hs_sha3_256 ?z' = ?z' @ 0x06 # replicate 15 0"
    by (simp add: hs_sha3_256_one_block padSHA3_eq)
  ultimately have S': "hs_sha3_256 (drop 40 msg @ ?z)
      = absorb (take 32 (drop 40 msg)) (?z' @ 0x06 # replicate 15 0)"
    by (simp only: z append_assoc)
  have "hs_sha3_256 ((R @ a @ take 84 msg) @ drop 84 msg @ ?z) = absorb R (hs_sha3_256 (drop 84 msg @ ?z))"
    using assms R by (subst hs_sha3_256_block) simp_all
  moreover have "(R @ a @ take 84 msg) @ drop 84 msg @ ?z = R @ a @ msg @ ?z" by simp
  moreover have "hs_sha3_256 (drop 84 msg @ ?z) = take 32 (drop 84 msg)"
    using assms by (simp add: hs_sha3_256_short)
  ultimately have E: "hs_sha3_256 (R @ a @ msg @ ?z) = absorb R (take 32 (drop 84 msg))"
    by (simp only:)
  have "ed25519_verify a (ed25519_sign (seed @ seed) msg) msg \<longleftrightarrow>
      hs_sha3_256 (R @ (seed @ seed) @ msg @ ?z) = hs_sha3_256 (R @ a @ msg @ ?z)"
    using assms R by (simp add: ed25519_verify_iff ed25519_sign_eq Let_def R_def [symmetric])
  also have "\<dots> \<longleftrightarrow> absorb (take 32 (drop 40 msg)) (?z' @ 0x06 # replicate 15 0) = take 32 (drop 84 msg)"
    unfolding S S' E using assms R by (intro absorb_cancel) simp_all
  finally show ?thesis by (simp only: eq_commute)
qed

lemma map2_xor_cancel: "length xs = length ys \<Longrightarrow> map2 (XOR) (map2 (XOR) xs ys) ys = (xs :: u8 list)"
  by (rule nth_equalityI) (simp_all add: xor.assoc)

lemma length_take_cycle [simp]: "length (take_cycle n xs) = n"
  by (simp add: take_cycle_def)

lemma length_chacha20_poly1305_encrypt [simp]: "length (chacha20_poly1305_encrypt k n p) = length p"
  by (simp add: chacha20_poly1305_encrypt_def Let_def)

section \<open>Properties\<close>

text \<open>
  Lengths of the values the module builds: a digest has 32 bytes, a signature 64, an address 20,
  a VRF proof 96, a derived key at most 32, a ciphertext as many as its plaintext, a public key
  32, and a private key 32 more than its seed, which is the announced length for 32-byte seeds
  only.
\<close>
lemma crypto_sizes:
  "length (unHash (hs_hash x)) = hashLength
   \<and> (\<exists>sig. hs_sign (HsPrivateKey k) x = Some (HsSignature sig) \<and> length sig = signatureLength)
   \<and> length (unAddress (deriveAddress (HsPublicKey k))) = addressLength
   \<and> length (vrfProve (HsPrivateKey k) x) = hashLength + signatureLength
   \<and> length (deriveKey k x n) = min (nat n) hashLength
   \<and> length (encryptWithSharedSecret k nonce x) = length x
   \<and> length (unPublicKey (snd (generateKeyPairFromSeed seed))) = publicKeyLength
   \<and> length (unPrivateKey (fst (generateKeyPairFromSeed seed))) = length seed + publicKeyLength
   \<and> (length (unPrivateKey (fst (generateKeyPairFromSeed seed))) = privateKeyLength \<longleftrightarrow> length seed = 32)"
  by (simp add: hs_hash_def hashLength_def signatureLength_def addressLength_def hs_blake2b_160_def
      Let_def deriveKey_def hkdf_derive_def encryptWithSharedSecret_def generateKeyPairFromSeed_def
      ed25519_keypair_def publicKeyLength_def privateKeyLength_def split_beta min.commute)

text \<open>
  The digest reads only the first 32 bytes of each 136-byte block: two inputs of the same
  length that agree there have the same hash, whatever their other bytes are, so a second
  preimage is written down at once.
\<close>
lemma sha3_ignores_block_tail:
  assumes "length x = length y" and "\<forall>i<length x. i mod 136 < 32 \<longrightarrow> x ! i = y ! i"
  shows "hs_hash x = hs_hash y"
  using hs_sha3_256_cong [OF assms] by (simp add: hs_hash_def)

lemma sha3_ignores_block_tail_witness:
  "hs_hash (replicate 32 7 @ [7]) = hs_hash (replicate 32 7 @ [8])"
  by (rule sha3_ignores_block_tail) (auto simp: nth_append)

text \<open>
  The public key of a 32-byte seed is the seed: whoever sees a public key holds the
  private key, and every key pair of \<open>generateKeyPair\<close> is the all-zero one.
\<close>
lemma keypair_reveals_seed:
  assumes "length seed = 32"
  shows "generateKeyPairFromSeed seed = (HsPrivateKey (seed @ seed), HsPublicKey seed)
    \<and> derivePublicKey (HsPrivateKey (seed @ seed)) = HsPublicKey seed
    \<and> generateKeyPair = (HsPrivateKey (replicate 64 0), HsPublicKey (replicate 32 0))"
proof -
  have "ed25519_keypair (replicate 32 0) = (replicate 64 0, replicate 32 0)"
    by (simp add: ed25519_keypair_eq flip: replicate_add)
  with assms show ?thesis
    by (simp add: generateKeyPairFromSeed_def ed25519_keypair_eq ed25519_derivePublic_def Let_def
        take_sha3_512 hs_sha3_256_short generateKeyPair_def generateRandomBytes_def)
qed

lemma keypair_reveals_seed_witness:
  "snd (generateKeyPairFromSeed (replicate 32 7)) = HsPublicKey (replicate 32 7)"
  using keypair_reveals_seed [of "replicate 32 7"] by simp

text \<open>What an outsider computes from the public key and the message.\<close>

definition forge :: "u8 list \<Rightarrow> u8 list \<Rightarrow> u8 list" where
  "forge pubKey msg = replicate 32 0 @ take 32 (sha3_512 (replicate 32 0 @ pubKey @ msg))"

lemma forge_verifies: "ed25519_verify pubKey (forge pubKey msg) msg"
  by (simp add: ed25519_verify_def forge_def Let_def)

text \<open>
  C32: Verification uses public data only, so for every public key and every message a
  signature that is accepted can be computed without the private key; for a VRF the forger
  picks the 32-byte output as well.
\<close>
theorem anyone_can_sign:
  "hs_verify (HsPublicKey pubKey) (HsSignature (forge pubKey msg)) msg
   \<and> (length out = 32 \<longrightarrow> vrfVerify (HsPublicKey pubKey) input (out @ forge pubKey out) = Some out)"
  by (simp add: forge_verifies Let_def)

theorem anyone_can_sign_witness:
  "vrfVerify (HsPublicKey []) [] (replicate 32 1 @ forge [] (replicate 32 1)) = Some (replicate 32 1)"
  using anyone_can_sign [of "[]" "[]" "replicate 32 1" "[]"] by simp

text \<open>
  C31: An honest signature starts with the secret seed, and it is accepted exactly when the
  message has at most seven bytes (for messages up to 39 bytes): the signer hashes the 64-byte
  private key where the verifier hashes the 32-byte public key. An honest VRF proof, which
  signs a 32-byte hash, is always refused.
\<close>
theorem honest_signature_verifies_iff:
  assumes "length seed = 32" and "length msg \<le> 39"
  shows "\<exists>sig. hs_sign (fst (generateKeyPairFromSeed seed)) msg = Some (HsSignature sig)
      \<and> take 32 sig = seed
      \<and> (hs_verify (snd (generateKeyPairFromSeed seed)) (HsSignature sig) msg \<longleftrightarrow> length msg \<le> 7)
      \<and> vrfVerify (snd (generateKeyPairFromSeed seed)) input
           (vrfProve (fst (generateKeyPairFromSeed seed)) input) = None"
proof -
  let ?h = "hs_sha3_256 ((seed @ seed) @ input)"
  have kp: "generateKeyPairFromSeed seed = (HsPrivateKey (seed @ seed), HsPublicKey seed)"
    using assms(1) by (simp add: generateKeyPairFromSeed_def ed25519_keypair_eq)
  have "\<not> ed25519_verify seed (ed25519_sign (seed @ seed) ?h) ?h"
    by (subst ed25519_honest_iff) (simp_all add: assms(1))
  then have vrf: "vrfVerify (HsPublicKey seed) input (vrfProve (HsPrivateKey (seed @ seed)) input) = None"
    by (simp add: Let_def)
  have "take 32 (ed25519_sign (seed @ seed) msg) = seed"
    using assms by (simp add: ed25519_sign_eq Let_def hs_sha3_256_short)
  then show ?thesis using ed25519_honest_iff [OF assms] vrf by (simp add: kp Let_def)
qed

theorem honest_signature_verifies_iff_witness:
  "\<exists>sig. hs_sign (fst (generateKeyPairFromSeed (replicate 32 7))) (replicate 8 1) = Some (HsSignature sig)
      \<and> \<not> hs_verify (snd (generateKeyPairFromSeed (replicate 32 7))) (HsSignature sig) (replicate 8 1)"
  using honest_signature_verifies_iff [of "replicate 32 7" "replicate 8 1" "[]"]
  by auto

text \<open>
  The key exchange does not agree: each side computes its own seed as the shared secret,
  so two parties hold the same secret only when they started from the same seed.
\<close>
lemma shared_secret_agrees_iff:
  assumes "length a = 32" and "length b = 32"
  shows "generateSharedSecret (fst (generateKeyPairFromSeed a)) (snd (generateKeyPairFromSeed b)) = a
    \<and> (generateSharedSecret (fst (generateKeyPairFromSeed a)) (snd (generateKeyPairFromSeed b))
       = generateSharedSecret (fst (generateKeyPairFromSeed b)) (snd (generateKeyPairFromSeed a))
       \<longleftrightarrow> a = b)"
  using assms
  by (simp add: generateKeyPairFromSeed_def ed25519_keypair_eq x25519_sharedSecret_def hs_sha3_256_short)

lemma shared_secret_agrees_iff_witness:
  "generateSharedSecret (fst (generateKeyPairFromSeed (replicate 32 1))) (snd (generateKeyPairFromSeed (replicate 32 2)))
   \<noteq> generateSharedSecret (fst (generateKeyPairFromSeed (replicate 32 2))) (snd (generateKeyPairFromSeed (replicate 32 1)))"
proof -
  have "(replicate 32 1 :: u8 list) \<noteq> replicate 32 2" by simp
  then show ?thesis
    using shared_secret_agrees_iff [of "replicate 32 1" "replicate 32 2"] by (metis length_replicate)
qed

text \<open>
  Decryption undoes encryption under the same key and nonce, for every key, nonce and
  plaintext; and it never refuses: every byte string is the ciphertext of some plaintext, so
  a modified ciphertext goes unnoticed.
\<close>
lemma encryption_roundtrip:
  "decryptWithSharedSecret k n (encryptWithSharedSecret k n p) = Some p
   \<and> (\<exists>q. decryptWithSharedSecret k n c = Some q \<and> encryptWithSharedSecret k n q = c)"
  by (simp add: decryptWithSharedSecret_def encryptWithSharedSecret_def chacha20_poly1305_decrypt_def
      chacha20_poly1305_encrypt_def Let_def map2_xor_cancel)

end
