(* ===== verification/Hs_Merkle.thy ===== *)
theory Hs_Merkle
  imports Hs_Crypto
begin

text \<open>
  The module \<open>CryptoCoin.Protocol.Merkle\<close>. Its only import from the package is
  \<open>hash\<close> of \<open>Crypto\<close>, here \<^term>\<open>hs_hash\<close>. An argument of type
  \<open>Int\<close> is a signed word where the code shifts it and an integer where it only compares
  it. \<open>merkleTreeDepth\<close> is passed along by \<open>generateProof\<close> and never forced.
\<close>

section \<open>Trees\<close>

datatype HsMerkleTree = MerkleLeaf HsHash | MerkleNode HsHash HsMerkleTree HsMerkleTree

fun rootHash :: "HsMerkleTree \<Rightarrow> HsHash" where
  "rootHash (MerkleLeaf h) = h"
| "rootHash (MerkleNode h _ _) = h"

fun combineHashes :: "HsHash \<Rightarrow> HsHash \<Rightarrow> HsHash" where
  "combineHashes (HsHash left) (HsHash right) = hs_hash (left @ right)"

definition hashLeaf :: "HsHash \<Rightarrow> HsHash" where
  "hashLeaf h = combineHashes h h"

definition emptyTreeHash :: HsHash where
  "emptyTreeHash = HsHash (replicate 32 0)"

text \<open>A list of no hashes is halved into lists of no hashes for ever.\<close>

partial_function (option) buildTree :: "HsHash list \<Rightarrow> HsMerkleTree exec" where
  "buildTree hashes =
     (case hashes of
        [h] \<Rightarrow> Some (MerkleLeaf h)
      | _ \<Rightarrow> let half = length hashes div 2 in do {
          left \<leftarrow> buildTree (take half hashes);
          right \<leftarrow> buildTree (drop half hashes);
          Some (MerkleNode (combineHashes (rootHash left) (rootHash right)) left right) })"

section \<open>Padding\<close>

text \<open>The local \<open>go\<close> of \<open>countLeadingZeros\<close>; the comparison is signed.\<close>

fun clz_go :: "nat \<Rightarrow> hs_Int \<Rightarrow> nat" where
  "clz_go 0 _ = 0"
| "clz_go (Suc bits) val =
     (if push_bit bits 1 \<le>s val then 0 else 1 + clz_go bits (push_bit 1 val))"

definition countLeadingZeros :: "hs_Int \<Rightarrow> nat" where
  "countLeadingZeros x = clz_go 64 x"

definition nextPowerOfTwo :: "hs_Int \<Rightarrow> hs_Int" where
  "nextPowerOfTwo n = (if n \<le>s 1 then 1 else push_bit (64 - countLeadingZeros (n - 1)) 1)"

definition padToPowerOfTwo :: "HsHash list \<Rightarrow> HsHash list" where
  "padToPowerOfTwo hashes =
     (if hashes = [] then [emptyTreeHash]
      else let len = hs_length hashes; nextPow2 = nextPowerOfTwo len
           in if len = nextPow2 then hashes
              else hashes @ hs_replicate (nextPow2 - len) emptyTreeHash)"

section \<open>Roots\<close>

fun computeRoot :: "HsHash list \<Rightarrow> HsHash exec" where
  "computeRoot [] = Some emptyTreeHash"
| "computeRoot [h] = Some (hashLeaf h)"
| "computeRoot hashes =
     (let padded = padToPowerOfTwo hashes in do { t \<leftarrow> buildTree padded; Some (rootHash t) })"

definition computeRootFromLeaves :: "HsHash list \<Rightarrow> HsHash exec" where
  "computeRootFromLeaves = computeRoot"

fun combineRoots :: "MerkleRoot \<Rightarrow> MerkleRoot \<Rightarrow> MerkleRoot" where
  "combineRoots (MerkleRoot h1) (MerkleRoot h2) = MerkleRoot (combineHashes h1 h2)"

section \<open>Proofs\<close>

function proof_go :: "int \<Rightarrow> HsHash list \<Rightarrow> HsHash list option" where
  "proof_go i hs =
     (case hs of
        [h] \<Rightarrow> Some [h]
      | _ \<Rightarrow>
        if i < 0 \<or> int (length hs) \<le> i then None
        else let half = int (length hs) div 2;
                 leftHashes = take (nat half) hs;
                 rightHashes = drop (nat half) hs;
                 siblingIdx = (if i < half then half + i mod half else i mod half);
                 sibling = hs ! nat siblingIdx
             in if i < half
                then do { rest \<leftarrow> proof_go i leftHashes; Some (sibling # rest) }
                else do { rest \<leftarrow> proof_go (i - half) rightHashes; Some (sibling # rest) })"
  by pat_completeness auto
termination
  by (relation "measure (\<lambda>(i, hs). length hs)") (auto simp: nat_div_distrib)

declare proof_go.simps [simp del]

fun generateProof_merkle :: "int \<Rightarrow> HsHash list \<Rightarrow> HsHash list option" where
  "generateProof_merkle _ [] = None"
| "generateProof_merkle _ [h] = Some [h]"
| "generateProof_merkle idx hashes = (let padded = padToPowerOfTwo hashes in proof_go idx padded)"

definition combineSingles :: "HsHash \<Rightarrow> HsHash \<Rightarrow> HsHash" where
  "combineSingles h1 h2 = (let leftH = min h1 h2; rightH = max h1 h2 in combineHashes leftH rightH)"

definition verifyProof_merkle :: "HsHash \<Rightarrow> HsHash list \<Rightarrow> HsHash \<Rightarrow> bool" where
  "verifyProof_merkle leafHash pf expectedRoot \<longleftrightarrow>
     (let computedRoot = foldl combineSingles leafHash pf in computedRoot = expectedRoot)"

section \<open>Padding never pads\<close>

lemma countLeadingZeros_eq: "countLeadingZeros x = 0"
proof -
  have "push_bit 63 1 \<le>s x"
    using sint_ge [of x] by (simp add: word_sle_eq)
  then show ?thesis by (simp add: countLeadingZeros_def numeral_eq_Suc)
qed

lemma nextPowerOfTwo_eq: "nextPowerOfTwo n = (if n \<le>s 1 then 1 else 0)"
  by (simp add: nextPowerOfTwo_def countLeadingZeros_eq)

lemma sint_word_of_int: "- (2 ^ 63) \<le> k \<Longrightarrow> k < 2 ^ 63 \<Longrightarrow> sint (word_of_int k :: hs_Int) = k"
  by (simp add: signed_take_bit_int_eq_self_iff signed_of_int)

text \<open>A list in memory has fewer than \<open>2 ^ 63\<close> elements.\<close>

abbreviation hs_list :: "'a list \<Rightarrow> bool" where
  "hs_list xs \<equiv> length xs < 2 ^ 63"

lemma padToPowerOfTwo_id:
  assumes "hs \<noteq> []" and "hs_list hs"
  shows "padToPowerOfTwo hs = hs"
proof -
  have len: "sint (hs_length hs) = int (length hs)"
    using assms(2) sint_word_of_int [of "int (length hs)"] by (simp add: hs_length_def)
  have neg: "sint (0 - hs_length hs) = - int (length hs)"
    using assms(2) sint_word_of_int [of "- int (length hs)"] by (simp add: hs_length_def)
  show ?thesis
  proof (cases "length hs = 1")
    case True
    then show ?thesis using assms(1) by (simp add: padToPowerOfTwo_def nextPowerOfTwo_eq hs_length_def)
  next
    case False
    with assms(1) have "2 \<le> length hs" by (cases hs) (auto simp: Suc_le_eq)
    then have "\<not> hs_length hs \<le>s 1" using len by (simp add: word_sle_eq)
    then show ?thesis using neg assms(1) by (simp add: padToPowerOfTwo_def nextPowerOfTwo_eq Let_def hs_replicate_def)
  qed
qed

section \<open>Building the tree\<close>

lemma buildTree_leaf [simp]: "buildTree [h] = Some (MerkleLeaf h)"
  by (subst buildTree.simps) simp

lemma buildTree_split:
  "length hs \<noteq> 1 \<Longrightarrow> buildTree hs = do {
     left \<leftarrow> buildTree (take (length hs div 2) hs);
     right \<leftarrow> buildTree (drop (length hs div 2) hs);
     Some (MerkleNode (combineHashes (rootHash left) (rootHash right)) left right) }"
  by (subst buildTree.simps) (auto simp: Let_def split: list.splits)

text \<open>
  Induction over the halves of a list of two or more elements, which every lemma about a
  tree built from it uses.
\<close>

lemma halves_induct [consumes 1, case_names single halves]:
  assumes "xs \<noteq> []" and "\<And>x. P [x]"
    and "\<And>xs. 2 \<le> length xs \<Longrightarrow> take (length xs div 2) xs \<noteq> [] \<Longrightarrow> drop (length xs div 2) xs \<noteq> [] \<Longrightarrow>
      P (take (length xs div 2) xs) \<Longrightarrow> P (drop (length xs div 2) xs) \<Longrightarrow> P xs"
  shows "P xs"
  using assms(1)
proof (induction xs rule: length_induct)
  case (1 xs)
  show ?case
  proof (cases "length xs = 1")
    case True
    then show ?thesis using assms(2) by (auto simp: length_Suc_conv)
  next
    case False
    let ?l = "take (length xs div 2) xs" and ?r = "drop (length xs div 2) xs"
    from False 1(2) have two: "2 \<le> length xs" by (cases xs) (auto simp: Suc_le_eq)
    then have ne: "?l \<noteq> []" "?r \<noteq> []" and "length ?l < length xs" "length ?r < length xs" by auto
    with 1(1) have "P ?l" "P ?r" by blast+
    with two ne show ?thesis by (rule assms(3))
  qed
qed

lemma buildTree_Some: "hs \<noteq> [] \<Longrightarrow> \<exists>t. buildTree hs = Some t"
proof (induction hs rule: halves_induct)
  case (halves xs)
  then obtain l r where "buildTree (take (length xs div 2) xs) = Some l"
    "buildTree (drop (length xs div 2) xs) = Some r" by blast
  with halves.hyps(1) show ?case by (simp add: buildTree_split [of xs])
qed simp

lemma computeRoot_many:
  assumes "2 \<le> length hs" and "hs_list hs"
  shows "computeRoot hs = map_option rootHash (buildTree hs)"
proof -
  from assms have "padToPowerOfTwo hs = hs" by (intro padToPowerOfTwo_id) auto
  with assms(1) show ?thesis
    by (cases hs rule: remdups_adj.cases) (auto simp: Let_def map_option_case split: option.splits)
qed

lemma computeRoot_Some: "hs_list hs \<Longrightarrow> \<exists>r. computeRoot hs = Some r"
proof (cases hs rule: remdups_adj.cases)
  case (3 x y xs)
  assume "hs_list hs"
  moreover have "2 \<le> length hs" and "hs \<noteq> []" using 3 by simp_all
  ultimately show ?thesis using buildTree_Some [of hs] by (auto simp: computeRoot_many)
qed simp_all

section \<open>Combining keeps the left hash\<close>

definition wf_HsHash :: "HsHash \<Rightarrow> bool" where
  "wf_HsHash h \<longleftrightarrow> length (unHash h) = 32"

lemma combineHashes_left: "wf_HsHash a \<Longrightarrow> wf_HsHash b \<Longrightarrow> combineHashes a b = a"
  by (cases a; cases b) (simp add: wf_HsHash_def hs_hash_def hs_sha3_256_short)

lemma rootHash_first:
  assumes "hs \<noteq> []" and "list_all wf_HsHash hs"
  shows "\<exists>t. buildTree hs = Some t \<and> rootHash t = hd hs"
  using assms
proof (induction hs rule: halves_induct)
  case (halves xs)
  let ?l = "take (length xs div 2) xs" and ?r = "drop (length xs div 2) xs"
  from halves.prems have all: "list_all wf_HsHash ?l" "list_all wf_HsHash ?r"
    by (auto simp: list_all_iff dest: in_set_takeD in_set_dropD)
  moreover have "wf_HsHash (hd ?l)" "wf_HsHash (hd ?r)"
    using all halves.hyps hd_in_set [of ?l] hd_in_set [of ?r] by (simp_all add: list_all_iff)
  moreover have "hd ?l = hd xs" using halves.hyps by (simp add: hd_take)
  moreover obtain l r where "buildTree ?l = Some l" "rootHash l = hd ?l"
    "buildTree ?r = Some r" "rootHash r = hd ?r"
    using halves.IH all by blast
  ultimately show ?case using halves.hyps(1) by (simp add: buildTree_split [of xs] combineHashes_left)
qed simp

lemma combineSingles_min: "wf_HsHash a \<Longrightarrow> wf_HsHash b \<Longrightarrow> combineSingles a b = min a b"
  by (simp add: combineSingles_def min_def max_def combineHashes_left)

lemma foldl_combineSingles:
  "wf_HsHash a \<Longrightarrow> list_all wf_HsHash pf \<Longrightarrow> foldl combineSingles a pf = foldl min a pf"
proof (induction pf arbitrary: a)
  case (Cons b pf)
  then have "wf_HsHash (min a b)" by (simp add: min_def)
  with Cons show ?case by (simp add: combineSingles_min)
qed simp

lemma foldl_min_Min: "a \<in> set pf \<Longrightarrow> foldl min a pf = Min (set (pf :: 'a::linorder list))"
proof -
  assume a: "a \<in> set pf"
  from a have "Min (set pf) = Min (set (a # pf))" by (simp add: insert_absorb)
  also have "\<dots> = fold min pf a" by (rule Min.set_eq_fold)
  also have "\<dots> = foldl min a pf" by (induction pf arbitrary: a) (simp_all add: min.commute)
  finally show ?thesis by simp
qed

section \<open>Generated proofs\<close>

lemma proof_go_single [simp]: "proof_go i [h] = Some [h]"
  by (subst proof_go.simps) simp

lemma case_many: "2 \<le> length hs \<Longrightarrow> (case hs of [h] \<Rightarrow> f h | _ \<Rightarrow> g) = g"
  by (auto split: list.splits)

lemma proof_go_outside: "2 \<le> length hs \<Longrightarrow> i < 0 \<or> int (length hs) \<le> i \<Longrightarrow> proof_go i hs = None"
  by (subst proof_go.simps) (auto split: list.splits)

lemma proof_go_inside:
  assumes "2 \<le> length hs" and "j < length hs"
  shows "proof_go (int j) hs =
    (let half = length hs div 2 in
     if j < half then map_option ((#) (hs ! (half + j mod half))) (proof_go (int j) (take half hs))
     else map_option ((#) (hs ! (j mod half))) (proof_go (int (j - half)) (drop half hs)))"
proof -
  define half where "half = length hs div 2"
  have half: "int (length hs) div 2 = int half" by (simp add: half_def zdiv_int)
  have "nat (int half + int j mod int half) = half + j mod half" "nat (int j mod int half) = j mod half"
    by (simp_all flip: of_nat_mod of_nat_add)
  moreover have "proof_go (int j) hs =
    (if j < half then do { rest \<leftarrow> proof_go (int j) (take half hs);
        Some (hs ! nat (int half + int j mod int half) # rest) }
     else do { rest \<leftarrow> proof_go (int j - int half) (drop half hs);
        Some (hs ! nat (int j mod int half) # rest) })"
    using assms by (subst proof_go.simps) (simp add: case_many Let_def half del: of_nat_add)
  ultimately show ?thesis
    by (auto simp: half_def [symmetric] Let_def of_nat_diff map_option_case split: option.splits)
qed

lemma proof_go_Some:
  assumes "hs \<noteq> []" and "j < length hs"
  shows "\<exists>pf. proof_go (int j) hs = Some pf \<and> pf \<noteq> [] \<and> last pf = hs ! j \<and> set pf \<subseteq> set hs"
  using assms
proof (induction hs arbitrary: j rule: halves_induct)
  case (halves xs)
  let ?half = "length xs div 2"
  note unfold = proof_go_inside [OF halves.hyps(1) halves.prems]
  have mod: "j mod ?half < ?half" using halves.hyps(1) by simp
  show ?case
  proof (cases "j < ?half")
    case True
    then obtain pf where "proof_go (int j) (take ?half xs) = Some pf" "pf \<noteq> []"
      "last pf = take ?half xs ! j" "set pf \<subseteq> set (take ?half xs)"
      using halves.IH(1) [of j] by auto
    moreover have "?half + j mod ?half < length xs" using mod by linarith
    ultimately show ?thesis using True by (auto simp: unfold Let_def dest: in_set_takeD)
  next
    case False
    then have "j - ?half < length (drop ?half xs)" using halves.prems by simp
    then obtain pf where "proof_go (int (j - ?half)) (drop ?half xs) = Some pf" "pf \<noteq> []"
      "last pf = drop ?half xs ! (j - ?half)" "set pf \<subseteq> set (drop ?half xs)"
      using halves.IH(2) by blast
    moreover have "j mod ?half < length xs" using mod by linarith
    ultimately show ?thesis using False halves.prems by (auto simp: unfold Let_def dest: in_set_dropD)
  qed
qed simp

lemma generateProof_merkle_many:
  assumes "2 \<le> length hs" and "hs_list hs"
  shows "generateProof_merkle i hs = proof_go i hs"
proof -
  from assms have "padToPowerOfTwo hs = hs" by (intro padToPowerOfTwo_id) auto
  with assms(1) show ?thesis by (cases hs rule: remdups_adj.cases) auto
qed

section \<open>The root\<close>

lemma computeRoot_first:
  assumes "hs \<noteq> []" and "list_all wf_HsHash hs" and "hs_list hs"
  shows "computeRoot hs = Some (hd hs)"
proof (cases hs rule: remdups_adj.cases)
  case (2 h)
  with assms(2) show ?thesis by (simp add: hashLeaf_def combineHashes_left)
next
  case (3 x y xs)
  then have "2 \<le> length hs" by simp
  with assms rootHash_first [OF assms(1,2)] show ?thesis by (auto simp: computeRoot_many)
qed (use assms in simp)

lemma wf_computeRoot:
  assumes "list_all wf_HsHash hs" and "hs_list hs" and "computeRoot hs = Some r"
  shows "wf_HsHash r"
  using assms computeRoot_first [of hs]
  by (cases "hs = []") (auto simp: wf_HsHash_def emptyTreeHash_def list_all_iff dest: hd_in_set)

section \<open>Properties\<close>

text \<open>
  The Merkle root of a non-empty list of 32-byte hashes is
  its first element: no other leaf has any influence on the root.
\<close>
lemma root_is_first_leaf:
  assumes "hs \<noteq> []" and "list_all wf_HsHash hs" and "hs_list hs"
  shows "computeRoot hs = Some (hd hs)"
  using assms by (rule computeRoot_first)

lemma root_is_first_leaf_witness:
  "computeRoot [HsHash (replicate 32 1), HsHash (replicate 32 2)]
   = computeRoot [HsHash (replicate 32 1), HsHash (replicate 32 3)]"
  using root_is_first_leaf [of "[HsHash (replicate 32 1), HsHash (replicate 32 2)]"]
    root_is_first_leaf [of "[HsHash (replicate 32 1), HsHash (replicate 32 3)]"]
  by (simp only: list.sel) (simp add: wf_HsHash_def)

text \<open>
  For an index in range \<open>generateProof\<close> returns a proof that ends with the leaf
  itself, and for any other index of a list of two or more it returns nothing. The
  package's verifier accepts the proof exactly when the first leaf is the least element of
  the proof, so an honest proof for a leaf other than the least ones fails.
\<close>
lemma generated_proof_accepted_iff:
  assumes "2 \<le> length hs" and "hs_list hs" and "list_all wf_HsHash hs"
  shows "(j < length hs \<longrightarrow>
      (\<exists>pf rt. generateProof_merkle (int j) hs = Some pf \<and> last pf = hs ! j
        \<and> computeRoot hs = Some rt
        \<and> (verifyProof_merkle (hs ! j) pf rt \<longleftrightarrow> hd hs = Min (set pf))))
    \<and> (i < 0 \<or> int (length hs) \<le> i \<longrightarrow> generateProof_merkle i hs = None)"
proof (intro conjI impI)
  assume "i < 0 \<or> int (length hs) \<le> i"
  with assms show "generateProof_merkle i hs = None"
    by (simp add: generateProof_merkle_many proof_go_outside)
next
  assume "j < length hs"
  moreover have ne: "hs \<noteq> []" using assms by auto
  ultimately obtain pf where pf: "proof_go (int j) hs = Some pf" "pf \<noteq> []" "last pf = hs ! j" "set pf \<subseteq> set hs"
    using proof_go_Some by blast
  have wf: "wf_HsHash (hs ! j)" "list_all wf_HsHash pf"
    using assms(3) pf(4) \<open>j < length hs\<close> by (auto simp: list_all_iff)
  have "hs ! j \<in> set pf" using pf by (metis last_in_set)
  then have "verifyProof_merkle (hs ! j) pf (hd hs) \<longleftrightarrow> hd hs = Min (set pf)"
    using wf by (auto simp: verifyProof_merkle_def foldl_combineSingles foldl_min_Min)
  moreover have "computeRoot hs = Some (hd hs)"
    using rootHash_first [OF ne assms(3)] assms by (auto simp: computeRoot_many)
  ultimately show "\<exists>pf rt. generateProof_merkle (int j) hs = Some pf \<and> last pf = hs ! j
        \<and> computeRoot hs = Some rt
        \<and> (verifyProof_merkle (hs ! j) pf rt \<longleftrightarrow> hd hs = Min (set pf))"
    using pf assms by (simp add: generateProof_merkle_many)
qed

lemma generated_proof_accepted_iff_witness:
  "\<exists>pf rt. generateProof_merkle 0 [HsHash (2 # replicate 31 0), HsHash (1 # replicate 31 0)] = Some pf
     \<and> computeRoot [HsHash (2 # replicate 31 0), HsHash (1 # replicate 31 0)] = Some rt
     \<and> \<not> verifyProof_merkle (HsHash (2 # replicate 31 0)) pf rt"
proof -
  let ?a = "HsHash (1 # replicate 31 0)" and ?b = "HsHash (2 # replicate 31 0)"
  have "generateProof_merkle (int 0) [?b, ?a] = Some [?a, ?b]"
    using proof_go_inside [of "[?b, ?a]" 0] by (simp add: padToPowerOfTwo_id Let_def)
  moreover have "?b \<noteq> Min (set [?a, ?b])" by (simp add: min_def less_eq_HsHash_def)
  ultimately show ?thesis
    using generated_proof_accepted_iff [of "[?b, ?a]" 0 0] by (auto simp: wf_HsHash_def)
qed

end
