(* ===== verification/Hs_Transaction.thy ===== *)
theory Hs_Transaction
  imports Hs_Merkle
begin

text \<open>
  The transactions of \<open>CryptoCoin.Protocol.Block\<close>: how they are serialized and
  validated against a set of unspent outputs. The lemmas compare the wrapping sums of the code
  with the true totals; the properties say what an accepted transaction does not guarantee.
\<close>

section \<open>Primitive serializers\<close>

fun serializeHash :: "HsHash \<Rightarrow> u8 list" where
  "serializeHash (HsHash b) = b"

fun word64_go :: "nat \<Rightarrow> u64 \<Rightarrow> u8 list" where
  "word64_go 0 _ = []"
| "word64_go (Suc n) w = ucast (w div 2 ^ (8 * n)) # word64_go n w"

definition serializeWord64_block :: "u64 \<Rightarrow> u8 list" where
  "serializeWord64_block w = word64_go 8 w"

definition serializeWord32_block :: "u32 \<Rightarrow> u8 list" where
  "serializeWord32_block w =
     [ucast (drop_bit 24 w), ucast (drop_bit 16 w), ucast (drop_bit 8 w), ucast w]"

definition serializeWord8 :: "u8 \<Rightarrow> u8 list" where
  "serializeWord8 w = [w]"

fun serializeAddress :: "HsAddress \<Rightarrow> u8 list" where
  "serializeAddress (HsAddress b) = b"

fun serializeAmount :: "Amount \<Rightarrow> u8 list" where
  "serializeAmount (Amount w) = serializeWord64_block w"

fun serializeTxId :: "TxId \<Rightarrow> u8 list" where
  "serializeTxId (TxId (HsHash b)) = b"

fun serializeUTxOId :: "UTxOId \<Rightarrow> u8 list" where
  "serializeUTxOId (UTxOId (i, idx)) = serializeTxId i @ serializeWord64_block idx"

definition serializeInput :: "TxInput \<Rightarrow> u8 list" where
  "serializeInput inp = serializeUTxOId (tiUtxoId inp)"

definition serializeInputs :: "TxInput list \<Rightarrow> u8 list" where
  "serializeInputs is = concat (map serializeInput is)"

definition serializeOutput :: "TxOutput \<Rightarrow> u8 list" where
  "serializeOutput out = serializeAddress (toAddress out) @ serializeAmount (toAmount out)"

definition serializeOutputs :: "TxOutput list \<Rightarrow> u8 list" where
  "serializeOutputs os = concat (map serializeOutput os)"

definition serializeForSigning_tx :: "HsTransaction \<Rightarrow> u8 list" where
  "serializeForSigning_tx tx = concat
     [serializeTxId (txId tx),
      serializeInputs (txInputs tx),
      serializeOutputs (txOutputs tx),
      serializeWord64_block (txNonce tx),
      serializeAmount (txFee tx)]"

definition txHash :: "HsTransaction \<Rightarrow> HsHash" where
  "txHash tx = hs_hash (serializeForSigning_tx tx)"

definition serializeTransaction :: "HsTransaction \<Rightarrow> u8 list" where
  "serializeTransaction tx = serializeForSigning_tx tx"

definition serializeTransactions :: "HsTransaction list \<Rightarrow> u8 list" where
  "serializeTransactions txs = concat (map serializeTransaction txs)"

section \<open>Validation\<close>

text \<open>\<open>mapM_\<close> in \<open>Either\<close> stops at the first error.\<close>

fun mapM_either :: "('a \<Rightarrow> ('e, 'b) result) \<Rightarrow> 'a list \<Rightarrow> ('e, unit) result" where
  "mapM_either f [] = Ok ()"
| "mapM_either f (x # xs) = (case f x of Inl e \<Rightarrow> Err e | Inr _ \<Rightarrow> mapM_either f xs)"

definition validateInput :: "(UTxOId, UTxO) hashmap \<Rightarrow> TxInput \<Rightarrow> (ValidationError, unit) result" where
  "validateInput utxoMap inp =
     (case hm_get utxoMap (tiUtxoId inp) of
        None \<Rightarrow> Err (VEDoubleSpend (tiUtxoId inp))
      | Some _ \<Rightarrow> Ok ())"

definition sumInputs :: "HsTransaction \<Rightarrow> (UTxOId, UTxO) hashmap \<Rightarrow> Amount" where
  "sumInputs tx m = Amount (foldl (\<lambda>acc inp. case hm_get m (tiUtxoId inp) of
       Some utxo \<Rightarrow> acc + unAmount (uAmount utxo)
     | None \<Rightarrow> acc) 0 (txInputs tx))"

definition sumOutputs :: "HsTransaction \<Rightarrow> Amount" where
  "sumOutputs tx = Amount (foldl (\<lambda>acc out. acc + unAmount (toAmount out)) 0 (txOutputs tx))"

fun validateTransaction :: "UTxOSet \<Rightarrow> HsTransaction \<Rightarrow> (ValidationError, HsTransaction) result" where
  "validateTransaction (UTxOSet utxoMap) tx =
     (let txData = serializeForSigning_tx tx in
      if \<not> hs_verify (txPublicKey tx) (txSignature tx) txData then Err VEInvalidSignature
      else case mapM_either (validateInput utxoMap) (txInputs tx) of
        Inl e \<Rightarrow> Err e
      | Inr _ \<Rightarrow>
          let inputIds = map tiUtxoId (txInputs tx) in
          if length inputIds \<noteq> card (set inputIds) then Err (VEDoubleSpend (hd inputIds))
          else let totalInput = sumInputs tx utxoMap; totalOutput = sumOutputs tx in
            if totalOutput > totalInput then Err (VEInsufficientFunds totalInput totalOutput)
            else Ok tx)"

section \<open>Serialized values\<close>

lemma length_word64_go [simp]: "length (word64_go n w) = n"
  by (induction n) simp_all

lemma length_serializeWord64_block [simp, bytes_simps]: "length (serializeWord64_block w) = 8"
  by (simp add: serializeWord64_block_def)

lemma length_serializeWord32_block [simp, bytes_simps]: "length (serializeWord32_block w) = 4"
  by (simp add: serializeWord32_block_def)

lemma serializeHash_eq [simp]: "serializeHash h = unHash h"
  by (cases h) simp

text \<open>The division of the local \<open>shiftR\<close> is the shift of \<open>Crypto.serializeWord64\<close>.\<close>

lemma serializeWord64_block_eq: "serializeWord64_block w = serializeWord64 w"
  by (simp add: serializeWord64_block_def serializeWord64_def numeral_eq_Suc drop_bit_eq_div)

section \<open>Totals\<close>

lemma mapM_either_Ok: "mapM_either f xs = Inr u \<longleftrightarrow> (\<forall>x\<in>set xs. \<exists>y. f x = Inr y)"
  by (induction xs) (auto split: sum.splits)

lemma length_card_distinct: "length xs = card (set xs) \<longleftrightarrow> distinct xs"
  using card_distinct [of xs] distinct_card [of xs] by fastforce

lemma foldl_plus: "foldl (\<lambda>acc x. acc + f x) (a :: 'a::comm_monoid_add) xs = a + sum_list (map f xs)"
  by (induction xs arbitrary: a) (simp_all add: add.assoc)

lemma unat_sum_list: "unat (sum_list (ws :: u64 list)) = sum_list (map unat ws) mod 2 ^ 64"
proof (induction ws)
  case (Cons w ws)
  then show ?case by (simp add: unat_word_ariths mod_add_right_eq)
qed simp

text \<open>The true totals, without wrap-around.\<close>

definition outputs_total :: "HsTransaction \<Rightarrow> nat" where
  "outputs_total tx = sum_list (map (\<lambda>out. unat (unAmount (toAmount out))) (txOutputs tx))"

definition utxo_value :: "(UTxOId, UTxO) hashmap \<Rightarrow> UTxOId \<Rightarrow> nat" where
  "utxo_value m uid = (case hm_get m uid of Some u \<Rightarrow> unat (unAmount (uAmount u)) | None \<Rightarrow> 0)"

definition inputs_total :: "(UTxOId, UTxO) hashmap \<Rightarrow> HsTransaction \<Rightarrow> nat" where
  "inputs_total m tx = sum_list (map (\<lambda>inp. utxo_value m (tiUtxoId inp)) (txInputs tx))"

definition utxo_total :: "(UTxOId, UTxO) hashmap \<Rightarrow> nat" where
  "utxo_total m = sum_list (map (utxo_value m) (hm_keys m))"

lemma unat_sumOutputs: "unat (unAmount (sumOutputs tx)) = outputs_total tx mod 2 ^ 64"
  by (simp add: sumOutputs_def outputs_total_def foldl_plus unat_sum_list o_def)

lemma unat_sumInputs: "unat (unAmount (sumInputs tx m)) = inputs_total m tx mod 2 ^ 64"
proof -
  let ?f = "\<lambda>inp :: TxInput. case hm_get m (tiUtxoId inp) of Some u \<Rightarrow> unAmount (uAmount u) | None \<Rightarrow> 0"
  have "(\<lambda>acc (inp :: TxInput). case hm_get m (tiUtxoId inp) of Some u \<Rightarrow> acc + unAmount (uAmount u) | None \<Rightarrow> acc)
      = (\<lambda>acc inp. acc + ?f inp)"
    by (auto simp: fun_eq_iff split: option.splits)
  then have "sumInputs tx m = Amount (sum_list (map ?f (txInputs tx)))"
    by (simp only: sumInputs_def foldl_plus add_0)
  moreover have "unat (?f inp) = utxo_value m (tiUtxoId inp)" for inp
    by (simp add: utxo_value_def split: option.splits)
  ultimately show ?thesis by (simp add: unat_sum_list inputs_total_def o_def)
qed

section \<open>Accepted transactions\<close>

lemma validateTransaction_Ok:
  "validateTransaction (UTxOSet m) tx = Inr tx' \<longleftrightarrow> tx' = tx
     \<and> hs_verify (txPublicKey tx) (txSignature tx) (serializeForSigning_tx tx)
     \<and> (\<forall>inp\<in>set (txInputs tx). hm_get m (tiUtxoId inp) \<noteq> None)
     \<and> distinct (map tiUtxoId (txInputs tx))
     \<and> outputs_total tx mod 2 ^ 64 \<le> inputs_total m tx mod 2 ^ 64"
proof -
  let ?ids = "map tiUtxoId (txInputs tx)"
  have inputs: "(\<exists>u. mapM_either (validateInput m) (txInputs tx) = Inr u)
      \<longleftrightarrow> (\<forall>inp\<in>set (txInputs tx). hm_get m (tiUtxoId inp) \<noteq> None)"
    by (auto simp: mapM_either_Ok validateInput_def split: option.splits)
  have sums: "sumInputs tx m < sumOutputs tx \<longleftrightarrow>
      \<not> outputs_total tx mod 2 ^ 64 \<le> inputs_total m tx mod 2 ^ 64"
    by (simp only: less_Amount_def word_less_nat_alt unat_sumInputs unat_sumOutputs not_le)
  have ids: "length ?ids = card (set ?ids) \<longleftrightarrow> distinct ?ids" by (rule length_card_distinct)
  show ?thesis
  proof (cases "mapM_either (validateInput m) (txInputs tx)")
    case (Inl e)
    with inputs have "\<not> (\<forall>inp\<in>set (txInputs tx). hm_get m (tiUtxoId inp) \<noteq> None)" by auto
    with Inl show ?thesis by (simp add: Let_def)
  next
    case (Inr u)
    with inputs have "\<forall>inp\<in>set (txInputs tx). hm_get m (tiUtxoId inp) \<noteq> None" by auto
    with Inr sums ids show ?thesis
      by (simp add: Let_def eq_commute [of tx] del: length_map set_map)
  qed
qed

lemma sum_list_keys_le:
  assumes "hm_wf m" and "distinct ids" and "\<forall>uid\<in>set ids. hm_get m uid \<noteq> None"
  shows "sum_list (map (utxo_value m) ids) \<le> utxo_total m"
proof -
  have "set ids \<subseteq> set (hm_keys m)" using assms(3) by (auto simp: hm.set_keys_dom domIff)
  then have "sum (utxo_value m) (set ids) \<le> sum (utxo_value m) (set (hm_keys m))"
    by (intro sum_mono2) simp_all
  moreover have "utxo_total m = sum (utxo_value m) (set (hm_keys m))"
    unfolding utxo_total_def by (rule sum_list_distinct_conv_sum_set [OF hm.distinct_keys [OF assms(1)]])
  ultimately show ?thesis by (simp only: sum_list_distinct_conv_sum_set [OF assms(2)])
qed

lemma inputs_total_concat:
  "sum_list (map (inputs_total m) txs)
   = sum_list (map (utxo_value m) (concat (map (\<lambda>tx. map tiUtxoId (txInputs tx)) txs)))"
  by (induction txs) (simp_all add: inputs_total_def o_def)

lemma accepted_outputs_le:
  assumes "validateTransaction (UTxOSet m) tx = Inr tx'" and "outputs_total tx < 2 ^ 64"
  shows "outputs_total tx \<le> inputs_total m tx"
proof -
  from assms have "outputs_total tx \<le> inputs_total m tx mod 2 ^ 64"
    by (simp add: validateTransaction_Ok del: validateTransaction.simps)
  then show ?thesis using mod_less_eq_dividend le_trans by blast
qed

section \<open>What an outsider can send\<close>

definition forged_tx :: "u8 list \<Rightarrow> TxInput list \<Rightarrow> TxOutput list \<Rightarrow> HsTransaction" where
  "forged_tx pk ins outs =
     (let tx = \<lparr>txId = TxId (HsHash (replicate 32 0)), txInputs = ins, txOutputs = outs,
                txSignature = HsSignature [], txPublicKey = HsPublicKey pk, txNonce = 0, txFee = Amount 0\<rparr>
      in tx\<lparr>txSignature := HsSignature (forge pk (serializeForSigning_tx tx))\<rparr>)"

lemma serializeForSigning_tx_signature [simp]:
  "serializeForSigning_tx (tx\<lparr>txSignature := sig\<rparr>) = serializeForSigning_tx tx"
  by (simp add: serializeForSigning_tx_def)

lemma forged_tx_simps [simp]:
  "txInputs (forged_tx pk ins outs) = ins" "txOutputs (forged_tx pk ins outs) = outs"
  "txPublicKey (forged_tx pk ins outs) = HsPublicKey pk"
  "outputs_total (forged_tx pk ins outs) = sum_list (map (\<lambda>out. unat (unAmount (toAmount out))) outs)"
  "inputs_total m (forged_tx pk ins outs) = sum_list (map (\<lambda>inp. utxo_value m (tiUtxoId inp)) ins)"
  by (simp_all add: forged_tx_def Let_def outputs_total_def inputs_total_def)

lemma forged_tx_verifies:
  "hs_verify (HsPublicKey pk) (txSignature (forged_tx pk ins outs))
     (serializeForSigning_tx (forged_tx pk ins outs))"
  by (simp add: forged_tx_def Let_def forge_verifies serializeForSigning_tx_def)

lemma forged_tx_accepted:
  "validateTransaction (UTxOSet m) (forged_tx pk ins outs) = Inr (forged_tx pk ins outs) \<longleftrightarrow>
     (\<forall>inp\<in>set ins. hm_get m (tiUtxoId inp) \<noteq> None) \<and> distinct (map tiUtxoId ins)
     \<and> sum_list (map (\<lambda>out. unat (unAmount (toAmount out))) outs) mod 2 ^ 64
       \<le> sum_list (map (\<lambda>inp. utxo_value m (tiUtxoId inp)) ins) mod 2 ^ 64"
  by (simp add: validateTransaction_Ok forged_tx_verifies del: validateTransaction.simps)

definition pay :: "HsAddress \<Rightarrow> u64 \<Rightarrow> TxOutput" where
  "pay addr w = \<lparr>toAddress = addr, toAmount = Amount w, toData = None\<rparr>"

definition spend :: "UTxOId \<Rightarrow> TxInput" where
  "spend uid = \<lparr>tiUtxoId = uid, tiProof = None\<rparr>"

lemma pay_spend_simps [simp]:
  "toAddress (pay addr w) = addr" "toAmount (pay addr w) = Amount w" "tiUtxoId (spend uid) = uid"
  by (simp_all add: pay_def spend_def)

definition demo_uid :: UTxOId where
  "demo_uid = UTxOId (TxId (HsHash []), 0)"

definition demo_utxos :: "(UTxOId, UTxO) hashmap" where
  "demo_utxos = [(demo_uid, \<lparr>uId = demo_uid, uAddress = HsAddress [1], uAmount = Amount 5, uData = None\<rparr>)]"

lemma demo_utxos_wf [simp]: "hm_wf demo_utxos"
  by (simp add: demo_utxos_def hm_wf_def)

section \<open>Properties\<close>

text \<open>
  C29: The sum of the outputs wraps, so money is made from nothing: for every UTxO set, every
  public key and every address there is an accepted transaction without inputs whose two
  outputs pay the address \<open>2 ^ 64\<close> units in all.
\<close>
theorem outputs_wrap_mints:
  "\<exists>tx. validateTransaction (UTxOSet m) tx = Inr tx \<and> txInputs tx = []
     \<and> txPublicKey tx = HsPublicKey pk \<and> outputs_total tx = 2 ^ 64
     \<and> map toAddress (txOutputs tx) = [thief, thief]"
  by (rule exI [of _ "forged_tx pk [] [pay thief (2 ^ 63), pay thief (2 ^ 63)]"])
    (simp add: forged_tx_accepted del: validateTransaction.simps)

text \<open>
  C30: Anyone can spend any output: a transaction is never checked against the address of the
  outputs it spends, and its signature can be computed from its public key alone.
\<close>
theorem anyone_spends_any_output:
  assumes "hm_get m uid = Some u"
  shows "\<exists>tx. validateTransaction (UTxOSet m) tx = Inr tx \<and> map tiUtxoId (txInputs tx) = [uid]
     \<and> txPublicKey tx = HsPublicKey pk
     \<and> map (\<lambda>out. (toAddress out, toAmount out)) (txOutputs tx) = [(thief, uAmount u)]"
  using assms
  by (intro exI [of _ "forged_tx pk [spend uid] [pay thief (unAmount (uAmount u))]"])
    (simp add: forged_tx_accepted utxo_value_def del: validateTransaction.simps)

theorem anyone_spends_any_output_witness:
  "\<exists>tx. validateTransaction (UTxOSet demo_utxos) tx = Inr tx \<and> map tiUtxoId (txInputs tx) = [demo_uid]
     \<and> txPublicKey tx = HsPublicKey [] \<and> map (\<lambda>out. (toAddress out, toAmount out)) (txOutputs tx) = [(HsAddress [2], Amount 5)]"
  using anyone_spends_any_output [of demo_utxos demo_uid _ "[]" "HsAddress [2]"]
  by (simp add: demo_utxos_def hm_get_def del: validateTransaction.simps)

end
