(* ===== verification/Hs_Block.thy ===== *)
theory Hs_Block
  imports Hs_Transaction
begin

text \<open>
  The module \<open>CryptoCoin.Protocol.Block\<close> on top of its transactions: serialization of
  headers, votes and bodies, block creation and validation. \<open>getPOSIXTime\<close> is the
  argument \<open>now\<close>. The source declares two functions \<open>serializeForSigning\<close>, on
  headers and on transactions; they are told apart by their argument.
\<close>

section \<open>Serialization\<close>

definition serializeTimestamp :: "Timestamp \<Rightarrow> u8 list" where
  "serializeTimestamp t = serializeWord64_block (word_of_int (round_pico t))"

fun serializeValidatorId :: "ValidatorId \<Rightarrow> u8 list" where
  "serializeValidatorId (ValidatorId (HsAddress b)) = b"

definition serializeHeader :: "BlockHeader \<Rightarrow> u8 list" where
  "serializeHeader h = concat
     [serializeHash (bhParentHash h),
      serializeWord64_block (unBlockNumber (bhBlockNumber h)),
      serializeWord64_block (unSlotNumber (bhSlotNumber h)),
      serializeWord64_block (unEpochNumber (bhEpochNumber h)),
      serializeTimestamp (bhTimestamp h),
      serializeValidatorId (bhValidator h),
      serializeHash (unMerkleRoot (bhMerkleRoot h)),
      serializeHash (bhStateRoot h),
      serializeWord64_block (bhNonce h),
      serializeWord32_block (bhVersion h)]"

definition serializeForSigning_header :: "BlockHeader \<Rightarrow> u8 list" where
  "serializeForSigning_header h = concat
     [serializeHash (bhParentHash h),
      serializeWord64_block (unBlockNumber (bhBlockNumber h)),
      serializeWord64_block (unSlotNumber (bhSlotNumber h)),
      serializeWord64_block (unEpochNumber (bhEpochNumber h)),
      serializeTimestamp (bhTimestamp h),
      serializeValidatorId (bhValidator h),
      serializeHash (unMerkleRoot (bhMerkleRoot h)),
      serializeHash (bhStateRoot h),
      serializeWord64_block (bhNonce h),
      serializeWord32_block (bhVersion h)]"

definition serializeUTxOEntry :: "UTxOId \<Rightarrow> UTxO \<Rightarrow> u8 list" where
  "serializeUTxOEntry uid utxo = concat
     [serializeUTxOId uid, serializeAddress (uAddress utxo), serializeAmount (uAmount utxo)]"

fun voteType_enum :: "VoteType \<Rightarrow> u8" where
  "voteType_enum VotePrepare = 0"
| "voteType_enum VoteCommit = 1"

definition serializeVote :: "Vote \<Rightarrow> u8 list" where
  "serializeVote vote = concat
     [serializeValidatorId (vValidator vote),
      serializeHash (vBlockHash vote),
      serializeWord64_block (vRound vote),
      serializeWord8 (voteType_enum (vVoteType vote))]"

definition voteHash :: "Vote \<Rightarrow> HsHash" where
  "voteHash vote = hs_hash (concat
     [serializeValidatorId (vValidator vote),
      serializeHash (vBlockHash vote),
      serializeWord64_block (vRound vote),
      serializeWord8 (voteType_enum (vVoteType vote))])"

definition serializeVotes :: "Vote list \<Rightarrow> u8 list" where
  "serializeVotes vs = concat (map serializeVote vs)"

definition serializeBody :: "BlockBody \<Rightarrow> u8 list" where
  "serializeBody body = concat [serializeTransactions (bbTransactions body), serializeVotes (bbVotes body)]"

section \<open>Hashes, roots and signatures\<close>

definition hashBlockHeader :: "BlockHeader \<Rightarrow> BlockHash" where
  "hashBlockHeader h = hs_hash (serializeHeader h)"

definition hashBlock :: "HsBlock \<Rightarrow> BlockHash" where
  "hashBlock block = hashBlockHeader (bHeader block)"

definition computeMerkleRoot :: "HsHash list \<Rightarrow> MerkleRoot exec" where
  "computeMerkleRoot hashes = map_option MerkleRoot (computeRoot hashes)"

fun computeStateRoot :: "UTxOSet \<Rightarrow> HsHash exec" where
  "computeStateRoot (UTxOSet utxoMap) =
     (let sortedEntries = toAscList utxoMap;
          entryHashes = map (\<lambda>(uid, utxo). hs_hash (serializeUTxOEntry uid utxo)) sortedEntries
      in computeRoot entryHashes)"

text \<open>
  The output index of a genesis entry is the length of a list with that one entry; the
  local \<open>fst3\<close> is read as the first component of the pair the local \<open>unzip3\<close>
  returns.
\<close>

definition computeGenesisStateRoot :: "GenesisConfig \<Rightarrow> HsHash exec" where
  "computeGenesisStateRoot gc =
     (let initialEntries = map (\<lambda>(addr, amt).
            let uid = UTxOId (TxId (HsHash []), word_of_nat (length [(addr, amt)]))
            in hs_hash (serializeUTxOEntry uid
                 \<lparr>uId = uid, uAddress = addr, uAmount = amt, uData = None\<rparr>)) (gcInitialUtxos gc)
      in computeRoot initialEntries)"

definition bodyTransactionRoot :: "BlockBody \<Rightarrow> MerkleRoot exec" where
  "bodyTransactionRoot body = computeMerkleRoot (map txHash (bbTransactions body))"

definition bodyVoteRoot :: "BlockBody \<Rightarrow> MerkleRoot exec" where
  "bodyVoteRoot body = computeMerkleRoot (map voteHash (bbVotes body))"

definition signBlock :: "HsPrivateKey \<Rightarrow> BlockHeader \<Rightarrow> (HsProtocolError, HsSignature) result" where
  "signBlock privKey header =
     (let headerBytes = serializeHeader header in
      case hs_sign privKey headerBytes of
        Some sig \<Rightarrow> Ok sig
      | None \<Rightarrow> Err (PECryptoError ''signing failed''))"

fun derivePublicKey_block :: "ValidatorId \<Rightarrow> HsPublicKey" where
  "derivePublicKey_block (ValidatorId (HsAddress addrBytes)) = HsPublicKey addrBytes"

definition verifyBlockSignature :: "BlockHeader \<Rightarrow> bool" where
  "verifyBlockSignature header =
     (let pubKey = derivePublicKey_block (bhValidator header);
          sig = bhSignature header;
          data = serializeForSigning_header header
      in hs_verify pubKey sig data)"

section \<open>Creation\<close>

definition createBlock ::
  "Timestamp \<Rightarrow> BlockHeader \<Rightarrow> SlotNumber \<Rightarrow> EpochNumber \<Rightarrow> ValidatorId \<Rightarrow> HsPrivateKey \<Rightarrow>
   HsTransaction list \<Rightarrow> Vote list \<Rightarrow> UTxOSet \<Rightarrow> (HsProtocolError, HsBlock) result exec" where
  "createBlock now parentHeader slot epoch validator privKey txs votes utxoSet = do {
     blockNumber \<leftarrow> hs_succ (unBlockNumber (bhBlockNumber parentHeader));
     txRoot \<leftarrow> computeMerkleRoot (map txHash txs);
     voteRoot \<leftarrow> computeMerkleRoot (map voteHash votes);
     stateRoot \<leftarrow> computeStateRoot utxoSet;
     let bodyRoot = combineRoots txRoot voteRoot;
         header = \<lparr>bhParentHash = hashBlockHeader parentHeader,
                   bhBlockNumber = BlockNumber blockNumber,
                   bhSlotNumber = slot,
                   bhEpochNumber = epoch,
                   bhTimestamp = now,
                   bhValidator = validator,
                   bhMerkleRoot = bodyRoot,
                   bhStateRoot = stateRoot,
                   bhNonce = 0,
                   bhVersion = 1,
                   bhSignature = HsSignature []\<rparr>
     in Some (case signBlock privKey header of
          Inl err \<Rightarrow> Err err
        | Inr signature \<Rightarrow>
            let signedHeader = header\<lparr>bhSignature := signature\<rparr>
            in Ok \<lparr>bHeader = signedHeader, bBody = \<lparr>bbTransactions = txs, bbVotes = votes\<rparr>\<rparr>) }"

definition createGenesisBlock ::
  "Timestamp \<Rightarrow> GenesisConfig \<Rightarrow> HsPrivateKey \<Rightarrow> (HsProtocolError, HsBlock) result exec" where
  "createGenesisBlock now genesisConfig privKey = do {
     stateRoot \<leftarrow> computeGenesisStateRoot genesisConfig;
     let genTime = gcGenesisTime genesisConfig;
         actualTime = (if genTime > 0 then genTime else now);
         zeroHash = HsHash (replicate 32 0);
         header = \<lparr>bhParentHash = zeroHash,
                   bhBlockNumber = BlockNumber 0,
                   bhSlotNumber = SlotNumber 0,
                   bhEpochNumber = EpochNumber 0,
                   bhTimestamp = actualTime,
                   bhValidator = ValidatorId (HsAddress []),
                   bhMerkleRoot = MerkleRoot zeroHash,
                   bhStateRoot = stateRoot,
                   bhNonce = 0,
                   bhVersion = 1,
                   bhSignature = HsSignature []\<rparr>
     in Some (case signBlock privKey header of
          Inl err \<Rightarrow> Err err
        | Inr signature \<Rightarrow>
            let signedHeader = header\<lparr>bhSignature := signature\<rparr>
            in Ok \<lparr>bHeader = signedHeader, bBody = \<lparr>bbTransactions = [], bbVotes = []\<rparr>\<rparr>) }"

section \<open>Validation\<close>

fun nubOrd_go :: "'a set \<Rightarrow> 'a list \<Rightarrow> 'a list" where
  "nubOrd_go _ [] = []"
| "nubOrd_go s (x # xs) = (if x \<in> s then nubOrd_go s xs else x # nubOrd_go (insert x s) xs)"

definition nubOrd :: "'a list \<Rightarrow> 'a list" where
  "nubOrd = nubOrd_go {}"

definition validateBlockBody ::
  "ChainState \<Rightarrow> BlockBody \<Rightarrow> BlockHeader \<Rightarrow> (ValidationError, BlockBody) result" where
  "validateBlockBody chainState body header =
     (let txs = bbTransactions body; utxo = csUtxoSet chainState in
      case mapM_either (validateTransaction utxo) txs of
        Inl e \<Rightarrow> Err e
      | Inr _ \<Rightarrow>
          let inputIds = concat (map (\<lambda>tx. map tiUtxoId (txInputs tx)) txs) in
          if length inputIds \<noteq> length (nubOrd inputIds)
          then Err (VEInvalidBlockStructure ''duplicate UTxO inputs in block'')
          else Ok body)"

definition validateBlockSize :: "BlockBody \<Rightarrow> ProtocolParams \<Rightarrow> (ValidationError, unit) result" where
  "validateBlockSize body params =
     (let serialized = serializeBody body; actualSize = (word_of_nat (length serialized) :: u32) in
      if actualSize > ppMaxBlockSize params then Err (VEBlockTooLarge actualSize (ppMaxBlockSize params))
      else Ok ())"

definition validateBlockHeader ::
  "ChainState \<Rightarrow> BlockHeader \<Rightarrow> ProtocolParams \<Rightarrow> (ValidationError, BlockHeader) result exec" where
  "validateBlockHeader chainState header params =
     (let tipHash = csTipHash chainState in
      if bhParentHash header \<noteq> tipHash
      then Some (Err (VEInvalidBlockStructure ''parent hash does not match chain tip''))
      else do {
        next \<leftarrow> hs_succ (unBlockNumber (csTipNumber chainState));
        Some (if bhBlockNumber header \<noteq> BlockNumber next
              then Err (VEInvalidBlockStructure ''block number is not sequential'')
              else if \<not> verifyBlockSignature header then Err VEInvalidSignature
              else if bhVersion header \<noteq> 1
              then Err (VEInvalidBlockStructure ''unsupported block version'')
              else Ok header) })"

definition validateBlock ::
  "ChainState \<Rightarrow> HsBlock \<Rightarrow> ProtocolParams \<Rightarrow> (ValidationError, HsBlock) result exec" where
  "validateBlock chainState block params =
     (let header = bHeader block; body = bBody block in
      case validateBlockSize body params of
        Inl e \<Rightarrow> Some (Err e)
      | Inr _ \<Rightarrow> do {
          headerResult \<leftarrow> validateBlockHeader chainState header params;
          case headerResult of
            Inl e \<Rightarrow> Some (Err e)
          | Inr _ \<Rightarrow>
              (case validateBlockBody chainState body header of
                 Inl e \<Rightarrow> Some (Err e)
               | Inr _ \<Rightarrow> do {
                   computedTxRoot \<leftarrow> computeMerkleRoot (map txHash (bbTransactions body));
                   computedVoteRoot \<leftarrow> computeMerkleRoot (map voteHash (bbVotes body));
                   let computedBodyRoot = combineRoots computedTxRoot computedVoteRoot
                   in Some (if computedBodyRoot \<noteq> bhMerkleRoot header
                        then Err (VEMerkleRootMismatch (bhMerkleRoot header) computedBodyRoot)
                        else Ok block) }) })"

section \<open>Queries\<close>

definition blockTransactions :: "HsBlock \<Rightarrow> HsTransaction list" where
  "blockTransactions b = bbTransactions (bBody b)"

definition blockVotes :: "HsBlock \<Rightarrow> Vote list" where
  "blockVotes b = bbVotes (bBody b)"

definition blockNumber :: "HsBlock \<Rightarrow> BlockNumber" where
  "blockNumber b = bhBlockNumber (bHeader b)"

definition blockParentHash :: "HsBlock \<Rightarrow> BlockHash" where
  "blockParentHash b = bhParentHash (bHeader b)"

definition blockValidator :: "HsBlock \<Rightarrow> ValidatorId" where
  "blockValidator b = bhValidator (bHeader b)"

definition blockTimestamp :: "HsBlock \<Rightarrow> Timestamp" where
  "blockTimestamp b = bhTimestamp (bHeader b)"

section \<open>Lengths of serialized values\<close>

lemma length_serializeTimestamp [simp, bytes_simps]: "length (serializeTimestamp t) = 8"
  by (simp add: serializeTimestamp_def)

lemma serializeHeader_eq: "serializeForSigning_header h = serializeHeader h"
  by (simp add: serializeForSigning_header_def serializeHeader_def)

text \<open>A header all of whose byte strings have their nominal length.\<close>

definition wf_header :: "BlockHeader \<Rightarrow> bool" where
  "wf_header h \<longleftrightarrow> length (unHash (bhParentHash h)) = 32
     \<and> length (serializeValidatorId (bhValidator h)) = addressLength
     \<and> length (unHash (unMerkleRoot (bhMerkleRoot h))) = 32 \<and> length (unHash (bhStateRoot h)) = 32"

section \<open>Roots\<close>

lemma wf_hs_hash [simp]: "wf_HsHash (hs_hash x)"
  by (simp add: wf_HsHash_def hs_hash_def)

lemma computeMerkleRoot_Some: "hs_list hs \<Longrightarrow> \<exists>r. computeMerkleRoot hs = Some r"
  using computeRoot_Some [of hs] by (auto simp: computeMerkleRoot_def)

text \<open>The root of a body with transactions is the hash of the first one.\<close>

lemma body_root_first:
  assumes "bbTransactions body = t # ts" and "hs_list (bbTransactions body)" and "hs_list (bbVotes body)"
  obtains v where "bodyTransactionRoot body = Some (MerkleRoot (txHash t))" "bodyVoteRoot body = Some v"
    "combineRoots (MerkleRoot (txHash t)) v = MerkleRoot (txHash t)"
proof -
  have txs: "bodyTransactionRoot body = Some (MerkleRoot (txHash t))"
    using computeRoot_first [of "map txHash (bbTransactions body)"] assms(1,2)
    by (simp add: bodyTransactionRoot_def computeMerkleRoot_def txHash_def list_all_iff)
  obtain r where r: "computeRoot (map voteHash (bbVotes body)) = Some r"
    using computeRoot_Some [of "map voteHash (bbVotes body)"] assms(3) by auto
  moreover have "wf_HsHash r"
    using r assms(3) by (intro wf_computeRoot [OF _ _ r]) (simp_all add: voteHash_def list_all_iff)
  ultimately show ?thesis
    using that [of "MerkleRoot r"] txs
    by (simp add: bodyVoteRoot_def computeMerkleRoot_def combineHashes_left txHash_def)
qed

section \<open>Bodies\<close>

lemma length_nubOrd_go: "length (nubOrd_go s xs) = card (set xs - s)"
proof (induction xs arbitrary: s)
  case (Cons x xs)
  show ?case
  proof (cases "x \<in> s")
    case True
    then show ?thesis using Cons by (simp add: insert_Diff_if)
  next
    case False
    then have "set (x # xs) - s = insert x (set xs - insert x s)" by auto
    then show ?thesis using Cons [of "insert x s"] False by simp
  qed
qed simp

lemma nubOrd_distinct: "length xs = length (nubOrd xs) \<longleftrightarrow> distinct xs"
  by (simp add: nubOrd_def length_nubOrd_go length_card_distinct)

lemma validateBlockBody_Ok:
  "validateBlockBody cs body h = Inr body' \<longleftrightarrow> body' = body
     \<and> (\<forall>tx\<in>set (bbTransactions body). validateTransaction (csUtxoSet cs) tx = Inr tx)
     \<and> distinct (concat (map (\<lambda>tx. map tiUtxoId (txInputs tx)) (bbTransactions body)))"
proof -
  have "(\<exists>y. validateTransaction (csUtxoSet cs) tx = Inr y) \<longleftrightarrow> validateTransaction (csUtxoSet cs) tx = Inr tx" for tx
    by (cases "csUtxoSet cs") (auto simp: validateTransaction_Ok simp del: validateTransaction.simps)
  then have txs: "mapM_either (validateTransaction (csUtxoSet cs)) (bbTransactions body) = Inr u
      \<longleftrightarrow> (\<forall>tx\<in>set (bbTransactions body). validateTransaction (csUtxoSet cs) tx = Inr tx)" for u
    by (simp only: mapM_either_Ok)
  show ?thesis
  proof (cases "mapM_either (validateTransaction (csUtxoSet cs)) (bbTransactions body)")
    case (Inl e)
    then show ?thesis using txs by (auto simp: validateBlockBody_def simp del: validateTransaction.simps)
  next
    case (Inr u)
    then show ?thesis using txs
      by (auto simp: validateBlockBody_def Let_def nubOrd_distinct simp del: validateTransaction.simps length_concat)
  qed
qed

section \<open>Blocks\<close>

lemma validateBlockHeader_Ok:
  "validateBlockHeader cs h p = Some (Inr h') \<longleftrightarrow> h' = h
     \<and> bhParentHash h = csTipHash cs
     \<and> hs_succ (unBlockNumber (csTipNumber cs)) = Some (unBlockNumber (bhBlockNumber h))
     \<and> verifyBlockSignature h \<and> bhVersion h = 1"
  by (cases "bhBlockNumber h") (auto simp: validateBlockHeader_def Let_def bind_eq_Some_conv split: if_splits)

lemma validateBlock_Ok:
  "validateBlock cs b p = Some (Inr b') \<longleftrightarrow> b' = b
     \<and> validateBlockSize (bBody b) p = Inr ()
     \<and> validateBlockHeader cs (bHeader b) p = Some (Inr (bHeader b))
     \<and> validateBlockBody cs (bBody b) (bHeader b) = Inr (bBody b)
     \<and> (\<exists>t v. bodyTransactionRoot (bBody b) = Some t \<and> bodyVoteRoot (bBody b) = Some v
          \<and> bhMerkleRoot (bHeader b) = combineRoots t v)"
proof -
  let ?h = "bHeader b" and ?d = "bBody b"
  show ?thesis
  proof (cases "validateBlockSize ?d p")
    case (Inl e)
    then show ?thesis by (simp add: validateBlock_def)
  next
    case size: (Inr u)
    show ?thesis
    proof (cases "validateBlockHeader cs ?h p = Some (Inr ?h) \<and> validateBlockBody cs ?d ?h = Inr ?d")
      case True
      then show ?thesis using size
        by (auto simp: validateBlock_def Let_def bodyTransactionRoot_def bodyVoteRoot_def
            bind_eq_Some_conv split: if_splits)
    next
      case False
      then have "(\<nexists>x. validateBlockHeader cs ?h p = Some (Inr x)) \<or> (\<nexists>x. validateBlockBody cs ?d ?h = Inr x)"
        by (auto simp: validateBlockHeader_Ok validateBlockBody_Ok simp del: validateTransaction.simps)
      then have "validateBlock cs b p \<noteq> Some (Inr b')"
        using size by (auto simp: validateBlock_def Let_def bind_eq_Some_conv split: sum.splits)
      with False show ?thesis by blast
    qed
  qed
qed

lemma validateBlock_None:
  assumes "hs_list (bbTransactions (bBody b))" and "hs_list (bbVotes (bBody b))"
  shows "validateBlock cs b p = None \<longleftrightarrow>
    (\<exists>u. validateBlockSize (bBody b) p = Inr u) \<and> validateBlockHeader cs (bHeader b) p = None"
proof -
  obtain t v where "computeMerkleRoot (map txHash (bbTransactions (bBody b))) = Some t"
    "computeMerkleRoot (map voteHash (bbVotes (bBody b))) = Some v"
    using assms computeMerkleRoot_Some by (metis length_map)
  then show ?thesis
    by (auto simp: validateBlock_def Let_def bind_eq_None_conv split: sum.splits option.splits)
qed

section \<open>Signed headers\<close>

lemma serializeHeader_signature [simp]: "serializeHeader (h\<lparr>bhSignature := sig\<rparr>) = serializeHeader h"
  by (simp add: serializeHeader_def)

lemma derivePublicKey_block_eq: "derivePublicKey_block v = HsPublicKey (serializeValidatorId v)"
  by (cases v rule: serializeValidatorId.cases) simp

lemma length_serializeHeader: "wf_header h \<Longrightarrow> length (serializeHeader h) = 160"
  by (simp add: serializeHeader_def wf_header_def addressLength_def)

lemma signed_header_verifies_iff:
  assumes "wf_header h" and "length seed = 32"
    and "signBlock (fst (generateKeyPairFromSeed seed)) h = Inr sig"
  shows "verifyBlockSignature (h\<lparr>bhSignature := sig\<rparr>) \<longleftrightarrow>
    unHash (unMerkleRoot (bhMerkleRoot h)) =
    absorb (serializeWord64_block (unSlotNumber (bhSlotNumber h))
        @ serializeWord64_block (unEpochNumber (bhEpochNumber h))
        @ serializeTimestamp (bhTimestamp h) @ take 8 (serializeValidatorId (bhValidator h)))
      (replicate 16 0 @ 0x06 # replicate 15 0)"
proof -
  let ?msg = "serializeHeader h" and ?a = "serializeValidatorId (bhValidator h)"
  have "sig = HsSignature (ed25519_sign (seed @ seed) ?msg)"
    using assms(2,3) by (simp add: signBlock_def generateKeyPairFromSeed_def ed25519_keypair_eq Let_def)
  then have "verifyBlockSignature (h\<lparr>bhSignature := sig\<rparr>) \<longleftrightarrow>
      ed25519_verify ?a (ed25519_sign (seed @ seed) ?msg) ?msg"
    by (simp add: verifyBlockSignature_def derivePublicKey_block_eq serializeHeader_eq Let_def)
  also have "\<dots> \<longleftrightarrow> take 32 (drop 84 ?msg) =
      absorb (take 32 (drop 40 ?msg)) (replicate 16 0 @ 0x06 # replicate 15 0)"
    using assms(1,2) by (intro ed25519_address_iff) (simp_all add: length_serializeHeader wf_header_def addressLength_def)
  also have "take 32 (drop 84 ?msg) = unHash (unMerkleRoot (bhMerkleRoot h))"
    using assms(1) by (simp add: serializeHeader_def wf_header_def addressLength_def)
  also have "take 32 (drop 40 ?msg) = serializeWord64_block (unSlotNumber (bhSlotNumber h))
        @ serializeWord64_block (unEpochNumber (bhEpochNumber h))
        @ serializeTimestamp (bhTimestamp h) @ take 8 ?a"
    using assms(1) by (simp add: serializeHeader_def wf_header_def addressLength_def)
  finally show ?thesis .
qed

lemma createBlock_Ok:
  assumes "createBlock now parent slot epoch v key txs votes utxo = Some (Inr b)"
  obtains n t w r h sig where "hs_succ (unBlockNumber (bhBlockNumber parent)) = Some n"
    and "computeMerkleRoot (map txHash txs) = Some t" and "computeMerkleRoot (map voteHash votes) = Some w"
    and "computeStateRoot utxo = Some r"
    and "h = \<lparr>bhParentHash = hashBlockHeader parent, bhBlockNumber = BlockNumber n, bhSlotNumber = slot,
      bhEpochNumber = epoch, bhTimestamp = now, bhValidator = v,
      bhMerkleRoot = combineRoots t w, bhStateRoot = r, bhNonce = 0, bhVersion = 1,
      bhSignature = HsSignature []\<rparr>"
    and "signBlock key h = Inr sig"
    and "b = \<lparr>bHeader = h\<lparr>bhSignature := sig\<rparr>, bBody = \<lparr>bbTransactions = txs, bbVotes = votes\<rparr>\<rparr>"
proof -
  from assms obtain n t w r where roots: "hs_succ (unBlockNumber (bhBlockNumber parent)) = Some n"
    "computeMerkleRoot (map txHash txs) = Some t" "computeMerkleRoot (map voteHash votes) = Some w"
    "computeStateRoot utxo = Some r"
    by (auto simp: createBlock_def bind_eq_Some_conv)
  define h where h: "h = \<lparr>bhParentHash = hashBlockHeader parent, bhBlockNumber = BlockNumber n,
      bhSlotNumber = slot, bhEpochNumber = epoch, bhTimestamp = now, bhValidator = v,
      bhMerkleRoot = combineRoots t w, bhStateRoot = r, bhNonce = 0, bhVersion = 1,
      bhSignature = HsSignature []\<rparr>"
  show ?thesis
  proof (cases "signBlock key h")
    case (Inl e)
    with assms roots show ?thesis by (simp add: createBlock_def Let_def h)
  next
    case (Inr sig)
    with assms roots have "b = \<lparr>bHeader = h\<lparr>bhSignature := sig\<rparr>, bBody = \<lparr>bbTransactions = txs, bbVotes = votes\<rparr>\<rparr>"
      by (simp add: createBlock_def Let_def h)
    with roots h Inr show ?thesis by (rule that)
  qed
qed

lemma wf_computeStateRoot:
  assumes "hs_list m" and "computeStateRoot (UTxOSet m) = Some r"
  shows "length (unHash r) = 32"
proof -
  let ?hs = "map (\<lambda>(uid, utxo). hs_hash (serializeUTxOEntry uid utxo)) (toAscList m)"
  have "list_all wf_HsHash ?hs" by (simp add: list_all_iff split_beta)
  moreover have "hs_list ?hs" using assms(1) by (simp add: toAscList_def)
  ultimately show ?thesis using wf_computeRoot [of ?hs r] assms(2) by (simp add: wf_HsHash_def)
qed

lemma signBlock_eq: "signBlock (HsPrivateKey k) h = Inr (HsSignature (ed25519_sign k (serializeHeader h)))"
  by (simp add: signBlock_def Let_def)

lemma createBlock_returns:
  assumes "unBlockNumber (bhBlockNumber parent) \<noteq> - 1" and "hs_list txs" and "hs_list votes" and "hs_list m"
  shows "\<exists>b. createBlock now parent slot epoch v key txs votes (UTxOSet m) = Some (Inr b)
    \<and> bBody b = \<lparr>bbTransactions = txs, bbVotes = votes\<rparr>"
proof -
  obtain t w where "computeMerkleRoot (map txHash txs) = Some t" "computeMerkleRoot (map voteHash votes) = Some w"
    using assms(2,3) computeMerkleRoot_Some by (metis length_map)
  moreover obtain r where "computeStateRoot (UTxOSet m) = Some r"
    using computeRoot_Some [of "map (\<lambda>(uid, utxo). hs_hash (serializeUTxOEntry uid utxo)) (toAscList m)"] assms(4)
    by (auto simp: toAscList_def)
  ultimately show ?thesis
    using assms(1) by (cases key) (simp add: createBlock_def Let_def hs_succ_def signBlock_eq)
qed

lemma round_pico_bounds:
  assumes "0 \<le> t" and "t < 10 ^ 12 * 2 ^ 55"
  shows "0 \<le> round_pico t" and "round_pico t < 2 ^ 56"
proof -
  have "0 \<le> t div 10 ^ 12" and "t div 10 ^ 12 < 2 ^ 55" using assms by (simp_all add: div_less_iff_less_mult)
  then show "0 \<le> round_pico t" and "round_pico t < 2 ^ 56" by (auto simp: round_pico_def Let_def)
qed

lemma serializeTimestamp_first:
  assumes "0 \<le> t" and "t < 10 ^ 12 * 2 ^ 55"
  shows "serializeTimestamp t ! 0 = 0"
proof -
  let ?w = "word_of_int (round_pico t) :: u64"
  have "uint ?w < 2 ^ 56" using round_pico_bounds [OF assms] by (simp add: uint_word_of_int)
  then have "?w < 2 ^ 56" by (simp add: word_less_def)
  then have "?w div 2 ^ 56 = 0" by (simp add: word_less_def word_div_def)
  then show ?thesis by (simp add: serializeTimestamp_def serializeWord64_block_def numeral_eq_Suc)
qed

section \<open>What an outsider can send\<close>

text \<open>A block on top of a chain with a given body, signed by an outsider.\<close>

definition forged_block :: "ChainState \<Rightarrow> ValidatorId \<Rightarrow> u64 \<Rightarrow> MerkleRoot \<Rightarrow> BlockBody \<Rightarrow> HsBlock" where
  "forged_block cs v n rt body =
     (let h = \<lparr>bhParentHash = csTipHash cs, bhBlockNumber = BlockNumber n, bhSlotNumber = SlotNumber 0,
               bhEpochNumber = EpochNumber 0, bhTimestamp = 0, bhValidator = v, bhMerkleRoot = rt,
               bhStateRoot = HsHash [], bhNonce = 0, bhVersion = 1, bhSignature = HsSignature []\<rparr>
      in \<lparr>bHeader = h\<lparr>bhSignature := HsSignature (forge (serializeValidatorId v) (serializeHeader h))\<rparr>,
          bBody = body\<rparr>)"

lemma forged_block_verifies: "verifyBlockSignature (bHeader (forged_block cs v n rt body))"
  by (simp add: forged_block_def Let_def verifyBlockSignature_def derivePublicKey_block_eq
      serializeHeader_eq forge_verifies serializeHeader_def)

lemma forged_block_simps [simp]:
  "bBody (forged_block cs v n rt body) = body"
  "bhParentHash (bHeader (forged_block cs v n rt body)) = csTipHash cs"
  "bhBlockNumber (bHeader (forged_block cs v n rt body)) = BlockNumber n"
  "bhValidator (bHeader (forged_block cs v n rt body)) = v"
  "bhMerkleRoot (bHeader (forged_block cs v n rt body)) = rt"
  "bhVersion (bHeader (forged_block cs v n rt body)) = 1"
  by (simp_all add: forged_block_def Let_def)

lemma forged_block_accepted:
  assumes "hs_succ (unBlockNumber (csTipNumber cs)) = Some n"
    and "validateBlockBody cs body h = Inr body" and "validateBlockSize body p = Inr ()"
    and "bodyTransactionRoot body = Some t" and "bodyVoteRoot body = Some w"
  shows "validateBlock cs (forged_block cs v n (combineRoots t w) body) p
    = Some (Inr (forged_block cs v n (combineRoots t w) body))"
proof -
  from assms(2) have "validateBlockBody cs body h' = Inr body" for h'
    by (simp add: validateBlockBody_Ok del: validateTransaction.simps)
  with assms show ?thesis
    by (simp add: validateBlock_Ok validateBlockHeader_Ok forged_block_verifies)
qed

text \<open>The whole attack: number, roots and signature come from the chain's tip and the body.\<close>

definition outsider_block :: "ChainState \<Rightarrow> ValidatorId \<Rightarrow> BlockBody \<Rightarrow> HsBlock exec" where
  "outsider_block cs v body = do {
     n \<leftarrow> hs_succ (unBlockNumber (csTipNumber cs));
     t \<leftarrow> bodyTransactionRoot body;
     w \<leftarrow> bodyVoteRoot body;
     Some (forged_block cs v n (combineRoots t w) body) }"

section \<open>A chain for the examples\<close>

definition demo_chain :: "u64 \<Rightarrow> ChainState" where
  "demo_chain n =
     \<lparr>csUtxoSet = UTxOSet demo_utxos,
      csConsensus = \<lparr>csCurrentEpoch = EpochNumber 0, csCurrentSlot = SlotNumber 0,
        csLastFinalizedBlock = HsHash [], csChainValidatorSet = ValidatorSet [],
        csPendingProposals = [], csVotes = []\<rparr>,
      csValidatorStates = [], csTipHash = HsHash [], csTipNumber = BlockNumber n\<rparr>"

definition demo_params :: ProtocolParams where
  "demo_params =
     \<lparr>ppSecurityParam = \<lparr>spK = 0, spT = 0\<rparr>, ppEpochLength = EpochLength 0, ppSlotLength = SlotLength 0,
      ppMaxBlockSize = 1000, ppMaxTxSize = 0, ppMinStake = Stake 0, ppSlashingRate = 0, ppRewardRate = 0\<rparr>"

abbreviation empty_body :: BlockBody where
  "empty_body \<equiv> \<lparr>bbTransactions = [], bbVotes = []\<rparr>"

lemma demo_simps [simp]:
  "csUtxoSet (demo_chain n) = UTxOSet demo_utxos" "csTipNumber (demo_chain n) = BlockNumber n"
  "csTipHash (demo_chain n) = HsHash []" "ppMaxBlockSize demo_params = 1000"
  by (simp_all add: demo_chain_def demo_params_def)

lemma empty_body_valid [simp]:
  "validateBlockBody cs empty_body h = Inr empty_body" "validateBlockSize empty_body p = Inr ()"
  "bodyTransactionRoot empty_body = Some (MerkleRoot emptyTreeHash)"
  "bodyVoteRoot empty_body = Some (MerkleRoot emptyTreeHash)" "serializeBody empty_body = []"
  by (simp_all add: validateBlockBody_Ok validateBlockSize_def serializeBody_def serializeTransactions_def
      serializeVotes_def bodyTransactionRoot_def bodyVoteRoot_def computeMerkleRoot_def)

section \<open>Properties\<close>

text \<open>
  C25: The transactions of a validated body spend distinct outputs of the UTxO set and, when
  the outputs of no single transaction add up to \<open>2 ^ 64\<close> or more, pay out at most what
  they spend, and together at most the value of the whole UTxO set.
\<close>
theorem accepted_body_conserves_value:
  assumes "csUtxoSet cs = UTxOSet m" and "hm_wf m"
    and "validateBlockBody cs body h = Inr body'"
    and "list_all (\<lambda>tx. outputs_total tx < 2 ^ 64) (bbTransactions body)"
  shows "list_all (\<lambda>tx. outputs_total tx \<le> inputs_total m tx) (bbTransactions body)
    \<and> sum_list (map outputs_total (bbTransactions body)) \<le> utxo_total m"
proof -
  let ?txs = "bbTransactions body"
  from assms(1,3) have acc: "\<forall>tx\<in>set ?txs. validateTransaction (UTxOSet m) tx = Inr tx"
    and dist: "distinct (concat (map (\<lambda>tx. map tiUtxoId (txInputs tx)) ?txs))"
    by (simp_all add: validateBlockBody_Ok del: validateTransaction.simps)
  have le: "\<forall>tx\<in>set ?txs. outputs_total tx \<le> inputs_total m tx"
    using acc assms(4) accepted_outputs_le unfolding list_all_iff by blast
  then have "sum_list (map outputs_total ?txs) \<le> sum_list (map (inputs_total m) ?txs)"
    by (intro sum_list_mono) simp
  also have "\<dots> \<le> utxo_total m"
    unfolding inputs_total_concat
  proof (rule sum_list_keys_le [OF assms(2) dist])
    show "\<forall>uid\<in>set (concat (map (\<lambda>tx. map tiUtxoId (txInputs tx)) ?txs)). hm_get m uid \<noteq> None"
      using acc by (auto simp: validateTransaction_Ok simp del: validateTransaction.simps)
  qed
  finally show ?thesis using le by (simp add: list_all_iff)
qed

theorem accepted_body_conserves_value_witness:
  "sum_list (map outputs_total [forged_tx [] [spend demo_uid] [pay (HsAddress [2]) 3]]) \<le> utxo_total demo_utxos"
proof -
  let ?tx = "forged_tx [] [spend demo_uid] [pay (HsAddress [2]) 3]"
  let ?body = "\<lparr>bbTransactions = [?tx], bbVotes = []\<rparr>"
  have "validateTransaction (UTxOSet demo_utxos) ?tx = Inr ?tx"
    by (simp add: forged_tx_accepted utxo_value_def demo_utxos_def hm_get_def del: validateTransaction.simps)
  then have "validateBlockBody (demo_chain 0) ?body h = Inr ?body" for h
    by (simp add: validateBlockBody_Ok del: validateTransaction.simps)
  from accepted_body_conserves_value [OF _ _ this] show ?thesis by simp
qed

text \<open>
  C23: A block that passes validation extends the chain: it names the tip as its parent, has
  the next number without wrap-around, carries version 1 and a signature that verifies, its
  transactions are each valid and together spend no output twice, and its Merkle root is the
  combination of the roots of its transactions and its votes.
\<close>
theorem validated_block_extends_chain:
  assumes "validateBlock cs b p = Some (Inr b')"
  shows "b' = b \<and> blockParentHash b = csTipHash cs
    \<and> unat (unBlockNumber (blockNumber b)) = unat (unBlockNumber (csTipNumber cs)) + 1
    \<and> bhVersion (bHeader b) = 1 \<and> verifyBlockSignature (bHeader b)
    \<and> list_all (\<lambda>tx. validateTransaction (csUtxoSet cs) tx = Inr tx) (blockTransactions b)
    \<and> distinct (concat (map (\<lambda>tx. map tiUtxoId (txInputs tx)) (blockTransactions b)))
    \<and> (\<exists>t v. bodyTransactionRoot (bBody b) = Some t \<and> bodyVoteRoot (bBody b) = Some v
        \<and> bhMerkleRoot (bHeader b) = combineRoots t v)"
  using assms
  by (auto simp: validateBlock_Ok validateBlockHeader_Ok validateBlockBody_Ok blockParentHash_def
      blockNumber_def blockTransactions_def list_all_iff dest: unat_hs_succ simp del: validateTransaction.simps)

theorem validated_block_extends_chain_witness:
  "validateBlock (demo_chain 4)
     (forged_block (demo_chain 4) (ValidatorId (HsAddress [])) 5
       (combineRoots (MerkleRoot emptyTreeHash) (MerkleRoot emptyTreeHash)) empty_body) demo_params
     \<noteq> None
   \<and> unat (unBlockNumber (blockNumber (forged_block (demo_chain 4) (ValidatorId (HsAddress [])) 5
       (combineRoots (MerkleRoot emptyTreeHash) (MerkleRoot emptyTreeHash)) empty_body))) = 5"
proof -
  have "hs_succ (unBlockNumber (csTipNumber (demo_chain 4))) = Some 5" by (simp add: hs_succ_def)
  from forged_block_accepted [OF this empty_body_valid(1-4)] have acc: "validateBlock (demo_chain 4)
     (forged_block (demo_chain 4) (ValidatorId (HsAddress [])) 5
       (combineRoots (MerkleRoot emptyTreeHash) (MerkleRoot emptyTreeHash)) empty_body) demo_params
     = Some (Inr (forged_block (demo_chain 4) (ValidatorId (HsAddress [])) 5
       (combineRoots (MerkleRoot emptyTreeHash) (MerkleRoot emptyTreeHash)) empty_body))" .
  from validated_block_extends_chain [OF acc] acc show ?thesis by simp
qed

text \<open>
  C24: The signature of a block covers its first transaction only: in a validated block the
  rest of the transactions and all the votes can be replaced, under the same signed header, by
  any others that are valid by themselves, and the block still passes validation.
\<close>
theorem body_can_be_replaced:
  assumes "validateBlock cs b p = Some (Inr b)" and "blockTransactions b = t # ts"
    and "bbTransactions body = t' # ts'" and "txHash t' = txHash t"
    and "validateBlockBody cs body (bHeader b) = Inr body" and "validateBlockSize body p = Inr ()"
    and "hs_list (blockTransactions b)" and "hs_list (blockVotes b)"
    and "hs_list (bbTransactions body)" and "hs_list (bbVotes body)"
  shows "validateBlock cs (b\<lparr>bBody := body\<rparr>) p = Some (Inr (b\<lparr>bBody := body\<rparr>))"
proof -
  from assms(2,7,8) obtain v where "bodyTransactionRoot (bBody b) = Some (MerkleRoot (txHash t))"
    "bodyVoteRoot (bBody b) = Some v" "combineRoots (MerkleRoot (txHash t)) v = MerkleRoot (txHash t)"
    unfolding blockTransactions_def blockVotes_def by (rule body_root_first)
  with assms(1) have "bhMerkleRoot (bHeader b) = MerkleRoot (txHash t)" by (auto simp: validateBlock_Ok)
  moreover from assms(3,9,10) obtain w where "bodyTransactionRoot body = Some (MerkleRoot (txHash t'))"
    "bodyVoteRoot body = Some w" "combineRoots (MerkleRoot (txHash t')) w = MerkleRoot (txHash t')"
    by (rule body_root_first)
  ultimately show ?thesis using assms(1,4-6) by (auto simp: validateBlock_Ok)
qed

definition first_tx :: HsTransaction where
  "first_tx = forged_tx [] [] []"

definition minting_tx :: HsTransaction where
  "minting_tx = forged_tx [] [] [pay (HsAddress [2]) (2 ^ 63), pay (HsAddress [2]) (2 ^ 63)]"

lemma first_minting_valid:
  "validateBlockBody (demo_chain n) \<lparr>bbTransactions = [first_tx], bbVotes = []\<rparr> h = Inr \<lparr>bbTransactions = [first_tx], bbVotes = []\<rparr>"
  "validateBlockBody (demo_chain n) \<lparr>bbTransactions = [first_tx, minting_tx], bbVotes = []\<rparr> h
     = Inr \<lparr>bbTransactions = [first_tx, minting_tx], bbVotes = []\<rparr>"
  "validateBlockSize \<lparr>bbTransactions = [first_tx], bbVotes = []\<rparr> demo_params = Inr ()"
  "validateBlockSize \<lparr>bbTransactions = [first_tx, minting_tx], bbVotes = []\<rparr> demo_params = Inr ()"
  by (simp_all add: first_tx_def minting_tx_def validateBlockBody_Ok forged_tx_accepted validateBlockSize_def
      serializeBody_def serializeTransactions_def serializeVotes_def serializeTransaction_def del: validateTransaction.simps)
    (simp_all add: forged_tx_def serializeForSigning_tx_def serializeInputs_def serializeOutputs_def
      serializeOutput_def pay_def Let_def word_le_nat_alt word_less_nat_alt)

theorem body_can_be_replaced_witness:
  "let b = forged_block (demo_chain 4) (ValidatorId (HsAddress [])) 5 (MerkleRoot (txHash first_tx))
       \<lparr>bbTransactions = [first_tx], bbVotes = []\<rparr>
   in validateBlock (demo_chain 4) b demo_params = Some (Inr b)
      \<and> validateBlock (demo_chain 4) (b\<lparr>bBody := \<lparr>bbTransactions = [first_tx, minting_tx], bbVotes = []\<rparr>\<rparr>) demo_params
        = Some (Inr (b\<lparr>bBody := \<lparr>bbTransactions = [first_tx, minting_tx], bbVotes = []\<rparr>\<rparr>))"
proof -
  let ?body = "\<lparr>bbTransactions = [first_tx], bbVotes = []\<rparr>"
  let ?b = "forged_block (demo_chain 4) (ValidatorId (HsAddress [])) 5 (MerkleRoot (txHash first_tx)) ?body"
  obtain v where v: "bodyTransactionRoot ?body = Some (MerkleRoot (txHash first_tx))" "bodyVoteRoot ?body = Some v"
    "combineRoots (MerkleRoot (txHash first_tx)) v = MerkleRoot (txHash first_tx)"
    by (rule body_root_first [of ?body first_tx "[]"]) simp_all
  have "hs_succ (unBlockNumber (csTipNumber (demo_chain 4))) = Some 5" by (simp add: hs_succ_def)
  from forged_block_accepted [OF this first_minting_valid(1,3) v(1,2)] v(3)
  have b: "validateBlock (demo_chain 4) ?b demo_params = Some (Inr ?b)" by simp
  have "validateBlock (demo_chain 4) (?b\<lparr>bBody := \<lparr>bbTransactions = [first_tx, minting_tx], bbVotes = []\<rparr>\<rparr>) demo_params
    = Some (Inr (?b\<lparr>bBody := \<lparr>bbTransactions = [first_tx, minting_tx], bbVotes = []\<rparr>\<rparr>))"
    by (rule body_can_be_replaced [OF b, of first_tx "[]" _ first_tx "[minting_tx]"])
      (simp_all add: blockTransactions_def blockVotes_def first_minting_valid)
  with b show ?thesis by (simp add: Let_def)
qed

text \<open>
  C26: On lists that fit in memory validation raises an exception in exactly one case: the
  body is small enough, the parent is the tip, and the tip already has the greatest block
  number, where \<open>succ\<close> fails. In every other case it returns a verdict.
\<close>
theorem validateBlock_raises_iff:
  assumes "hs_list (blockTransactions b)" and "hs_list (blockVotes b)"
  shows "validateBlock cs b p = None \<longleftrightarrow>
    (word_of_nat (length (serializeBody (bBody b))) :: u32) \<le> ppMaxBlockSize p
    \<and> blockParentHash b = csTipHash cs \<and> unBlockNumber (csTipNumber cs) = - 1"
proof -
  have "validateBlockHeader cs (bHeader b) p = None \<longleftrightarrow>
      blockParentHash b = csTipHash cs \<and> unBlockNumber (csTipNumber cs) = - 1"
    by (auto simp: validateBlockHeader_def Let_def hs_succ_def blockParentHash_def bind_eq_None_conv)
  moreover have "(\<exists>u. validateBlockSize (bBody b) p = Inr u) \<longleftrightarrow>
      (word_of_nat (length (serializeBody (bBody b))) :: u32) \<le> ppMaxBlockSize p"
    by (auto simp: validateBlockSize_def Let_def not_less)
  ultimately show ?thesis
    using assms by (simp only: validateBlock_None blockTransactions_def blockVotes_def)
qed

theorem validateBlock_raises_iff_witness:
  "validateBlock (demo_chain (- 1)) (forged_block (demo_chain (- 1)) (ValidatorId (HsAddress [])) 0 (MerkleRoot emptyTreeHash) empty_body) demo_params = None"
  using validateBlock_raises_iff [of "forged_block (demo_chain (- 1)) (ValidatorId (HsAddress [])) 0 (MerkleRoot emptyTreeHash) empty_body" "demo_chain (- 1)" demo_params]
  by (simp add: blockTransactions_def blockVotes_def blockParentHash_def)

text \<open>
  The hash of a block does not bind its contents: two headers of nominal sizes with the
  same parent, state root, nonce and version have the same hash, whatever their numbers,
  slots, epochs, times, validators, Merkle roots and signatures are.
\<close>
lemma block_hash_ignores_contents:
  assumes "wf_header h" and "wf_header h'"
    and "bhParentHash h = bhParentHash h'" and "bhStateRoot h = bhStateRoot h'"
    and "bhNonce h = bhNonce h'" and "bhVersion h = bhVersion h'"
  shows "hashBlockHeader h = hashBlockHeader h'"
proof -
  let ?mid = "\<lambda>h :: BlockHeader. serializeWord64_block (unBlockNumber (bhBlockNumber h))
    @ serializeWord64_block (unSlotNumber (bhSlotNumber h)) @ serializeWord64_block (unEpochNumber (bhEpochNumber h))
    @ serializeTimestamp (bhTimestamp h) @ serializeValidatorId (bhValidator h)
    @ unHash (unMerkleRoot (bhMerkleRoot h))"
  let ?tail = "\<lambda>h :: BlockHeader. unHash (bhStateRoot h) @ serializeWord64_block (bhNonce h)
    @ serializeWord32_block (bhVersion h)"
  have split: "serializeHeader k = unHash (bhParentHash k) @ ?mid k @ ?tail k" for k :: BlockHeader
    by (simp add: serializeHeader_def)
  have "hs_sha3_256 (unHash (bhParentHash h) @ ?mid h @ ?tail h)
      = hs_sha3_256 (unHash (bhParentHash h) @ ?mid h' @ ?tail h)"
    using assms(1,2) by (intro hs_sha3_256_middle) (simp_all add: wf_header_def addressLength_def)
  then show ?thesis unfolding hashBlockHeader_def hs_hash_def split using assms(3-6) by simp
qed


abbreviation demo_header :: "u64 \<Rightarrow> BlockHeader" where
  "demo_header n \<equiv> \<lparr>bhParentHash = HsHash (replicate 32 0), bhBlockNumber = BlockNumber n,
     bhSlotNumber = SlotNumber 0, bhEpochNumber = EpochNumber 0, bhTimestamp = 0,
     bhValidator = ValidatorId (HsAddress (replicate 20 0)), bhMerkleRoot = MerkleRoot (HsHash (replicate 32 0)),
     bhStateRoot = HsHash (replicate 32 0), bhNonce = 0, bhVersion = 1, bhSignature = HsSignature []\<rparr>"

lemma block_hash_ignores_contents_witness:
  "hashBlockHeader (demo_header 1) = hashBlockHeader (demo_header 2)"
  by (rule block_hash_ignores_contents) (simp_all add: wf_header_def addressLength_def)

text \<open>
  C28: Anyone can extend the chain in the name of any validator: if the tip does not have the
  greatest block number, the body passes the checks on transactions and on size, and its two
  lists fit in memory, then \<open>outsider_block\<close>, a function of the chain state, the validator's
  identifier and the body and of no key, returns a block with that body and that producer, and
  validation accepts it.
\<close>
theorem anyone_extends_chain:
  assumes "unBlockNumber (csTipNumber cs) \<noteq> - 1" and "validateBlockBody cs body h = Inr body"
    and "validateBlockSize body p = Inr ()" and "hs_list (bbTransactions body)" and "hs_list (bbVotes body)"
  shows "\<exists>b. outsider_block cs v body = Some b \<and> validateBlock cs b p = Some (Inr b)
    \<and> bBody b = body \<and> blockValidator b = v"
proof -
  obtain t w where "bodyTransactionRoot body = Some t" "bodyVoteRoot body = Some w"
    using assms(4,5) computeMerkleRoot_Some unfolding bodyTransactionRoot_def bodyVoteRoot_def
    by (metis length_map)
  moreover have "hs_succ (unBlockNumber (csTipNumber cs)) = Some (unBlockNumber (csTipNumber cs) + 1)"
    using assms(1) by (simp add: hs_succ_def)
  ultimately show ?thesis
    using forged_block_accepted [OF _ assms(2,3)] by (simp add: outsider_block_def blockValidator_def)
qed

theorem anyone_extends_chain_witness:
  "\<exists>b. outsider_block (demo_chain 4) (ValidatorId (HsAddress [9])) empty_body = Some b
     \<and> validateBlock (demo_chain 4) b demo_params = Some (Inr b) \<and> bBody b = empty_body
     \<and> blockValidator b = ValidatorId (HsAddress [9])"
  by (rule anyone_extends_chain) simp_all

text \<open>
  C27: The package refuses its own blocks: a block without transactions that
  \<open>createBlock\<close> builds on the tip, with a key pair of this package, a 20-byte validator
  identifier and a clock below \<open>2 ^ 55\<close> seconds, fails validation with an invalid
  signature. The signer uses the private key, the verifier takes the address for the
  public key.
\<close>
theorem created_block_refused:
  assumes "createBlock now parent slot epoch v (fst (generateKeyPairFromSeed seed)) [] votes (UTxOSet m) = Some (Inr b)"
    and "length seed = 32" and "length (serializeValidatorId v) = addressLength"
    and "0 \<le> now" and "now < 10 ^ 12 * 2 ^ 55" and "hs_list votes" and "hs_list m"
    and "csTipHash cs = hashBlockHeader parent" and "csTipNumber cs = bhBlockNumber parent"
    and "validateBlockSize (bBody b) p = Inr ()"
  shows "validateBlock cs b p = Some (Inl VEInvalidSignature)"
  using assms(1)
proof (rule createBlock_Ok)
  fix n t w r h sig
  let ?times = "serializeWord64_block (unSlotNumber slot) @ serializeWord64_block (unEpochNumber epoch)
    @ serializeTimestamp now @ take 8 (serializeValidatorId v)"
  assume n: "hs_succ (unBlockNumber (bhBlockNumber parent)) = Some n"
    and t: "computeMerkleRoot (map txHash []) = Some t" and w: "computeMerkleRoot (map voteHash votes) = Some w"
    and r: "computeStateRoot (UTxOSet m) = Some r"
    and h: "h = \<lparr>bhParentHash = hashBlockHeader parent, bhBlockNumber = BlockNumber n, bhSlotNumber = slot,
      bhEpochNumber = epoch, bhTimestamp = now, bhValidator = v,
      bhMerkleRoot = combineRoots t w, bhStateRoot = r, bhNonce = 0, bhVersion = 1,
      bhSignature = HsSignature []\<rparr>"
    and sig: "signBlock (fst (generateKeyPairFromSeed seed)) h = Inr sig"
    and b: "b = \<lparr>bHeader = h\<lparr>bhSignature := sig\<rparr>, bBody = \<lparr>bbTransactions = [], bbVotes = votes\<rparr>\<rparr>"
  have "wf_HsHash (unMerkleRoot w)"
    using w assms(6) wf_computeRoot [of "map voteHash votes"]
    by (auto simp: computeMerkleRoot_def list_all_iff voteHash_def)
  then have root: "combineRoots t w = MerkleRoot emptyTreeHash"
    using t by (cases w) (auto simp: computeMerkleRoot_def emptyTreeHash_def wf_HsHash_def
        intro!: combineHashes_left)
  have "wf_header h"
    using assms(3) wf_computeStateRoot [OF assms(7) r] root
    by (simp add: wf_header_def h hashBlockHeader_def hs_hash_def emptyTreeHash_def)
  have "absorb ?times (replicate 16 0 @ 0x06 # replicate 15 0) ! 16 = 0x06"
    using assms(3) serializeTimestamp_first [OF assms(4,5)] by (simp add: absorb_def nth_append addressLength_def)
  moreover have "(replicate 32 0 :: u8 list) ! 16 = 0" by (rule nth_replicate) simp
  ultimately have "replicate 32 0 \<noteq> absorb ?times (replicate 16 0 @ 0x06 # replicate 15 0)" by force
  then have "\<not> verifyBlockSignature (h\<lparr>bhSignature := sig\<rparr>)"
    using signed_header_verifies_iff [OF \<open>wf_header h\<close> assms(2) sig] root by (simp add: h emptyTreeHash_def)
  then show ?thesis
    using n b h assms(8-10) by (simp add: validateBlock_def validateBlockHeader_def Let_def)
qed

theorem created_block_refused_witness:
  "\<exists>b. createBlock 0 (demo_header 4) (SlotNumber 0) (EpochNumber 0) (ValidatorId (HsAddress (replicate 20 0)))
       (fst (generateKeyPairFromSeed (replicate 32 7))) [] [] (UTxOSet []) = Some (Inr b)
     \<and> validateBlock ((demo_chain 4)\<lparr>csTipHash := hashBlockHeader (demo_header 4)\<rparr>) b demo_params
       = Some (Inl VEInvalidSignature)"
proof -
  obtain b where b: "createBlock 0 (demo_header 4) (SlotNumber 0) (EpochNumber 0) (ValidatorId (HsAddress (replicate 20 0)))
       (fst (generateKeyPairFromSeed (replicate 32 7))) [] [] (UTxOSet []) = Some (Inr b)" and "bBody b = empty_body"
    using createBlock_returns [of "demo_header 4" "[]" "[]" "[]" 0 "SlotNumber 0" "EpochNumber 0"
        "ValidatorId (HsAddress (replicate 20 0))" "fst (generateKeyPairFromSeed (replicate 32 7))"]
    by auto
  then have "validateBlock ((demo_chain 4)\<lparr>csTipHash := hashBlockHeader (demo_header 4)\<rparr>) b demo_params
       = Some (Inl VEInvalidSignature)"
    by (intro created_block_refused [OF b]) (simp_all add: addressLength_def)
  with b show ?thesis by blast
qed

end
