(* ===== verification/Hs_Consensus.thy ===== *)
theory Hs_Consensus
  imports Hs_Block Complex_Main
begin

text \<open>
  The module \<open>CryptoCoin.Consensus.Types\<close> and the choice of a proposer of
  \<open>CryptoCoin.Consensus.Engine\<close>. The source declares \<open>viAddress\<close> as an address and
  uses it as a validator identifier; the model gives it the type of its uses. A
  \<open>Double\<close> is only stored. Powers are 64-bit words, and the sums and products of
  \<open>superMajority\<close> wrap.
\<close>

section \<open>Validators\<close>

datatype ValidatorPower = ValidatorPower (unValidatorPower: u64)

datatype ValidatorStatus = Active | Inactive | Jailed | Tombstoned | Unbonding

record ValidatorInfo =
  viAddress :: ValidatorId
  viPower :: ValidatorPower
  viStatus :: ValidatorStatus
  viPubKey :: HsPublicKey
  viVrfKey :: HsPublicKey
  viEndpoint :: "u8 list"
  viMetadata :: "u8 list"

record EpochValidatorSet =
  vsValidators :: "ValidatorInfo list"
  vsTotalPower :: ValidatorPower
  vsEpoch :: EpochNumber
  vsHash :: BlockHash

section \<open>Rounds\<close>

datatype ConsensusRound = ConsensusRound (unConsensusRound: u64)

datatype ConsensusStep = ProposePhase | PrevotePhase | PrecommitPhase | CommitPhase

record HsConsensusState =
  csRound :: ConsensusRound
  csStep :: ConsensusStep
  csProposedBlock :: "BlockHash exec option"
  csValidatorSet :: EpochValidatorSet
  csLockedBlock :: "BlockHash option"
  csLockedRound :: "ConsensusRound option"
  csValidBlock :: "BlockHash option"
  csValidRound :: "ConsensusRound option"
  csDecision :: "BlockHash option"
  csRoundStart :: Timestamp
  csTimeout :: u64

record ConsensusConfig =
  ccTimeoutPropose :: u64
  ccTimeoutPrevote :: u64
  ccTimeoutPrecommit :: u64
  ccTimeoutCommit :: u64
  ccMaxBlockSize :: u64
  ccMaxTxPerBlock :: u64
  ccSuperMajority :: rat
  ccRoundInterval :: u64

section \<open>Messages\<close>

datatype PBFTRound = PBFTRound (unPBFTRound: u64)

datatype PBFTPhase = PBFTPrePrepare | PBFTPrepare | PBFTCommit

record PBFTMessage =
  pbType :: PBFTPhase
  pbRound :: PBFTRound
  pbView :: u64
  pbBlock :: "BlockHash option"
  pbSender :: ValidatorId
  pbSig :: HsSignature

record PBFTProof =
  ppPrePrepare :: PBFTMessage
  ppPrepares :: "PBFTMessage list"
  ppCommits :: "PBFTMessage list"

record ViewChange =
  vcNewView :: u64
  vcLastRound :: ConsensusRound
  vcPreparedProof :: "PBFTProof option"
  vcSender :: ValidatorId
  vcSig :: HsSignature

record NewView =
  nvView :: u64
  nvPrePrepares :: "PBFTMessage list"
  nvSender :: ValidatorId
  nvSig :: HsSignature

record ProposalMsg =
  pmBlock :: HsBlock
  pmRound :: ConsensusRound
  pmValidRound :: "ConsensusRound option"
  pmProposer :: ValidatorId
  pmSignature :: HsSignature

record PrevoteMsg =
  prBlockHash :: "BlockHash option"
  prRound :: ConsensusRound
  prSender :: ValidatorId
  prSignature :: HsSignature

record PrecommitMsg =
  pcBlockHash :: "BlockHash option"
  pcRound :: ConsensusRound
  pcSender :: ValidatorId
  pcSignature :: HsSignature

record CommitMsg =
  cmBlockHash :: BlockHash
  cmRound :: ConsensusRound
  cmSender :: ValidatorId
  cmSignature :: HsSignature

datatype ConsensusMessage =
    CProposal ProposalMsg
  | CPrevote PrevoteMsg
  | CPrecommit PrecommitMsg
  | CCommit CommitMsg
  | CViewChange ViewChange
  | CNewView NewView

record ViewChangeProof =
  vcpViewChanges :: "ViewChange list"
  vcpNewView :: NewView

text \<open>The source names a type \<open>Error\<close> that it does not define.\<close>

datatype 'error ConsensusResult = ConsensusSuccess HsBlock | ConsensusTimeout | ConsensusFailure 'error

section \<open>Beacon and checkpoints\<close>

datatype BeaconRound = BeaconRound (unBeaconRound: u64)

record BeaconContribution =
  bcValidator :: ValidatorId
  bcValue :: HsHash
  bcProof :: "u8 list"
  bcSig :: HsSignature

record BeaconProof =
  bpContributions :: "BeaconContribution list"
  bpAggregateSig :: HsSignature

record BeaconOutput =
  boRound :: BeaconRound
  boValue :: HsHash
  boProof :: BeaconProof

record Checkpoint =
  cpHeight :: BlockNumber
  cpHash :: BlockHash
  cpState :: HsHash

record CheckpointProof =
  cppCheckpoint :: Checkpoint
  cppSignatures :: "(ValidatorId \<times> HsSignature) list"

record ConsensusCheckpoint =
  ccCheckpoint :: Checkpoint
  ccProof :: CheckpointProof
  ccEpoch :: EpochNumber
  ccTimestamp :: Timestamp

section \<open>Quorums\<close>

definition validatorSetSize :: "EpochValidatorSet \<Rightarrow> hs_Int" where
  "validatorSetSize vset = hs_length (vsValidators vset)"

definition superMajority :: "EpochValidatorSet \<Rightarrow> ValidatorId set \<Rightarrow> bool" where
  "superMajority vset voters =
     (let totalPower = unValidatorPower (vsTotalPower vset);
          voterPower = sum_list [unValidatorPower (viPower v). v \<leftarrow> vsValidators vset, viAddress v \<in> voters]
      in voterPower * 3 > totalPower * 2)"

definition superMajorityCount :: "EpochValidatorSet \<Rightarrow> int" where
  "superMajorityCount vset = (let n = validatorSetSize vset in sint (n * 2) div 3 + 1)"

definition isValidatorActive :: "ValidatorInfo \<Rightarrow> bool" where
  "isValidatorActive v \<longleftrightarrow> viStatus v = Active"

definition activeValidators :: "EpochValidatorSet \<Rightarrow> ValidatorInfo list" where
  "activeValidators vset = filter isValidatorActive (vsValidators vset)"

definition validatorPower :: "EpochValidatorSet \<Rightarrow> ValidatorId \<Rightarrow> ValidatorPower" where
  "validatorPower vset vid =
     (case map_of [(viAddress v, viPower v). v \<leftarrow> vsValidators vset] vid of
        Some p \<Rightarrow> p
      | None \<Rightarrow> ValidatorPower 0)"

definition roundInterval :: "ConsensusConfig \<Rightarrow> u64" where
  "roundInterval c = ccRoundInterval c"

section \<open>Proposers\<close>

text \<open>
  \<open>fromIntegral\<close> takes the round to a signed \<open>Int\<close>; \<open>mod\<close> by zero raises.
\<close>

fun roundProposer :: "ConsensusRound \<Rightarrow> EpochValidatorSet \<Rightarrow> ValidatorId exec" where
  "roundProposer (ConsensusRound r) vset =
     (let active = activeValidators vset in
      if active = [] then None
      else let idx = sint r mod int (length active) in Some (viAddress (active ! nat idx)))"

definition shouldPropose :: "ConsensusRound \<Rightarrow> EpochValidatorSet \<Rightarrow> ValidatorId \<Rightarrow> bool exec" where
  "shouldPropose r vset validatorId = do { proposer \<leftarrow> roundProposer r vset; Some (proposer = validatorId) }"

definition isRoundProposer :: "ConsensusRound \<Rightarrow> EpochValidatorSet \<Rightarrow> ValidatorId \<Rightarrow> bool exec" where
  "isRoundProposer = shouldPropose"

section \<open>Weighted quorums\<close>

text \<open>
  What the protocol relies on: a quorum carries more than two thirds of the weight of all
  members. The laws are asked for a family of systems and hold where \<open>ok\<close> does.
\<close>

locale weighted_quorums =
  fixes members :: "'s \<Rightarrow> 'v set"
    and weight :: "'s \<Rightarrow> 'v \<Rightarrow> nat"
    and quorum :: "'s \<Rightarrow> 'v set \<Rightarrow> bool"
    and ok :: "'s \<Rightarrow> bool"
  assumes finite_members: "finite (members s)"
    and quorum_iff: "ok s \<Longrightarrow>
      quorum s Q \<longleftrightarrow> 2 * sum (weight s) (members s) < 3 * sum (weight s) (members s \<inter> Q)"
begin

lemma weight_mono: "A \<subseteq> B \<Longrightarrow> sum (weight s) (members s \<inter> A) \<le> sum (weight s) (members s \<inter> B)"
  using finite_members by (intro sum_mono2) auto

lemma quorum_superset: "ok s \<Longrightarrow> quorum s Q \<Longrightarrow> Q \<subseteq> R \<Longrightarrow> quorum s R"
  using weight_mono [of Q R s] by (simp add: quorum_iff)

lemma overlap:
  assumes "ok s" and "quorum s Q" and "quorum s R"
  shows "sum (weight s) (members s) < 3 * sum (weight s) (members s \<inter> (Q \<inter> R))"
proof -
  let ?w = "\<lambda>A. sum (weight s) (members s \<inter> A)"
  have "?w (Q \<union> R) + ?w (Q \<inter> R) = ?w Q + ?w R"
    using sum.union_inter [of "members s \<inter> Q" "members s \<inter> R" "weight s"] finite_members
    by (simp add: Int_Un_distrib Int_assoc Int_left_commute)
  moreover have "?w (Q \<union> R) \<le> sum (weight s) (members s)"
    using finite_members by (intro sum_mono2) auto
  moreover have "2 * sum (weight s) (members s) < 3 * ?w Q" "2 * sum (weight s) (members s) < 3 * ?w R"
    using assms by (simp_all add: quorum_iff)
  ultimately show ?thesis by linarith
qed

lemma honest_in_both:
  assumes "ok s" and "quorum s Q" and "quorum s R"
    and "3 * sum (weight s) (members s \<inter> F) \<le> sum (weight s) (members s)"
  shows "\<exists>v\<in>members s. v \<in> Q \<and> v \<in> R \<and> v \<notin> F"
proof (rule ccontr)
  assume "\<not> ?thesis"
  then have "members s \<inter> (Q \<inter> R) \<subseteq> members s \<inter> F" by auto
  then have "sum (weight s) (members s \<inter> (Q \<inter> R)) \<le> sum (weight s) (members s \<inter> F)"
    using finite_members by (intro sum_mono2) auto
  with overlap [OF assms(1-3)] assms(4) show False by linarith
qed

lemma honest_quorum:
  assumes "ok s" and "3 * sum (weight s) (members s \<inter> F) < sum (weight s) (members s)"
  shows "quorum s (- F)"
proof -
  have "sum (weight s) (members s) = sum (weight s) (members s \<inter> F) + sum (weight s) (members s \<inter> - F)"
    using finite_members by (subst sum.union_disjoint [symmetric]) (auto intro: arg_cong [of _ _ "sum (weight s)"])
  with assms show ?thesis by (simp add: quorum_iff)
qed

end

section \<open>The interpretation on superMajority\<close>

definition vset_members :: "EpochValidatorSet \<Rightarrow> ValidatorId set" where
  "vset_members vset = viAddress ` set (vsValidators vset)"

definition vset_weight :: "EpochValidatorSet \<Rightarrow> ValidatorId \<Rightarrow> nat" where
  "vset_weight vset vid = unat (unValidatorPower (validatorPower vset vid))"

text \<open>
  A validator set the arithmetic of \<open>superMajority\<close> is exact on: one entry per address,
  the declared total is the true one, and three times it fits a word.
\<close>

definition wf_vset :: "EpochValidatorSet \<Rightarrow> bool" where
  "wf_vset vset \<longleftrightarrow> distinct (map viAddress (vsValidators vset))
     \<and> unat (unValidatorPower (vsTotalPower vset)) = sum_list (map (\<lambda>v. unat (unValidatorPower (viPower v))) (vsValidators vset))
     \<and> 3 * unat (unValidatorPower (vsTotalPower vset)) < 2 ^ 64"

lemma vset_weight_member:
  assumes "distinct (map viAddress (vsValidators vset))" and "v \<in> set (vsValidators vset)"
  shows "vset_weight vset (viAddress v) = unat (unValidatorPower (viPower v))"
proof -
  have "map_of (map (\<lambda>v. (viAddress v, viPower v)) (vsValidators vset)) (viAddress v) = Some (viPower v)"
    using assms by (intro map_of_is_SomeI) (auto simp: o_def)
  then show ?thesis by (simp add: vset_weight_def validatorPower_def)
qed

lemma sum_list_voters:
  assumes "distinct (map viAddress (vsValidators vset))"
  shows "sum_list (map (\<lambda>v. unat (unValidatorPower (viPower v))) (filter (\<lambda>v. viAddress v \<in> Q) (vsValidators vset)))
    = sum (vset_weight vset) (vset_members vset \<inter> Q)"
proof -
  let ?f = "filter (\<lambda>v. viAddress v \<in> Q) (vsValidators vset)"
  have inj: "inj_on viAddress (set (vsValidators vset))" and dist: "distinct (vsValidators vset)"
    using assms by (simp_all add: distinct_map)
  have "vset_members vset \<inter> Q = viAddress ` set ?f" by (auto simp: vset_members_def)
  moreover have "inj_on viAddress (set ?f)" using inj by (rule inj_on_subset) auto
  ultimately have "sum (vset_weight vset) (vset_members vset \<inter> Q) = sum (\<lambda>v. vset_weight vset (viAddress v)) (set ?f)"
    by (simp add: sum.reindex)
  also have "\<dots> = sum (\<lambda>v. unat (unValidatorPower (viPower v))) (set ?f)"
    using assms by (intro sum.cong) (auto simp: vset_weight_member)
  finally show ?thesis using dist by (simp add: sum_list_distinct_conv_sum_set)
qed

lemma concat_if_filter: "concat (map (\<lambda>x. if P x then [f x] else []) xs) = map f (filter P xs)"
  by (induction xs) auto

lemma superMajority_iff:
  assumes "wf_vset vset"
  shows "superMajority vset Q \<longleftrightarrow>
    2 * sum (vset_weight vset) (vset_members vset) < 3 * sum (vset_weight vset) (vset_members vset \<inter> Q)"
proof -
  let ?pow = "\<lambda>v :: ValidatorInfo. unValidatorPower (viPower v)"
  let ?vs = "vsValidators vset" and ?t = "unValidatorPower (vsTotalPower vset)"
  let ?q = "filter (\<lambda>v. viAddress v \<in> Q) ?vs"
  have total: "unat ?t = sum (vset_weight vset) (vset_members vset)"
    using assms sum_list_voters [of vset UNIV] by (simp add: wf_vset_def)
  have voters: "sum_list (map (\<lambda>v. unat (?pow v)) ?q) = sum (vset_weight vset) (vset_members vset \<inter> Q)"
    using assms by (intro sum_list_voters) (simp add: wf_vset_def)
  have "sum (vset_weight vset) (vset_members vset \<inter> Q) \<le> sum (vset_weight vset) (vset_members vset)"
    by (intro sum_mono2) (auto simp: vset_members_def)
  then have small: "3 * sum_list (map (\<lambda>v. unat (?pow v)) ?q) < 2 ^ 64"
    using assms total voters by (simp add: wf_vset_def)
  then have q: "unat (sum_list (map ?pow ?q)) = sum_list (map (\<lambda>v. unat (?pow v)) ?q)"
    by (simp add: unat_sum_list o_def)
  have "unat (sum_list (map ?pow ?q) * 3) = 3 * sum_list (map (\<lambda>v. unat (?pow v)) ?q)"
    using small q by (simp add: unat_word_ariths)
  moreover have "unat (?t * 2) = 2 * unat ?t"
    using assms by (simp add: wf_vset_def unat_word_ariths)
  ultimately show ?thesis
    using total voters by (simp add: superMajority_def Let_def concat_if_filter word_less_nat_alt)
qed

interpretation sm: weighted_quorums vset_members vset_weight superMajority wf_vset
  by unfold_locales (simp_all add: vset_members_def superMajority_iff [unfolded vset_members_def])

text \<open>No votes are never a quorum, whatever the arithmetic does.\<close>

lemma concat_map_Nil: "concat (map (\<lambda>x. []) xs) = []"
  by (induction xs) simp_all

lemma superMajority_empty [simp]: "\<not> superMajority vset {}"
  by (simp add: superMajority_def concat_map_Nil)

section \<open>Rotation\<close>

lemma roundProposer_eq:
  assumes "activeValidators vset \<noteq> []" and "unat r < 2 ^ 63"
  shows "roundProposer (ConsensusRound r) vset
    = Some (viAddress (activeValidators vset ! (unat r mod length (activeValidators vset))))"
proof -
  have "int (unat r) < int (2 ^ 63)" using assms(2) by (simp only: of_nat_less_iff)
  moreover have "- (2 ^ 63) \<le> int (unat r)" by (rule order_trans [of _ 0]) simp_all
  ultimately have "sint r = int (unat r)" using sint_word_of_int [of "int (unat r)"] by simp
  then have "nat (sint r mod int (length (activeValidators vset))) = unat r mod length (activeValidators vset)"
    by (simp only: zmod_int [symmetric] nat_int)
  with assms(1) show ?thesis by (simp add: Let_def)
qed

lemma roundProposer_active:
  "roundProposer r vset = Some a \<Longrightarrow> \<exists>v\<in>set (activeValidators vset). viAddress v = a"
proof (cases r)
  case (ConsensusRound w)
  let ?n = "length (activeValidators vset)"
  assume a: "roundProposer r vset = Some a"
  then have ne: "activeValidators vset \<noteq> []" and eq: "a = viAddress (activeValidators vset ! nat (sint w mod int ?n))"
    using ConsensusRound by (auto simp: Let_def split: if_splits)
  have "sint w mod int ?n < int ?n" using ne by (intro pos_mod_bound) simp
  then have "nat (sint w mod int ?n) < ?n" using ne by (simp add: nat_less_iff)
  then show ?thesis using eq nth_mem by blast
qed

lemma roundProposer_None: "roundProposer r vset = None \<longleftrightarrow> activeValidators vset = []"
  by (cases r) (simp add: Let_def)

lemma roundProposer_turn:
  assumes "v \<in> set (activeValidators vset)" and "unat r + length (activeValidators vset) \<le> 2 ^ 63"
  shows "\<exists>j<length (activeValidators vset).
    roundProposer (ConsensusRound (r + word_of_nat j)) vset = Some (viAddress v)"
proof -
  let ?n = "length (activeValidators vset)"
  from assms(1) obtain i where i: "i < ?n" "activeValidators vset ! i = v" by (auto simp: in_set_conv_nth)
  define j where "j = (i + (?n - unat r mod ?n)) mod ?n"
  have n: "0 < ?n" using i by linarith
  then have j: "j < ?n" by (simp add: j_def)
  have "(unat r + j) mod ?n = (unat r mod ?n + (i + (?n - unat r mod ?n))) mod ?n"
    unfolding j_def by (simp add: mod_simps)
  also have "unat r mod ?n + (i + (?n - unat r mod ?n)) = i + ?n" using mod_less_divisor [OF n, of "unat r"] by linarith
  finally have mod: "(unat r + j) mod ?n = i" using i by simp
  have "unat (r + word_of_nat j) = unat r + j"
    using j assms(2) by (simp add: unat_word_ariths unat_of_nat)
  then have "roundProposer (ConsensusRound (r + word_of_nat j)) vset = Some (viAddress v)"
    using i n j assms(2) mod by (subst roundProposer_eq) (auto simp flip: length_greater_0_conv)
  with j show ?thesis by blast
qed

section \<open>Properties\<close>

text \<open>
  C5: Two different blocks cannot both be backed by a super-majority. The validator set has
  distinct addresses, its declared total is the sum of the powers, and three times the total is
  below \<open>2 ^ 64\<close> (\<open>wf_vset\<close>); the faulty validators hold at most a third of the power and no
  other validator votes for two blocks. Then two blocks with a super-majority of votes are the
  same.
\<close>
theorem no_conflicting_superMajorities:
  assumes "wf_vset vset"
    and "3 * sum (vset_weight vset) (vset_members vset \<inter> faulty) \<le> sum (vset_weight vset) (vset_members vset)"
    and "\<forall>v b c. v \<notin> faulty \<and> votes v b \<and> votes v c \<longrightarrow> b = c"
    and "superMajority vset {v. votes v b}" and "superMajority vset {v. votes v c}"
  shows "b = c"
  using sm.honest_in_both [OF assms(1,4,5,2)] assms(3) by blast

abbreviation demo_validator :: "u8 \<Rightarrow> u64 \<Rightarrow> ValidatorStatus \<Rightarrow> ValidatorInfo" where
  "demo_validator i w st \<equiv> \<lparr>viAddress = ValidatorId (HsAddress [i]), viPower = ValidatorPower w, viStatus = st,
     viPubKey = HsPublicKey [], viVrfKey = HsPublicKey [], viEndpoint = [], viMetadata = []\<rparr>"

definition demo_vset :: "EpochValidatorSet" where
  "demo_vset = \<lparr>vsValidators = [demo_validator 1 1 Active, demo_validator 2 1 Active, demo_validator 3 1 Active],
     vsTotalPower = ValidatorPower 3, vsEpoch = EpochNumber 0, vsHash = HsHash []\<rparr>"

lemma wf_demo_vset: "wf_vset demo_vset"
  by (simp add: wf_vset_def demo_vset_def)

theorem no_conflicting_superMajorities_witness:
  "superMajority demo_vset {v. HsHash [] = HsHash []} \<and> \<not> superMajority demo_vset {v. HsHash [] = HsHash [1]}"
proof -
  have all: "superMajority demo_vset {v. HsHash [] = HsHash []}" by (simp add: superMajority_def demo_vset_def)
  have "superMajority demo_vset {v. HsHash [] = HsHash [1]} \<Longrightarrow> HsHash [] = HsHash [1]"
    using no_conflicting_superMajorities [OF wf_demo_vset, of "{}" "\<lambda>v b. HsHash [] = b" "HsHash []" "HsHash [1]"] all
    by simp
  with all show ?thesis by blast
qed

text \<open>
  C21: The honest validators are enough. The validator set has distinct addresses, its declared
  total is the sum of the powers, and three times the total is below \<open>2 ^ 64\<close> (\<open>wf_vset\<close>). If
  the faulty ones hold less than a third of the power, all addresses that are not faulty form a
  super-majority.
\<close>
theorem honest_superMajority:
  assumes "wf_vset vset"
    and "3 * sum (vset_weight vset) (vset_members vset \<inter> faulty) < sum (vset_weight vset) (vset_members vset)"
  shows "superMajority vset (- faulty)"
  using assms by (rule sm.honest_quorum)

theorem honest_superMajority_witness: "superMajority demo_vset (- {ValidatorId (HsAddress [9])})"
proof -
  have "vset_members demo_vset \<inter> {ValidatorId (HsAddress [9])} = {}"
    by (simp add: vset_members_def demo_vset_def)
  moreover have "sum (vset_weight demo_vset) (vset_members demo_vset) = 3"
    using sum_list_voters [of demo_vset UNIV] wf_demo_vset by (simp add: wf_vset_def) (simp add: demo_vset_def)
  ultimately show ?thesis by (intro honest_superMajority wf_demo_vset) simp
qed

text \<open>
  When the total power is \<open>2 ^ 63\<close>, doubling it wraps to zero and a single validator
  of power one is a super-majority.
\<close>
lemma superMajority_overflow:
  assumes "vsTotalPower vset = ValidatorPower (2 ^ 63)"
    and "filter (\<lambda>v. viAddress v = a) (vsValidators vset) = [v]" and "viPower v = ValidatorPower 1"
  shows "superMajority vset {a}"
  using assms by (simp add: superMajority_def concat_if_filter)

lemma superMajority_overflow_witness:
  "superMajority \<lparr>vsValidators = [demo_validator 1 1 Active, demo_validator 2 (2 ^ 63 - 1) Active],
     vsTotalPower = ValidatorPower (2 ^ 63), vsEpoch = EpochNumber 0, vsHash = HsHash []\<rparr> {ValidatorId (HsAddress [1])}"
  by (rule superMajority_overflow [where v = "demo_validator 1 1 Active"]) simp_all

text \<open>
  C20: Every active validator gets its turn: with \<open>n\<close> active validators, among the \<open>n\<close>
  rounds from \<open>r\<close> on, \<open>r + n \<le> 2 ^ 63\<close>, there is one in which it is the proposer. The bound is
  needed, since the code reads the round as a signed \<open>Int\<close> and the rotation jumps at \<open>2 ^ 63\<close>.
\<close>
theorem every_validator_proposes:
  assumes "v \<in> set (activeValidators vset)" and "unat r + length (activeValidators vset) \<le> 2 ^ 63"
  shows "\<exists>j<length (activeValidators vset).
    roundProposer (ConsensusRound (r + word_of_nat j)) vset = Some (viAddress v)"
  using assms by (rule roundProposer_turn)

theorem every_validator_proposes_witness:
  "\<exists>j<3. roundProposer (ConsensusRound (5 + word_of_nat j)) demo_vset = Some (ValidatorId (HsAddress [1]))"
  using every_validator_proposes [of "demo_validator 1 1 Active" demo_vset 5]
  by (simp add: activeValidators_def demo_vset_def isValidatorActive_def numeral_3_eq_3 del: roundProposer.simps)

end
