(* ===== verification/Hs_Engine.thy ===== *)
theory Hs_Engine
  imports Hs_Consensus "HOL-Library.Option_ord"
begin

text \<open>
  The module \<open>CryptoCoin.Consensus.Engine\<close>. The transactional variables of an engine
  are fields of a record, and each handler is a function from engine to engine; one that may
  raise returns \<open>None\<close> for that. The clock reading is the argument \<open>now\<close>.
  \<open>proposeBlock\<close> fills a strict field with \<open>undefined\<close>, so the message it queues
  raises when it is looked at: a queue element is a \<open>ConsensusMessage exec\<close>. The handlers
  read the block hash of a proposal with a function \<open>pmBlockHash\<close> that the package does
  not define; it is the parameter \<open>pmBlockHash\<close>. \<open>handlePrecommit\<close> passes its round where
  \<open>startNextRound\<close> takes a state; the model passes the state that round was read from.
\<close>

section \<open>State\<close>

record ConsensusMetrics =
  cmRoundsCompleted :: u64
  cmBlocksProposed :: u64
  cmBlocksCommitted :: u64
  cmViewChanges :: u64
  cmTimeouts :: u64
  cmAvgLatency :: rat

record ConsensusEngine =
  ceState :: HsConsensusState
  ceConfig :: ConsensusConfig
  cePrivKey :: HsPrivateKey
  cePubKey :: HsPublicKey
  ceValidator :: ValidatorId
  ceMsgQueue :: "ConsensusMessage exec list"
  ceDecisions :: "HsBlock list"
  ceMetrics :: ConsensusMetrics

definition newConsensusEngine ::
  "Timestamp \<Rightarrow> ConsensusConfig \<Rightarrow> HsPrivateKey \<Rightarrow> HsPublicKey \<Rightarrow> ValidatorId \<Rightarrow> EpochValidatorSet \<Rightarrow> ConsensusEngine" where
  "newConsensusEngine now config privKey pubKey validator vset =
     (let initState = \<lparr>csRound = ConsensusRound 0, csStep = ProposePhase, csProposedBlock = None,
            csValidatorSet = vset, csLockedBlock = None, csLockedRound = None, csValidBlock = None,
            csValidRound = None, csDecision = None, csRoundStart = now,
            csTimeout = ccTimeoutPropose config\<rparr>
      in \<lparr>ceState = initState, ceConfig = config, cePrivKey = privKey, cePubKey = pubKey,
          ceValidator = validator, ceMsgQueue = [], ceDecisions = [],
          ceMetrics = \<lparr>cmRoundsCompleted = 0, cmBlocksProposed = 0, cmBlocksCommitted = 0,
            cmViewChanges = 0, cmTimeouts = 0, cmAvgLatency = 0\<rparr>\<rparr>)"

text \<open>The derived order of rounds; \<open>Nothing\<close> is below every \<open>Just\<close>.\<close>

instantiation ConsensusRound :: linorder
begin

definition less_eq_ConsensusRound :: "ConsensusRound \<Rightarrow> ConsensusRound \<Rightarrow> bool" where
  "less_eq_ConsensusRound a b \<longleftrightarrow> unConsensusRound a \<le> unConsensusRound b"

definition less_ConsensusRound :: "ConsensusRound \<Rightarrow> ConsensusRound \<Rightarrow> bool" where
  "less_ConsensusRound a b \<longleftrightarrow> unConsensusRound a < unConsensusRound b"

instance
  by standard (auto simp: less_eq_ConsensusRound_def less_ConsensusRound_def ConsensusRound.expand)

end

section \<open>Signing\<close>

fun serializeConsensusRound :: "ConsensusRound \<Rightarrow> u8 list" where
  "serializeConsensusRound (ConsensusRound w) =
     [ucast (drop_bit 56 w), ucast (drop_bit 48 w), ucast (drop_bit 40 w), ucast (drop_bit 32 w),
      ucast (drop_bit 24 w), ucast (drop_bit 16 w), ucast (drop_bit 8 w), ucast w]"

fun serializeValidatorId_engine :: "ValidatorId \<Rightarrow> u8 list" where
  "serializeValidatorId_engine (ValidatorId (HsAddress b)) = b"

fun serializeBlockHash :: "BlockHash \<Rightarrow> u8 list" where
  "serializeBlockHash (HsHash b) = b"

definition serializeProposal :: "ConsensusRound \<Rightarrow> ValidatorId \<Rightarrow> u8 list" where
  "serializeProposal r validator = serializeConsensusRound r @ serializeValidatorId_engine validator"

definition serializePrevote :: "BlockHash option \<Rightarrow> ConsensusRound \<Rightarrow> u8 list" where
  "serializePrevote mHash r =
     (case mHash of Some h \<Rightarrow> serializeBlockHash h | None \<Rightarrow> replicate 32 0) @ serializeConsensusRound r"

definition serializePrecommit :: "BlockHash option \<Rightarrow> ConsensusRound \<Rightarrow> u8 list" where
  "serializePrecommit mHash r = serializePrevote mHash r"

definition signMessage :: "ConsensusEngine \<Rightarrow> u8 list \<Rightarrow> HsSignature" where
  "signMessage engine data =
     (case hs_sign (cePrivKey engine) data of Some sig \<Rightarrow> sig | None \<Rightarrow> HsSignature [])"

section \<open>Sending\<close>

definition broadcastMessage :: "ConsensusEngine \<Rightarrow> ConsensusMessage \<Rightarrow> ConsensusEngine" where
  "broadcastMessage engine msg = engine\<lparr>ceMsgQueue := Some msg # ceMsgQueue engine\<rparr>"

definition sendPrevote :: "ConsensusEngine \<Rightarrow> BlockHash option \<Rightarrow> ConsensusEngine" where
  "sendPrevote engine blockHash =
     (let state = ceState engine;
          prevote = \<lparr>prBlockHash = blockHash, prRound = csRound state, prSender = ceValidator engine,
            prSignature = signMessage engine (serializePrevote blockHash (csRound state))\<rparr>
      in broadcastMessage engine (CPrevote prevote))"

definition sendPrecommit :: "ConsensusEngine \<Rightarrow> BlockHash option \<Rightarrow> ConsensusEngine" where
  "sendPrecommit engine blockHash =
     (let state = ceState engine;
          precommit = \<lparr>pcBlockHash = blockHash, pcRound = csRound state, pcSender = ceValidator engine,
            pcSignature = signMessage engine (serializePrecommit blockHash (csRound state))\<rparr>
      in broadcastMessage engine (CPrecommit precommit))"

section \<open>Transitions\<close>

definition collectVotes :: "ConsensusEngine \<Rightarrow> ConsensusStep \<Rightarrow> ConsensusRound \<Rightarrow> 'a list" where
  "collectVotes engine phase r = []"

definition collectViewChanges :: "ConsensusEngine \<Rightarrow> u64 \<Rightarrow> ViewChange list" where
  "collectViewChanges engine targetView = []"

definition transitionStep :: "ConsensusEngine \<Rightarrow> ConsensusStep \<Rightarrow> ConsensusEngine" where
  "transitionStep engine newStep = engine\<lparr>ceState := (ceState engine)\<lparr>csStep := newStep\<rparr>\<rparr>"

definition commitBlock :: "ConsensusEngine \<Rightarrow> BlockHash \<Rightarrow> ConsensusEngine" where
  "commitBlock engine blockHash =
     engine\<lparr>ceMetrics := (ceMetrics engine)\<lparr>cmBlocksCommitted := cmBlocksCommitted (ceMetrics engine) + 1\<rparr>\<rparr>"

definition finalizeBlock :: "ConsensusEngine \<Rightarrow> BlockHash \<Rightarrow> ConsensusEngine" where
  "finalizeBlock engine blockHash = engine\<lparr>ceState := (ceState engine)\<lparr>csDecision := Some blockHash\<rparr>\<rparr>"

definition startNextRound :: "Timestamp \<Rightarrow> ConsensusEngine \<Rightarrow> HsConsensusState \<Rightarrow> ConsensusEngine" where
  "startNextRound now engine state =
     (let newRound = ConsensusRound (unConsensusRound (csRound state) + 1);
          e1 = engine\<lparr>ceState := (ceState engine)\<lparr>csRound := newRound, csStep := ProposePhase,
            csRoundStart := now, csTimeout := ccTimeoutPropose (ceConfig engine)\<rparr>\<rparr>
      in e1\<lparr>ceMetrics := (ceMetrics e1)\<lparr>cmRoundsCompleted := cmRoundsCompleted (ceMetrics e1) + 1\<rparr>\<rparr>)"

definition timeoutHandler :: "Timestamp \<Rightarrow> ConsensusEngine \<Rightarrow> ConsensusEngine" where
  "timeoutHandler now engine =
     (let e1 = engine\<lparr>ceMetrics := (ceMetrics engine)\<lparr>cmTimeouts := cmTimeouts (ceMetrics engine) + 1\<rparr>\<rparr>
      in startNextRound now e1 (ceState e1))"

definition proposeBlock :: "ConsensusEngine \<Rightarrow> ConsensusEngine" where
  "proposeBlock engine =
     (let e1 = engine\<lparr>ceMsgQueue := None # ceMsgQueue engine,
            ceMetrics := (ceMetrics engine)\<lparr>cmBlocksProposed := cmBlocksProposed (ceMetrics engine) + 1\<rparr>\<rparr>
      in e1\<lparr>ceState := (ceState e1)\<lparr>csProposedBlock := Some None, csStep := PrevotePhase\<rparr>\<rparr>)"

section \<open>Handlers\<close>

definition handleProposal ::
  "(ProposalMsg \<Rightarrow> BlockHash) \<Rightarrow> ConsensusEngine \<Rightarrow> ProposalMsg \<Rightarrow> ConsensusEngine exec" where
  "handleProposal pmBlockHash engine proposal =
     (let state = ceState engine; r = csRound state in
      if pmRound proposal = r then do {
        isProposer \<leftarrow> isRoundProposer r (csValidatorSet state) (pmProposer proposal);
        if isProposer then
          let shouldVote = (case csLockedBlock state of
                None \<Rightarrow> True
              | Some lockedHash \<Rightarrow>
                  if pmBlockHash proposal = lockedHash then True
                  else if pmValidRound proposal > csLockedRound state then True
                  else False)
          in if shouldVote then
               let e1 = sendPrevote engine (Some (pmBlockHash proposal))
               in Some (e1\<lparr>ceState := (ceState e1)\<lparr>csStep := PrevotePhase\<rparr>\<rparr>)
             else Some engine
        else Some engine }
      else Some engine)"

definition handlePrevote :: "ConsensusEngine \<Rightarrow> PrevoteMsg \<Rightarrow> ConsensusEngine" where
  "handlePrevote engine prevote =
     (let state = ceState engine; r = csRound state; vset = csValidatorSet state;
          prevotes = (collectVotes engine PrevotePhase r :: PrevoteMsg list) in
      if superMajority vset (set (map prSender prevotes)) then
        let blockHash = (case map prBlockHash prevotes of Some h # _ \<Rightarrow> Some h | _ \<Rightarrow> None);
            e1 = engine\<lparr>ceState := (ceState engine)\<lparr>csLockedBlock := blockHash, csLockedRound := Some r,
              csValidBlock := blockHash, csValidRound := Some r, csStep := PrecommitPhase\<rparr>\<rparr>
        in sendPrecommit e1 blockHash
      else
        let nilPrevotes = filter (\<lambda>p. prBlockHash p = None) prevotes in
        if superMajority vset (set (map prSender nilPrevotes)) then
          let e1 = sendPrecommit engine None in e1\<lparr>ceState := (ceState e1)\<lparr>csStep := PrecommitPhase\<rparr>\<rparr>
        else engine)"

definition handlePrecommit :: "Timestamp \<Rightarrow> ConsensusEngine \<Rightarrow> PrecommitMsg \<Rightarrow> ConsensusEngine" where
  "handlePrecommit now engine precommit =
     (let state = ceState engine; r = csRound state; vset = csValidatorSet state;
          precommits = (collectVotes engine PrecommitPhase r :: PrecommitMsg list) in
      if superMajority vset (set (map pcSender precommits)) then
        let blockHash = (case map pcBlockHash precommits of Some h # _ \<Rightarrow> Some h | _ \<Rightarrow> None) in
        (case blockHash of
           Some h \<Rightarrow>
             let e1 = commitBlock engine h
             in e1\<lparr>ceState := (ceState e1)\<lparr>csDecision := Some h, csStep := CommitPhase\<rparr>\<rparr>
         | None \<Rightarrow> startNextRound now engine state)
      else engine)"

definition handleCommit :: "ConsensusEngine \<Rightarrow> CommitMsg \<Rightarrow> ConsensusEngine" where
  "handleCommit engine c =
     (let state = ceState engine in
      if csStep state = CommitPhase then
        if cmBlockHash c = (case csDecision state of Some d \<Rightarrow> d | None \<Rightarrow> cmBlockHash c)
        then finalizeBlock engine (cmBlockHash c)
        else engine
      else engine)"

definition handleNewView :: "ConsensusEngine \<Rightarrow> NewView \<Rightarrow> ConsensusEngine" where
  "handleNewView engine newView =
     (let newRound = ConsensusRound (nvView newView)
      in engine\<lparr>ceState := (ceState engine)\<lparr>csRound := newRound, csStep := ProposePhase\<rparr>\<rparr>)"

text \<open>The state changes of a view change that found its votes.\<close>

definition enterNewRound :: "ConsensusEngine \<Rightarrow> ConsensusEngine" where
  "enterNewRound engine =
     (let currentRound = csRound (ceState engine);
          newRound = ConsensusRound (unConsensusRound currentRound + 1);
          e1 = engine\<lparr>ceState := (ceState engine)\<lparr>csRound := newRound, csStep := ProposePhase\<rparr>\<rparr>
      in e1\<lparr>ceMetrics := (ceMetrics e1)\<lparr>cmViewChanges := cmViewChanges (ceMetrics e1) + 1\<rparr>\<rparr>)"

section \<open>The loop\<close>

text \<open>
  A view change runs a round, which processes messages, which may be view changes:
  the recursion ends because a view change never finds the votes it collects.
\<close>

lemma collectViewChanges_never [simp]: "\<not> superMajority vset (vcSender ` set (collectViewChanges e w))"
  by (simp add: collectViewChanges_def)

function
  runConsensusRound :: "(ProposalMsg \<Rightarrow> BlockHash) \<Rightarrow> Timestamp \<Rightarrow> ConsensusEngine \<Rightarrow> ConsensusEngine exec" and
  processMessages :: "(ProposalMsg \<Rightarrow> BlockHash) \<Rightarrow> Timestamp \<Rightarrow> ConsensusEngine \<Rightarrow> ConsensusEngine exec" and
  applyMessages :: "(ProposalMsg \<Rightarrow> BlockHash) \<Rightarrow> Timestamp \<Rightarrow> ConsensusMessage exec list \<Rightarrow> ConsensusEngine \<Rightarrow> ConsensusEngine exec" and
  applyConsensusMessage :: "(ProposalMsg \<Rightarrow> BlockHash) \<Rightarrow> Timestamp \<Rightarrow> ConsensusEngine \<Rightarrow> ConsensusMessage \<Rightarrow> ConsensusEngine exec" and
  handleViewChange :: "(ProposalMsg \<Rightarrow> BlockHash) \<Rightarrow> Timestamp \<Rightarrow> ConsensusEngine \<Rightarrow> ViewChange \<Rightarrow> ConsensusEngine exec"
where
  "runConsensusRound pmBlockHash now engine =
     (case shouldPropose (csRound (ceState engine)) (csValidatorSet (ceState engine)) (ceValidator engine) of
        None \<Rightarrow> None
      | Some propose \<Rightarrow> processMessages pmBlockHash now (if propose then proposeBlock engine else engine))"
| "processMessages pmBlockHash now engine =
     applyMessages pmBlockHash now (ceMsgQueue engine) (engine\<lparr>ceMsgQueue := []\<rparr>)"
| "applyMessages pmBlockHash now [] engine = Some engine"
| "applyMessages pmBlockHash now (m # ms) engine =
     (case m of
        None \<Rightarrow> None
      | Some msg \<Rightarrow>
          (case applyConsensusMessage pmBlockHash now engine msg of
             None \<Rightarrow> None
           | Some e1 \<Rightarrow> applyMessages pmBlockHash now ms e1))"
| "applyConsensusMessage pmBlockHash now engine msg =
     (case msg of
        CProposal p \<Rightarrow> handleProposal pmBlockHash engine p
      | CPrevote p \<Rightarrow> Some (handlePrevote engine p)
      | CPrecommit p \<Rightarrow> Some (handlePrecommit now engine p)
      | CCommit c \<Rightarrow> Some (handleCommit engine c)
      | CViewChange vc \<Rightarrow> handleViewChange pmBlockHash now engine vc
      | CNewView nv \<Rightarrow> Some (handleNewView engine nv))"
| "handleViewChange pmBlockHash now engine viewChange =
     (if superMajority (csValidatorSet (ceState engine))
          (vcSender ` set (collectViewChanges engine (vcNewView viewChange)))
      then runConsensusRound pmBlockHash now (enterNewRound engine)
      else Some engine)"
  by pat_completeness auto
termination
  by (relation "measures
        [case_sum (case_sum (\<lambda>_. 4) (\<lambda>_. 3)) (case_sum (\<lambda>_. 2) (case_sum (\<lambda>_. 1) (\<lambda>_. 0))),
         case_sum (\<lambda>_. 0) (case_sum (\<lambda>(_, _, ms, _). length ms) (\<lambda>_. 0))]")
    simp_all

declare runConsensusRound.simps [simp del] processMessages.simps [simp del]
  applyConsensusMessage.simps [simp del] handleViewChange.simps [simp del]

definition startConsensus :: "(ProposalMsg \<Rightarrow> BlockHash) \<Rightarrow> Timestamp \<Rightarrow> ConsensusEngine \<Rightarrow> ConsensusEngine exec" where
  "startConsensus pmBlockHash now engine =
     (case csDecision (ceState engine) of
        Some _ \<Rightarrow> Some engine
      | None \<Rightarrow> runConsensusRound pmBlockHash now engine)"

section \<open>Queries\<close>

definition decideBlock :: "ConsensusEngine \<Rightarrow> BlockHash option" where
  "decideBlock engine = csDecision (ceState engine)"

definition shouldPrevote :: "ConsensusEngine \<Rightarrow> bool" where
  "shouldPrevote engine \<longleftrightarrow> csStep (ceState engine) = PrevotePhase"

definition shouldPrecommit :: "ConsensusEngine \<Rightarrow> bool" where
  "shouldPrecommit engine \<longleftrightarrow> csStep (ceState engine) = PrecommitPhase"

definition engineState :: "ConsensusEngine \<Rightarrow> HsConsensusState" where
  "engineState engine = ceState engine"

definition engineConfig :: "ConsensusEngine \<Rightarrow> ConsensusConfig" where
  "engineConfig engine = ceConfig engine"

definition engineValidatorSet :: "ConsensusEngine \<Rightarrow> EpochValidatorSet" where
  "engineValidatorSet engine = csValidatorSet (ceState engine)"

definition engineLatestBlock :: "ConsensusEngine \<Rightarrow> BlockHash option" where
  "engineLatestBlock engine = csDecision (ceState engine)"

section \<open>What the handlers do\<close>

text \<open>No votes are ever collected, so three handlers never act.\<close>

lemma handlePrevote_eq [simp]: "handlePrevote e p = e"
  by (simp add: handlePrevote_def collectVotes_def Let_def)

lemma handlePrecommit_eq [simp]: "handlePrecommit now e p = e"
  by (simp add: handlePrecommit_def collectVotes_def Let_def)

lemma handleViewChange_eq [simp]: "handleViewChange h now e vc = Some e"
  by (simp add: handleViewChange.simps)

lemma applyConsensusMessage_eq:
  "applyConsensusMessage h now e msg =
     (case msg of
        CProposal p \<Rightarrow> handleProposal h e p
      | CCommit c \<Rightarrow> Some (handleCommit e c)
      | CNewView nv \<Rightarrow> Some (handleNewView e nv)
      | _ \<Rightarrow> Some e)"
  by (simp add: applyConsensusMessage.simps split: ConsensusMessage.split)

lemma sendPrevote_simps [simp]:
  "ceState (sendPrevote e b) = ceState e" "ceConfig (sendPrevote e b) = ceConfig e"
  "ceMetrics (sendPrevote e b) = ceMetrics e" "ceValidator (sendPrevote e b) = ceValidator e"
  "ceDecisions (sendPrevote e b) = ceDecisions e"
  by (simp_all add: sendPrevote_def broadcastMessage_def Let_def)

text \<open>Folding a step over the messages keeps what every message keeps.\<close>

lemma applyMessages_keep:
  assumes "applyMessages h now ms e = Some e'" and "Q e"
    and "\<And>m e e'. Some m \<in> set ms \<Longrightarrow> Q e \<Longrightarrow> applyConsensusMessage h now e m = Some e' \<Longrightarrow> Q e'"
  shows "Q e'"
  using assms
proof (induction ms arbitrary: e)
  case (Cons m ms)
  then obtain msg e1 where "m = Some msg" "applyConsensusMessage h now e msg = Some e1"
    "applyMessages h now ms e1 = Some e'"
    by (auto split: option.splits)
  with Cons show ?case by (metis list.set_intros(1,2))
qed simp

text \<open>The proposer's own message raises as soon as the round looks at it.\<close>

lemma runConsensusRound_Some:
  "runConsensusRound h now e = Some e' \<longleftrightarrow>
     (\<exists>p. roundProposer (csRound (ceState e)) (csValidatorSet (ceState e)) = Some p \<and> p \<noteq> ceValidator e)
     \<and> applyMessages h now (ceMsgQueue e) (e\<lparr>ceMsgQueue := []\<rparr>) = Some e'"
  by (cases "roundProposer (csRound (ceState e)) (csValidatorSet (ceState e))")
    (simp_all add: runConsensusRound.simps processMessages.simps shouldPropose_def proposeBlock_def Let_def)

lemma runConsensusRound_keep:
  assumes "runConsensusRound h now e = Some e'" and "Q e"
    and "\<And>e. Q e \<Longrightarrow> Q (e\<lparr>ceMsgQueue := []\<rparr>)"
    and "\<And>m e e'. Q e \<Longrightarrow> applyConsensusMessage h now e m = Some e' \<Longrightarrow> Q e'"
  shows "Q e'"
proof -
  from assms(1) have "applyMessages h now (ceMsgQueue e) (e\<lparr>ceMsgQueue := []\<rparr>) = Some e'"
    by (simp add: runConsensusRound_Some)
  moreover have "Q (e\<lparr>ceMsgQueue := []\<rparr>)" using assms(2,3) by simp
  ultimately show ?thesis using assms(4) by (rule applyMessages_keep)
qed

section \<open>Steps of an engine\<close>

text \<open>
  The calls a program makes on an engine. A round of the proposer raises after it has
  queued its proposal and emptied the queue; a caller that catches the exception goes on from
  that state (\<open>caught\<close>). No other call that raises from a reachable state has changed it.
\<close>

inductive engine_step :: "(ProposalMsg \<Rightarrow> BlockHash) \<Rightarrow> ConsensusEngine \<Rightarrow> ConsensusEngine \<Rightarrow> bool"
  for pmBlockHash where
  start: "startConsensus pmBlockHash now e = Some e' \<Longrightarrow> engine_step pmBlockHash e e'"
| run: "runConsensusRound pmBlockHash now e = Some e' \<Longrightarrow> engine_step pmBlockHash e e'"
| message: "applyConsensusMessage pmBlockHash now e msg = Some e' \<Longrightarrow> engine_step pmBlockHash e e'"
| timeout: "engine_step pmBlockHash e (timeoutHandler now e)"
| caught: "shouldPropose (csRound (ceState e)) (csValidatorSet (ceState e)) (ceValidator e) = Some True \<Longrightarrow>
    engine_step pmBlockHash e ((proposeBlock e)\<lparr>ceMsgQueue := []\<rparr>)"

text \<open>\<open>transitionStep\<close> is exported and sets any step; no other code calls it.\<close>

inductive exported_step :: "(ProposalMsg \<Rightarrow> BlockHash) \<Rightarrow> ConsensusEngine \<Rightarrow> ConsensusEngine \<Rightarrow> bool"
  for pmBlockHash where
  engine: "engine_step pmBlockHash e e' \<Longrightarrow> exported_step pmBlockHash e e'"
| transition: "exported_step pmBlockHash e (transitionStep e st)"

lemma engine_step_keep:
  assumes "engine_step h e e'" and "Q e"
    and "\<And>e. Q e \<Longrightarrow> Q (e\<lparr>ceMsgQueue := []\<rparr>)"
    and "\<And>now m e e'. Q e \<Longrightarrow> applyConsensusMessage h now e m = Some e' \<Longrightarrow> Q e'"
    and "\<And>now e. Q e \<Longrightarrow> Q (timeoutHandler now e)"
    and "\<And>e. Q e \<Longrightarrow> Q ((proposeBlock e)\<lparr>ceMsgQueue := []\<rparr>)"
  shows "Q e'"
  using assms(1,2)
proof cases
  case (start now)
  then show ?thesis using runConsensusRound_keep [of h now e e' Q, OF _ assms(2-4)] assms(2)
    by (auto simp: startConsensus_def split: option.splits)
next
  case (run now)
  then show ?thesis using assms(2-4) by (rule runConsensusRound_keep)
qed (use assms in auto)

section \<open>Invariants\<close>

text \<open>An engine only ever queues its own prevotes.\<close>

fun own_prevote :: "ValidatorId \<Rightarrow> ConsensusMessage exec \<Rightarrow> bool" where
  "own_prevote v (Some (CPrevote p)) \<longleftrightarrow> prSender p = v"
| "own_prevote v _ \<longleftrightarrow> False"

definition engine_inv :: "EpochValidatorSet \<Rightarrow> ConsensusConfig \<Rightarrow> ConsensusEngine \<Rightarrow> bool" where
  "engine_inv vset config e \<longleftrightarrow>
     csLockedBlock (ceState e) = None \<and> csLockedRound (ceState e) = None
     \<and> csValidBlock (ceState e) = None \<and> csValidRound (ceState e) = None
     \<and> csValidatorSet (ceState e) = vset \<and> ceConfig e = config
     \<and> csTimeout (ceState e) = ccTimeoutPropose config
     \<and> cmBlocksCommitted (ceMetrics e) = 0 \<and> cmViewChanges (ceMetrics e) = 0
     \<and> ceDecisions e = [] \<and> list_all (own_prevote (ceValidator e)) (ceMsgQueue e)"

definition undecided :: "ConsensusEngine \<Rightarrow> bool" where
  "undecided e \<longleftrightarrow> csDecision (ceState e) = None
     \<and> (csStep (ceState e) = ProposePhase \<or> csStep (ceState e) = PrevotePhase)"

definition decided :: "BlockHash \<Rightarrow> ConsensusEngine \<Rightarrow> bool" where
  "decided b e \<longleftrightarrow> csDecision (ceState e) = Some b"

lemmas handler_defs = handleProposal_def handleCommit_def handleNewView_def finalizeBlock_def
  timeoutHandler_def startNextRound_def proposeBlock_def transitionStep_def isRoundProposer_def shouldPropose_def

lemma sendPrevote_queue:
  "list_all (own_prevote (ceValidator e)) (ceMsgQueue (sendPrevote e b)) \<longleftrightarrow>
   list_all (own_prevote (ceValidator e)) (ceMsgQueue e)"
  by (simp add: sendPrevote_def broadcastMessage_def Let_def)

lemma engine_inv_message:
  "engine_inv vset config e \<Longrightarrow> applyConsensusMessage h now e m = Some e' \<Longrightarrow> engine_inv vset config e'"
  by (auto simp: applyConsensusMessage_eq handler_defs engine_inv_def Let_def sendPrevote_queue
      bind_eq_Some_conv split: ConsensusMessage.splits if_splits)

lemma undecided_message: "undecided e \<Longrightarrow> applyConsensusMessage h now e m = Some e' \<Longrightarrow> undecided e'"
  by (auto simp: applyConsensusMessage_eq handler_defs undecided_def Let_def
      bind_eq_Some_conv split: ConsensusMessage.splits if_splits option.splits)

lemma decided_message: "decided b e \<Longrightarrow> applyConsensusMessage h now e m = Some e' \<Longrightarrow> decided b e'"
  by (auto simp: applyConsensusMessage_eq handler_defs decided_def Let_def
      bind_eq_Some_conv split: ConsensusMessage.splits if_splits option.splits)

interpretation ce: kept_invariant "exported_step h" "engine_inv vset config" for h vset config
proof
  fix e e' assume "exported_step h e e'" and "engine_inv vset config e"
  then show "engine_inv vset config e'"
  proof cases
    case engine
    then show ?thesis using \<open>engine_inv vset config e\<close>
      by (rule engine_step_keep) (erule (1) engine_inv_message | simp add: engine_inv_def handler_defs Let_def)+
  qed (simp add: engine_inv_def transitionStep_def)
qed

interpretation cu: kept_invariant "engine_step h" undecided for h
proof
  fix e e' assume "engine_step h e e'" and "undecided e"
  then show "undecided e'"
    by (rule engine_step_keep) (erule (1) undecided_message | simp add: undecided_def handler_defs Let_def)+
qed

interpretation cd: kept_invariant "exported_step h" "decided b" for h b
proof
  fix e e' assume "exported_step h e e'" and "decided b e"
  then show "decided b e'"
  proof cases
    case engine
    then show ?thesis using \<open>decided b e\<close>
      by (rule engine_step_keep) (erule (1) decided_message | simp add: decided_def handler_defs Let_def)+
  qed (simp add: decided_def transitionStep_def)
qed

interpretation cv: kept_invariant "exported_step h" "\<lambda>e. ceValidator e = v" for h v
proof
  fix e e' assume "exported_step h e e'" and v: "ceValidator e = v"
  then show "ceValidator e' = v"
  proof cases
    case engine
    then show ?thesis using v
      by (rule engine_step_keep)
        (auto simp: applyConsensusMessage_eq handler_defs Let_def bind_eq_Some_conv
          split: ConsensusMessage.splits if_splits option.splits)
  qed (simp add: transitionStep_def)
qed

text \<open>Timeouts move an engine on to the following rounds.\<close>

lemma timeouts_simps:
  "csRound (ceState (fold timeoutHandler nows e))
     = ConsensusRound (unConsensusRound (csRound (ceState e)) + word_of_nat (length nows))"
  "csValidatorSet (ceState (fold timeoutHandler nows e)) = csValidatorSet (ceState e)"
  "ceValidator (fold timeoutHandler nows e) = ceValidator e"
  by (induction nows arbitrary: e) (simp_all add: timeoutHandler_def startNextRound_def Let_def)

lemma engine_inv_new [simp]: "engine_inv vset config (newConsensusEngine now config priv pub v vset)"
  by (simp add: engine_inv_def newConsensusEngine_def Let_def)

lemma undecided_new [simp]: "undecided (newConsensusEngine now config priv pub v vset)"
  by (simp add: undecided_def newConsensusEngine_def Let_def)

lemma applyMessages_own:
  "list_all (own_prevote v) ms \<Longrightarrow> applyMessages h now ms e = Some e"
proof (induction ms)
  case (Cons m ms)
  then obtain p where "m = Some (CPrevote p)" by (cases "(v, m)" rule: own_prevote.cases) auto
  with Cons show ?case by (simp add: applyConsensusMessage_eq)
qed simp

definition demo_config :: ConsensusConfig where
  "demo_config = \<lparr>ccTimeoutPropose = 3000, ccTimeoutPrevote = 1000, ccTimeoutPrecommit = 1000,
     ccTimeoutCommit = 1000, ccMaxBlockSize = 1048576, ccMaxTxPerBlock = 1000, ccSuperMajority = 2 / 3,
     ccRoundInterval = 5000\<rparr>"

definition demo_engine :: "ConsensusEngine" where
  "demo_engine = newConsensusEngine 0 demo_config (HsPrivateKey []) (HsPublicKey []) (ValidatorId (HsAddress [2])) demo_vset"

lemma demo_timeout: "(exported_step h)\<^sup>*\<^sup>* demo_engine (timeoutHandler 7 demo_engine)"
  by (intro r_into_rtranclp exported_step.engine engine_step.timeout)

section \<open>Properties\<close>

text \<open>
  C19: In every state an engine reaches, whatever messages it gets, it holds no lock and no
  valid block, has committed no block, changed no view and kept the configured propose timeout
  (which is meant to grow from round to round), and its queue holds nothing but its own prevotes.
\<close>
theorem engine_invariant:
  assumes "(exported_step pmBlockHash)\<^sup>*\<^sup>* (newConsensusEngine now config priv pub v vset) e"
  shows "csLockedBlock (ceState e) = None \<and> csValidBlock (ceState e) = None
    \<and> engineValidatorSet e = vset \<and> engineConfig e = config
    \<and> csTimeout (ceState e) = ccTimeoutPropose config
    \<and> cmBlocksCommitted (ceMetrics e) = 0 \<and> cmViewChanges (ceMetrics e) = 0 \<and> ceDecisions e = []
    \<and> list_all (own_prevote (ceValidator e)) (ceMsgQueue e)"
  using ce.steps_inv [OF assms engine_inv_new]
  by (simp add: engine_inv_def engineValidatorSet_def engineConfig_def)

theorem engine_invariant_witness:
  "csRound (ceState (timeoutHandler 7 demo_engine)) = ConsensusRound 1
   \<and> csTimeout (ceState (timeoutHandler 7 demo_engine)) = 3000"
  using engine_invariant [OF demo_timeout [of "\<lambda>_. HsHash []", unfolded demo_engine_def]]
  by (simp add: demo_engine_def demo_config_def) (simp add: timeoutHandler_def startNextRound_def newConsensusEngine_def Let_def)

text \<open>
  C6: A network of engines never decides: through rounds, timeouts and messages of any content
  from anyone, an engine only alternates between proposing and prevoting, and its decision
  stays empty, because votes are never collected.
\<close>
theorem engine_never_decides:
  assumes "(engine_step pmBlockHash)\<^sup>*\<^sup>* (newConsensusEngine now config priv pub v vset) e"
  shows "decideBlock e = None \<and> (csStep (ceState e) = ProposePhase \<or> csStep (ceState e) = PrevotePhase)"
  using cu.steps_inv [OF assms undecided_new] by (simp add: undecided_def decideBlock_def)

theorem engine_never_decides_witness: "decideBlock (timeoutHandler 7 demo_engine) = None"
proof -
  have "(engine_step (\<lambda>_. HsHash []))\<^sup>*\<^sup>* demo_engine (timeoutHandler 7 demo_engine)"
    by (intro r_into_rtranclp engine_step.timeout)
  then show ?thesis unfolding demo_engine_def by (simp add: engine_never_decides)
qed

text \<open>
  C7: A decision is final: once an engine has decided a block, no sequence of calls, step
  changes included, replaces or withdraws the decision.
\<close>
theorem decision_is_final:
  assumes "(exported_step pmBlockHash)\<^sup>*\<^sup>* e e'" and "decideBlock e = Some b"
  shows "decideBlock e' = Some b"
  using cd.steps_inv [OF assms(1)] assms(2) by (simp add: decided_def decideBlock_def)

theorem decision_is_final_witness:
  "decideBlock (timeoutHandler 7 (finalizeBlock demo_engine (HsHash [1]))) = Some (HsHash [1])"
proof -
  have "(exported_step (\<lambda>_. HsHash []))\<^sup>*\<^sup>* (finalizeBlock demo_engine (HsHash [1]))
      (timeoutHandler 7 (finalizeBlock demo_engine (HsHash [1])))"
    by (intro r_into_rtranclp exported_step.engine engine_step.timeout)
  moreover have "decideBlock (finalizeBlock demo_engine (HsHash [1])) = Some (HsHash [1])"
    by (simp add: decideBlock_def finalizeBlock_def)
  ultimately show ?thesis by (rule decision_is_final)
qed

text \<open>
  In the commit step an engine that has not decided takes the block of any commit message
  as its decision: no vote, no signature and no membership of the sender is checked.
\<close>
lemma unauthenticated_commit_decides:
  assumes "decideBlock e = None"
  shows "\<exists>e'. applyConsensusMessage pmBlockHash now (transitionStep e CommitPhase) (CCommit c) = Some e'
    \<and> decideBlock e' = Some (cmBlockHash c)"
  using assms
  by (simp add: applyConsensusMessage_eq handleCommit_def transitionStep_def finalizeBlock_def decideBlock_def)

lemma unauthenticated_commit_decides_witness:
  "\<exists>e'. applyConsensusMessage (\<lambda>_. HsHash []) 0 (transitionStep demo_engine CommitPhase)
      (CCommit \<lparr>cmBlockHash = HsHash [9], cmRound = ConsensusRound 4,
        cmSender = ValidatorId (HsAddress []), cmSignature = HsSignature []\<rparr>) = Some e'
    \<and> decideBlock e' = Some (HsHash [9])"
  using unauthenticated_commit_decides [of demo_engine "\<lambda>_. HsHash []" 0
      "\<lparr>cmBlockHash = HsHash [9], cmRound = ConsensusRound 4,
        cmSender = ValidatorId (HsAddress []), cmSignature = HsSignature []\<rparr>"]
  by (simp add: decideBlock_def demo_engine_def newConsensusEngine_def)

text \<open>
  C8: From every reachable state a round returns exactly when there is an active validator
  and the proposer is another one, and then it only empties the queue; the proposer of a
  round always raises, on the undefined block of its own proposal.
\<close>
theorem round_returns_iff:
  assumes "(exported_step pmBlockHash)\<^sup>*\<^sup>* (newConsensusEngine now config priv pub v vset) e"
  shows "runConsensusRound pmBlockHash now' e =
    (case roundProposer (csRound (ceState e)) vset of
       None \<Rightarrow> None
     | Some p \<Rightarrow> if p = ceValidator e then None else Some (e\<lparr>ceMsgQueue := []\<rparr>))"
proof -
  have inv: "engine_inv vset config e" using ce.steps_inv [OF assms engine_inv_new] .
  then have own: "applyMessages pmBlockHash now' (ceMsgQueue e) (e\<lparr>ceMsgQueue := []\<rparr>) = Some (e\<lparr>ceMsgQueue := []\<rparr>)"
    by (auto simp: engine_inv_def intro: applyMessages_own)
  show ?thesis using inv own
    by (auto simp: engine_inv_def runConsensusRound.simps processMessages.simps shouldPropose_def proposeBlock_def
        Let_def split: option.split)
qed

theorem round_returns_iff_witness:
  "runConsensusRound (\<lambda>_. HsHash []) 9 demo_engine = Some demo_engine
   \<and> runConsensusRound (\<lambda>_. HsHash []) 9 (timeoutHandler 7 demo_engine) = None"
proof -
  let ?h = "\<lambda>_. HsHash []"
  have r: "roundProposer (csRound (ceState demo_engine)) demo_vset = Some (ValidatorId (HsAddress [1]))"
    "roundProposer (csRound (ceState (timeoutHandler 7 demo_engine))) demo_vset = Some (ValidatorId (HsAddress [2]))"
    by (simp_all add: demo_engine_def timeoutHandler_def startNextRound_def newConsensusEngine_def Let_def
        demo_vset_def activeValidators_def isValidatorActive_def)
  have "runConsensusRound ?h 9 demo_engine = Some demo_engine"
    using round_returns_iff [of ?h 0 demo_config "HsPrivateKey []" "HsPublicKey []" "ValidatorId (HsAddress [2])"
        demo_vset demo_engine 9] r(1)
    by (simp flip: demo_engine_def) (simp add: demo_engine_def newConsensusEngine_def Let_def)
  moreover have "runConsensusRound ?h 9 (timeoutHandler 7 demo_engine) = None"
    using round_returns_iff [of ?h 0 demo_config "HsPrivateKey []" "HsPublicKey []" "ValidatorId (HsAddress [2])"
        demo_vset "timeoutHandler 7 demo_engine" 9] r(2) demo_timeout
    by (simp flip: demo_engine_def)
      (simp add: demo_engine_def newConsensusEngine_def timeoutHandler_def startNextRound_def Let_def)
  ultimately show ?thesis ..
qed

text \<open>
  C22: An honest engine equivocates: it keeps no record of having voted, so two proposals of the
  round's proposer make it queue two signed prevotes of one round for two blocks. The premise
  on honest validators under which super-majorities cannot conflict is not kept by the code.
\<close>
theorem engine_equivocates:
  assumes "csLockedBlock (ceState e) = None"
    and "roundProposer (csRound (ceState e)) (csValidatorSet (ceState e)) = Some (pmProposer p)"
    and "pmProposer q = pmProposer p" and "pmRound p = csRound (ceState e)" and "pmRound q = csRound (ceState e)"
  shows "\<exists>e' v w. applyMessages pmBlockHash now [Some (CProposal p), Some (CProposal q)] e = Some e'
    \<and> ceMsgQueue e' = Some (CPrevote w) # Some (CPrevote v) # ceMsgQueue e
    \<and> prRound v = prRound w \<and> prSender v = ceValidator e \<and> prSender w = ceValidator e
    \<and> prBlockHash v = Some (pmBlockHash p) \<and> prBlockHash w = Some (pmBlockHash q)"
  using assms
  by (simp add: applyConsensusMessage_eq handleProposal_def isRoundProposer_def shouldPropose_def
      sendPrevote_def broadcastMessage_def Let_def)

definition demo_proposal :: "ConsensusRound option \<Rightarrow> ProposalMsg" where
  "demo_proposal vr = \<lparr>pmBlock = \<lparr>bHeader = demo_header 1, bBody = empty_body\<rparr>, pmRound = ConsensusRound 0,
     pmValidRound = vr, pmProposer = ValidatorId (HsAddress [1]), pmSignature = HsSignature []\<rparr>"

theorem engine_equivocates_witness:
  "\<exists>e' v w. applyMessages (\<lambda>p. if pmValidRound p = None then HsHash [] else HsHash [1]) 0
      [Some (CProposal (demo_proposal None)), Some (CProposal (demo_proposal (Some (ConsensusRound 0))))] demo_engine = Some e'
    \<and> ceMsgQueue e' = [Some (CPrevote w), Some (CPrevote v)]
    \<and> prRound v = prRound w \<and> prSender v = prSender w \<and> prBlockHash v \<noteq> prBlockHash w"
proof -
  have "csLockedBlock (ceState demo_engine) = None" "ceMsgQueue demo_engine = []"
    "csRound (ceState demo_engine) = ConsensusRound 0"
    "roundProposer (csRound (ceState demo_engine)) (csValidatorSet (ceState demo_engine)) = Some (ValidatorId (HsAddress [1]))"
    by (simp_all add: demo_engine_def newConsensusEngine_def Let_def demo_vset_def activeValidators_def isValidatorActive_def)
  then show ?thesis
    using engine_equivocates [of demo_engine "demo_proposal None" "demo_proposal (Some (ConsensusRound 0))"
        "\<lambda>p. if pmValidRound p = None then HsHash [] else HsHash [1]" 0]
    by (simp add: demo_proposal_def del: applyMessages.simps) (metis HsHash.inject list.distinct(1) option.inject)
qed

text \<open>
  C9: An active validator's engine stops. Let \<open>n\<close> be the number of active validators. From each
  state the engine reaches in a round \<open>r\<close> with \<open>r + n \<le> 2 ^ 63\<close>, some number of timeouts below
  \<open>n\<close> leads to a round that raises, since by then the rotation has made the validator the
  proposer. The bound is needed, since the code reads the round as a signed \<open>Int\<close>.
\<close>
theorem proposer_turn_raises:
  assumes "(exported_step pmBlockHash)\<^sup>*\<^sup>* (newConsensusEngine now config priv pub (viAddress v) vset) e"
    and "v \<in> set (activeValidators vset)"
    and "unat (unConsensusRound (csRound (ceState e))) + length (activeValidators vset) \<le> 2 ^ 63"
  shows "\<exists>j<length (activeValidators vset). \<forall>nows now'. length nows = j \<longrightarrow>
    runConsensusRound pmBlockHash now' (fold timeoutHandler nows e) = None"
proof -
  let ?r = "unConsensusRound (csRound (ceState e))"
  have self: "ceValidator e = viAddress v"
    using cv.steps_inv [OF assms(1)] by (simp add: newConsensusEngine_def Let_def)
  have vset: "csValidatorSet (ceState e) = vset"
    using ce.steps_inv [OF assms(1) engine_inv_new] by (simp add: engine_inv_def)
  obtain j where j: "j < length (activeValidators vset)"
    "roundProposer (ConsensusRound (?r + word_of_nat j)) vset = Some (viAddress v)"
    using roundProposer_turn [OF assms(2,3)] by blast
  have "runConsensusRound pmBlockHash now' (fold timeoutHandler nows e) = None" if "length nows = j" for nows now'
  proof (rule ccontr)
    assume "runConsensusRound pmBlockHash now' (fold timeoutHandler nows e) \<noteq> None"
    then obtain e' where "runConsensusRound pmBlockHash now' (fold timeoutHandler nows e) = Some e'" by blast
    then show False using j(2) self vset that by (simp add: runConsensusRound_Some timeouts_simps del: roundProposer.simps)
  qed
  with j(1) show ?thesis by blast
qed

theorem proposer_turn_raises_witness:
  "\<exists>j<3. \<forall>nows now'. length nows = j \<longrightarrow>
     runConsensusRound (\<lambda>_. HsHash []) now' (fold timeoutHandler nows demo_engine) = None"
proof -
  let ?v = "demo_validator 2 1 Active"
  have active: "activeValidators demo_vset = vsValidators demo_vset"
    by (simp add: activeValidators_def demo_vset_def isValidatorActive_def)
  have "?v \<in> set (activeValidators demo_vset)" "length (activeValidators demo_vset) = 3"
    unfolding active by (simp_all add: demo_vset_def)
  moreover have "(exported_step (\<lambda>_. HsHash []))\<^sup>*\<^sup>*
      (newConsensusEngine 0 demo_config (HsPrivateKey []) (HsPublicKey []) (viAddress ?v) demo_vset) demo_engine"
    by (simp add: demo_engine_def)
  moreover have "csRound (ceState demo_engine) = ConsensusRound 0"
    by (simp add: demo_engine_def newConsensusEngine_def Let_def)
  ultimately show ?thesis using proposer_turn_raises [of "\<lambda>_. HsHash []" 0 demo_config _ _ ?v demo_vset demo_engine] by simp
qed

end
