(* ===== verification/Spec2Isabelle.thy ===== *)
theory Spec2Isabelle
  imports Storage P2P Node_Core Api Unit_Tests Hs_Block Hs_Engine
begin

text \<open>
  A verification library for Crypto_Coin: the Rust workspace of \<open>src/Cargo.toml\<close> and the
  Haskell packages under \<open>src/formal-protocol\<close>.

  \<^bold>\<open>The program.\<close> The crate \<open>crypto/merkle\<close> computes Merkle roots and proofs;
  \<open>crypto/signatures\<close> wraps Ed25519, hashing, addresses, a simplified VRF and commitments.
  \<open>node/storage\<close> keeps blocks behind locks; \<open>node/p2p\<close> has the wire protocol, the table of
  known peers, the TCP transport, and the manager that joins the last two; \<open>node/node-core\<close>
  has configuration, errors, metrics and the runtime; \<open>node/api\<close> the JSON-RPC envelopes.
  \<open>tests/integration\<close> simulates a network of validators. On the Haskell side
  \<open>crypto-coin-protocol\<close> has the ledger types, its own digest, signatures and cipher, Merkle
  trees, transactions and blocks; \<open>crypto-coin-consensus\<close>, on top of it, has validator sets,
  the super-majority rule and the consensus engine. The two sides share no code: the Merkle
  trees are the one component both implement, and this theory compares what their roots bind.

  \<^bold>\<open>The theories.\<close> Definitions carry the names of the source, with a prefix where two
  files use one name; a record's fields carry a prefix per record.

  \<^item> \<open>Rust_Prelude\<close>: machine words, calls that may not return (\<open>'a exec\<close>, where
    \<open>None\<close> is a panic or a call that never completes), slices and arrays, big-endian
    integers, arithmetic under the two build profiles, \<open>HashMap\<close>. Interfaces:
    \<open>hash_map\<close> (what a map promises), \<open>last_write_wins\<close> (a store seen as its history),
    \<open>kept_invariant\<close> (what every operation keeps, every sequence keeps).
  \<^item> \<open>Net_Addr\<close>: decimal text, socket addresses and durations of the standard library.
  \<^item> \<open>Merkle_Spec\<close>, \<open>Merkle\<close>: the abstract tree and \<open>crypto/merkle/src/lib.rs\<close>. The
    interface \<open>merkle_scheme\<close> is interpreted on the crate's own functions. \<open>compute_root\<close>
    refines the abstract root of the padded leaves; authentication paths verify; two accepted
    proofs that disagree expose a hash collision, which is computed. What \<open>generate_proof\<close>
    really collects is characterised, and it does not verify from four leaves on.
  \<^item> \<open>Signatures\<close>: \<open>crypto/signatures/src/lib.rs\<close>. The interfaces \<open>signature_scheme\<close>
    and \<open>signed_value\<close> are interpreted on \<open>sign\<close>/\<open>verify\<close> and on the VRF. Every key
    generator yields a pair that signs and verifies; honest VRF proofs verify, and the owner
    of a key can choose the output; commitments bind the concatenation only.
  \<^item> \<open>Storage\<close>: \<open>node/storage/src/lib.rs\<close>, once as functions and once as a step relation in
    which concurrent \<open>store_block\<close> calls interleave where they release a lock. The indexes
    refine the history of stores; in quiescent states every stored block resolves and the head
    is highest.
  \<^item> \<open>Protocol\<close>: \<open>node/p2p/src/protocol.rs\<close>. Frames round-trip with any trailing bytes;
    what each kind of damage does to validation; the length field wraps at 4 GiB.
  \<^item> \<open>Discovery\<close>: \<open>node/p2p/src/discovery.rs\<close>. Invariant of the reachable peer tables,
    permanence of bans, exact behaviour of the dialing candidates and of pruning.
  \<^item> \<open>Transport\<close>: \<open>node/p2p/src/transport.rs\<close>. Sent messages decode in order; a broadcast
    writes to every stream whatever the others do; there is never more than one connection.
  \<^item> \<open>P2P\<close>: \<open>node/p2p/src/lib.rs\<close>, on top of the two. Starting dials the last seed only;
    what is broadcast afterwards arrives there in order; the manager's peer list stays empty.
  \<^item> \<open>Node_Core\<close>: \<open>node/node-core/src\<close>. Totals of the metrics under both profiles; the
    reported height is the maximum of the updates. Spawned tasks take turns under a schedule that
    is an argument, also while \<open>shutdown\<close> waits: when some schedule lets it return, and when no
    schedule can make it hang.
  \<^item> \<open>Api\<close>: \<open>node/api/src/lib.rs\<close>.
  \<^item> \<open>F64\<close>: the floating-point operations the workspace uses, as rounding of rationals to 53
    bits, with monotonicity, exactness on small integers and the relative error.
  \<^item> \<open>Test_Network\<close>: \<open>tests/integration/mod.rs\<close>. A round reaches consensus exactly when
    fewer than a third of the validators are faulty; what a run prints, and how accurate the
    printed percentage is.
  \<^item> \<open>Unit_Tests\<close>: the test functions of the Rust workspace on the models, and which of them
    pass.
  \<^item> \<open>Hs_Types\<close>: what the packages use of the Haskell base library (fixed-width \<open>Int\<close>,
    \<open>succ\<close> with its exception, ordered maps, fixed-point time) and \<open>Protocol/Types.hs\<close>, with
    the derived orders as instances of \<open>linorder\<close>.
  \<^item> \<open>Hs_Crypto\<close>: \<open>Protocol/Crypto.hs\<close>. The digest is computed as written, which is not
    SHA-3: which bytes it reads is characterised, and from that when honest signatures verify,
    that accepted signatures need no key, and that decryption inverts encryption.
  \<^item> \<open>Hs_Merkle\<close>: \<open>Protocol/Merkle.hs\<close>, on the digest of \<open>Hs_Crypto\<close>: a root depends on the
    first leaf only.
  \<^item> \<open>Hs_Transaction\<close>, \<open>Hs_Block\<close>: \<open>Protocol/Block.hs\<close>. What an accepted block and body
    guarantee (position in the chain, value conserved where no sum wraps), when validation
    raises, and what the digest and the missing ownership check let through: under a signed
    header all but the first transaction can be replaced.
  \<^item> \<open>Hs_Consensus\<close>: \<open>Consensus/Types.hs\<close> and the choice of the proposer. The interface
    \<open>weighted_quorums\<close> (weights of voters, quorum intersection) is interpreted on
    \<open>superMajority\<close>, on validator sets where its word arithmetic is exact (\<open>wf_vset\<close>): two
    super-majorities share an honest voter, and the honest voters are one. Below round
    \<open>2 ^ 63\<close> every active validator gets its turn.
  \<^item> \<open>Hs_Engine\<close>: \<open>Consensus/Engine.hs\<close>. Handlers and rounds are functions on the engine's
    record; \<open>engine_step\<close> has one rule per call, \<open>exported_step\<close> adds the exported setter of the
    step. Decisions are final; no engine decides by itself, since votes are never collected; a
    round returns exactly when another validator proposes, so the rotation, below round \<open>2 ^ 63\<close>,
    brings every active validator to a round that raises; honest engines may equivocate.

  \<^bold>\<open>Parameters.\<close> Third-party code is an argument: the digests, Ed25519, HKDF and
  \<open>hex\<close> (record \<open>crypto\<close>, laws \<open>signature_laws\<close>, \<open>digest_laws\<close>, \<open>hkdf_laws\<close>),
  \<open>rand\<close>'s shuffle (law \<open>permutes_lists\<close>), streams and message encoding (record
  \<open>tokio\<close>, laws \<open>healthy\<close> and \<open>encodes\<close>), the shutdown channel (record \<open>channel\<close>, law \<open>capacity_one\<close>).
  So are what the network and the clock answer, and the text form of IPv6 addresses. No law
  asks a hash to be injective. The Haskell packages define their own cryptography, which is
  modelled; their parameters are the clock and \<open>pmBlockHash\<close>, a function on proposals that
  the engine calls and no module defines.

  \<^bold>\<open>Source that does not compile.\<close> In both parts some lines are not accepted by the
  compiler (a receiver that is cloned, fields that do not exist, upper-case pattern variables,
  two functions of one name, missing imports). Such a line is read by its evident meaning; each
  case is listed with the findings of the manifest or in the theory that models it.

  \<^bold>\<open>Loops and bounds.\<close> The doubling loop of \<open>next_power_of_two\<close> and the recursion of
  \<open>build_tree\<close> may not end: they are partial functions, and exactly when they return is
  proved. There is no fuel. \<open>usize\<close> is 64 bits wide; slice lengths and indices are natural
  numbers except where a word decides an outcome. The recursion of a consensus round through
  its messages back to a round ends because a view change never finds its votes; it is a total
  function with that as its measure. All other loops are total recursions. Haskell's \<open>Int\<close> and
  its word types are words; a list whose length would not fit an \<open>Int\<close> is excluded by the
  premise \<open>hs_list\<close>.

  \<^bold>\<open>Not modelled.\<close> Logging; the receiving ends of event channels; encoding by
  \<open>serde\<close> and \<open>bincode\<close>; floating point beyond \<open>F64\<close> (scores are rationals that are only
  stored); destructors, which only log; the modules \<open>block_store\<close>, \<open>state_db\<close>,
  \<open>mempool\<close>, \<open>rpc\<close>, \<open>ws\<close>, \<open>rest\<close>, which are declared and not in the repository;
  memory exhaustion. Of the Haskell packages: \<open>merkleTreeDepth\<close>, floating point whose result
  is never forced; instances for JSON and deep evaluation; threads on one engine, which the
  module does not start (a call is one step); the property tests, which are written against
  modules and fields the packages do not have.
\<close>

section \<open>The two Merkle implementations\<close>

text \<open>A hash of the Haskell package as a hash of the Rust crate.\<close>

definition rust_hash :: "HsHash \<Rightarrow> hash" where
  "rust_hash h = Hash (unHash h)"

lemma rust_hash_inject [simp]: "rust_hash a = rust_hash b \<longleftrightarrow> a = b"
  by (cases a; cases b) (simp add: rust_hash_def)

lemma rust_roots_conflict:
  assumes "length hs = 2 ^ k" and "length hs' = 2 ^ k" and "k \<le> 63" and "i < 2 ^ k" and "hs ! i \<noteq> hs' ! i"
    and "compute_root sha3 hs = compute_root sha3 hs'"
  shows "\<exists>pq. find_collision (combine_hashes sha3) i (hs ! i) (mpath (combine_hashes sha3) k hs i)
      (hs' ! i) (mpath (combine_hashes sha3) k hs' i) = Some pq \<and> is_collision (combine_hashes sha3) pq"
  using assms mk.climb_mpath [of hs k i sha3] mk.climb_mpath [of hs' k i sha3]
  by (intro mk.climb_conflict) (simp_all add: compute_root_power_of_two)

text \<open>
  C17: The Rust root commits to every leaf, the Haskell root to the first leaf only. Take two
  lists of \<open>2 ^ k\<close> 32-byte hashes, \<open>k < 63\<close>, with the same first element, that differ at
  position \<open>i\<close>. The Haskell package computes the same root for both. If the Rust crate does
  so too, with whatever digest, then \<open>find_collision\<close> on the two authentication paths of
  position \<open>i\<close> computes two different pairs of hashes with one combined hash. So the two
  implementations cannot agree on both lists unless the digest of the crate is broken.
\<close>
theorem only_rust_root_binds_all_leaves:
  assumes "length hs = 2 ^ k" and "length hs' = 2 ^ k" and "k < 63"
    and "list_all wf_HsHash hs" and "list_all wf_HsHash hs'"
    and "hd hs = hd hs'" and "i < 2 ^ k" and "hs ! i \<noteq> hs' ! i"
  shows "computeRoot hs = Some (hd hs) \<and> computeRoot hs' = Some (hd hs) \<and>
    (compute_root sha3 (map rust_hash hs) = compute_root sha3 (map rust_hash hs') \<longrightarrow>
     (\<exists>pq. find_collision (combine_hashes sha3) i
          (rust_hash (hs ! i)) (mpath (combine_hashes sha3) k (map rust_hash hs) i)
          (rust_hash (hs' ! i)) (mpath (combine_hashes sha3) k (map rust_hash hs') i) = Some pq \<and>
        is_collision (combine_hashes sha3) pq))"
proof -
  have "(2 :: nat) ^ k < 2 ^ 63" using assms(3) by (intro power_strict_increasing) simp_all
  then have "hs_list hs" and "hs_list hs'" and "hs \<noteq> []" and "hs' \<noteq> []" using assms(1,2) by auto
  then show ?thesis
    using assms computeRoot_first [of hs] computeRoot_first [of hs']
      rust_roots_conflict [of "map rust_hash hs" k "map rust_hash hs'" i sha3] by simp
qed

theorem only_rust_root_binds_all_leaves_witness:
  "let a = HsHash (replicate 32 1); b = HsHash (replicate 32 2); c = HsHash (replicate 32 3);
       H = combine_hashes zero_digest
   in computeRoot [a, b] = computeRoot [a, c] \<and>
     (\<exists>pq. find_collision H 1 (rust_hash b) [rust_hash a] (rust_hash c) [rust_hash a] = Some pq \<and> is_collision H pq)"
proof -
  let ?a = "HsHash (replicate 32 1)" and ?b = "HsHash (replicate 32 2)" and ?c = "HsHash (replicate 32 3)"
  have "compute_root zero_digest (map rust_hash [?a, ?b]) = compute_root zero_digest (map rust_hash [?a, ?c])"
    by (simp add: compute_root_power_of_two [of _ 1] combine_hashes_def sha3_256_def zero_digest_def)
  then show ?thesis
    using only_rust_root_binds_all_leaves [of "[?a, ?b]" 1 "[?a, ?c]" 1 zero_digest]
    by (simp add: wf_HsHash_def Let_def)
qed

text \<open>
  On a single hash they differ as well: the Haskell package hashes the leaf, the Rust crate
  returns it.
\<close>

lemma single_leaf_roots:
  "computeRoot [h] = Some (hashLeaf h)" "compute_root sha3 [rust_hash h] = Some (rust_hash h)"
  by (simp_all add: compute_root_single)

end
